(* ===== verification/Prelude.thy ===== *)
theory Prelude
  imports Complex_Main "HOL-Library.Multiset"
begin

section \<open>Shared prelude: database transactions, relations across them, list lemmas\<close>

text \<open>
  Every service of the clearing house is written as Python code that runs SQL statements on
  one connection and raises an exception to abandon the transaction. A fragment of such code
  is modelled as a function from the database state to either the exception it raises or its
  result with the new state. An exception carries no state: psycopg rolls the transaction (or
  the savepoint of \<open>with conn.transaction()\<close>) back, so the caller that handles the exception
  continues from the state it had before the fragment started.

  The collections declared here (\<open>tx_simps\<close>, \<open>tx_rules\<close>) are extended by every component.
\<close>

named_theorems tx_simps "decomposition of successful runs"
named_theorems frame_simps "what an operation leaves alone"

subsection \<open>The transaction monad\<close>

type_synonym ('s, 'e, 'a) tx = "'s \<Rightarrow> 'e + ('a \<times> 's)"

definition return_tx :: "'a \<Rightarrow> ('s, 'e, 'a) tx" where
  "return_tx x = (\<lambda>s. Inr (x, s))"

definition bind_tx :: "('s, 'e, 'a) tx \<Rightarrow> ('a \<Rightarrow> ('s, 'e, 'b) tx) \<Rightarrow> ('s, 'e, 'b) tx" where
  "bind_tx m k = (\<lambda>s. case m s of Inl e \<Rightarrow> Inl e | Inr (x, t) \<Rightarrow> k x t)"

definition raise_tx :: "'e \<Rightarrow> ('s, 'e, 'a) tx" where
  "raise_tx e = (\<lambda>s. Inl e)"

definition gets_tx :: "('s \<Rightarrow> 'a) \<Rightarrow> ('s, 'e, 'a) tx" where
  "gets_tx f = (\<lambda>s. Inr (f s, s))"

definition modify_tx :: "('s \<Rightarrow> 's) \<Rightarrow> ('s, 'e, unit) tx" where
  "modify_tx f = (\<lambda>s. Inr ((), f s))"

definition guard_tx :: "bool \<Rightarrow> 'e \<Rightarrow> ('s, 'e, unit) tx" where
  "guard_tx b e = (if b then return_tx () else raise_tx e)"

definition lift_tx :: "'e + 'a \<Rightarrow> ('s, 'e, 'a) tx" where
  "lift_tx r = (\<lambda>s. case r of Inl e \<Rightarrow> Inl e | Inr x \<Rightarrow> Inr (x, s))"

text \<open>\<open>try: m except e: h e\<close>, where \<open>m\<close> is rolled back before the handler runs.\<close>

definition catch_tx :: "('s, 'e, 'a) tx \<Rightarrow> ('e \<Rightarrow> ('s, 'e, 'a) tx) \<Rightarrow> ('s, 'e, 'a) tx" where
  "catch_tx m h = (\<lambda>s. case m s of Inl e \<Rightarrow> h e s | Inr r \<Rightarrow> Inr r)"

text \<open>\<open>for x in xs: f(x)\<close>, collecting the results.\<close>

fun for_tx :: "('a \<Rightarrow> ('s, 'e, 'b) tx) \<Rightarrow> 'a list \<Rightarrow> ('s, 'e, 'b list) tx" where
  "for_tx f [] = return_tx []"
| "for_tx f (x # xs) =
     bind_tx (f x) (\<lambda>y. bind_tx (for_tx f xs) (\<lambda>ys. return_tx (y # ys)))"

text \<open>\<open>acc = init; for x in xs: acc = f(x, acc)\<close>.\<close>

fun fold_tx :: "('a \<Rightarrow> 'b \<Rightarrow> ('s, 'e, 'b) tx) \<Rightarrow> 'a list \<Rightarrow> 'b \<Rightarrow> ('s, 'e, 'b) tx" where
  "fold_tx f [] acc = return_tx acc"
| "fold_tx f (x # xs) acc = bind_tx (f x acc) (\<lambda>acc'. fold_tx f xs acc')"

lemma return_tx_Inr [tx_simps]: "return_tx x s = Inr r \<longleftrightarrow> r = (x, s)"
  by (auto simp: return_tx_def)

lemma bind_tx_Inr [tx_simps]:
  "bind_tx m k s = Inr r \<longleftrightarrow> (\<exists>x t. m s = Inr (x, t) \<and> k x t = Inr r)"
  by (auto simp: bind_tx_def split: sum.splits)

lemma raise_tx_Inr [tx_simps]: "raise_tx e s = Inr r \<longleftrightarrow> False"
  by (simp add: raise_tx_def)

lemma gets_tx_Inr [tx_simps]: "gets_tx f s = Inr r \<longleftrightarrow> r = (f s, s)"
  by (auto simp: gets_tx_def)

lemma modify_tx_Inr [tx_simps]: "modify_tx f s = Inr r \<longleftrightarrow> r = ((), f s)"
  by (auto simp: modify_tx_def)

lemma guard_tx_Inr [tx_simps]: "guard_tx b e s = Inr r \<longleftrightarrow> b \<and> r = ((), s)"
  by (auto simp: guard_tx_def return_tx_def raise_tx_def)

lemma lift_tx_Inr [tx_simps]: "lift_tx v s = Inr r \<longleftrightarrow> (\<exists>x. v = Inr x \<and> r = (x, s))"
  by (auto simp: lift_tx_def split: sum.splits)

lemma catch_tx_Inr [tx_simps]:
  "catch_tx m h s = Inr r \<longleftrightarrow> m s = Inr r \<or> (\<exists>e. m s = Inl e \<and> h e s = Inr r)"
  by (auto simp: catch_tx_def split: sum.splits)

lemma for_tx_total:
  "(\<And>x s. \<exists>y t. f x s = Inr (y, t)) \<Longrightarrow> \<exists>ys t. for_tx f xs s = Inr (ys, t)"
proof (induction xs arbitrary: s)
  case (Cons x xs)
  then obtain y t ys u where "f x s = Inr (y, t)" "for_tx f xs t = Inr (ys, u)" by meson
  then show ?case by (simp add: bind_tx_def return_tx_def)
qed (simp add: return_tx_def)

lemma fold_tx_result:
  assumes "\<And>x a s b t. f x a s = Inr (b, t) \<Longrightarrow> b = g a x"
  shows "fold_tx f xs acc s = Inr (r, t) \<Longrightarrow> r = foldl g acc xs"
proof (induction xs arbitrary: acc s)
  case (Cons x xs)
  then obtain b u where "f x acc s = Inr (b, u)" "fold_tx f xs b u = Inr (r, t)"
    by (auto simp: tx_simps)
  with assms [of x acc s b u] Cons.IH show ?case by simp
qed (simp add: tx_simps)

text \<open>Forward evaluation, for running a concrete transaction by \<open>simp\<close>.\<close>

lemma bind_tx_step: "m s = Inr (x, t) \<Longrightarrow> bind_tx m k s = k x t"
  by (simp add: bind_tx_def)

lemma bind_tx_fail: "m s = Inl e \<Longrightarrow> bind_tx m k s = Inl e"
  by (simp add: bind_tx_def)

lemma bind_return_tx [simp]: "bind_tx (return_tx x) k = k x"
  by (simp add: bind_tx_def return_tx_def)

lemma bind_tx_return [simp]: "bind_tx m return_tx = m"
  by (auto simp: bind_tx_def return_tx_def fun_eq_iff split: sum.splits)

lemma bind_tx_assoc: "bind_tx (bind_tx m k) l = bind_tx m (\<lambda>x. bind_tx (k x) l)"
  by (auto simp: bind_tx_def fun_eq_iff split: sum.splits)

lemma bind_gets_tx [simp]: "bind_tx (gets_tx f) k s = k (f s) s"
  by (simp add: bind_tx_def gets_tx_def)

lemma bind_modify_tx [simp]: "bind_tx (modify_tx f) k s = k () (f s)"
  by (simp add: bind_tx_def modify_tx_def)

lemma bind_raise_tx [simp]: "bind_tx (raise_tx e) k s = Inl e"
  by (simp add: bind_tx_def raise_tx_def)

lemma guard_tx_True [simp]: "b \<Longrightarrow> guard_tx b e = return_tx ()"
  by (simp add: guard_tx_def)

lemma bind_guard_False [simp]: "\<not> b \<Longrightarrow> bind_tx (guard_tx b e) k s = Inl e"
  by (simp add: guard_tx_def)

lemmas run_simps = return_tx_def bind_tx_def raise_tx_def gets_tx_def modify_tx_def
  guard_tx_def lift_tx_def catch_tx_def

subsection \<open>Relations that hold across a transaction\<close>

text \<open>
  Every successful run of \<open>m\<close> relates its start to its end by \<open>R\<close>: the shape of all
  invariant, frame and append-only lemmas of the development.
\<close>

definition across :: "('s \<Rightarrow> 's \<Rightarrow> bool) \<Rightarrow> ('s, 'e, 'a) tx \<Rightarrow> bool" where
  "across R m \<longleftrightarrow> (\<forall>s x t. m s = Inr (x, t) \<longrightarrow> R s t)"

lemma acrossI [intro?]: "(\<And>s x t. m s = Inr (x, t) \<Longrightarrow> R s t) \<Longrightarrow> across R m"
  by (auto simp: across_def)

lemma acrossD: "across R m \<Longrightarrow> m s = Inr (x, t) \<Longrightarrow> R s t"
  by (auto simp: across_def)

locale tx_relation =
  fixes R :: "'s \<Rightarrow> 's \<Rightarrow> bool"
  assumes refl [simp]: "R s s"
    and trans: "R s t \<Longrightarrow> R t u \<Longrightarrow> R s u"
begin

lemma across_return: "across R (return_tx x)"
  by (auto simp: across_def tx_simps)

lemma across_raise: "across R (raise_tx e)"
  by (auto simp: across_def tx_simps)

lemma across_gets: "across R (gets_tx f)"
  by (auto simp: across_def tx_simps)

lemma across_guard: "across R (guard_tx b e)"
  by (auto simp: across_def tx_simps)

lemma across_lift: "across R (lift_tx r)"
  by (auto simp: across_def tx_simps)

lemma across_modify: "(\<And>s. R s (f s)) \<Longrightarrow> across R (modify_tx f)"
  by (auto simp: across_def tx_simps)

lemma across_bind:
  "across R m \<Longrightarrow> (\<And>x. across R (k x)) \<Longrightarrow> across R (bind_tx m k)"
  unfolding across_def tx_simps by (blast intro: trans)

lemma across_catch:
  "across R m \<Longrightarrow> (\<And>e. across R (h e)) \<Longrightarrow> across R (catch_tx m h)"
  by (auto simp: across_def tx_simps)

lemma across_if: "across R m \<Longrightarrow> across R n \<Longrightarrow> across R (if b then m else n)"
  by simp

lemma across_case_option:
  "across R m \<Longrightarrow> (\<And>x. across R (n x)) \<Longrightarrow>
   across R (case v of None \<Rightarrow> m | Some x \<Rightarrow> n x)"
  by (cases v) auto

lemma across_case_prod:
  "(\<And>x y. across R (n x y)) \<Longrightarrow> across R (case v of (x, y) \<Rightarrow> n x y)"
  by (cases v) auto

lemma across_let: "(\<And>x. across R (n x)) \<Longrightarrow> across R (let x = v in n x)"
  by simp

lemma across_for: "(\<And>x. across R (f x)) \<Longrightarrow> across R (for_tx f xs)"
  by (induction xs) (auto intro: across_bind across_return)

lemma across_fold: "(\<And>x a. across R (f x a)) \<Longrightarrow> across R (fold_tx f xs acc)"
  by (induction xs arbitrary: acc) (auto intro: across_bind across_return)

lemmas across_rules = across_return across_raise across_gets across_guard across_lift
  across_bind across_catch across_if across_case_option across_case_prod across_let
  across_for across_fold

end

text \<open>An invariant, a kept value and a growing list are such relations.\<close>

lemma keeps_relation: "tx_relation (\<lambda>s t. P s \<longrightarrow> P t)"
  by unfold_locales auto

lemma same_relation: "tx_relation (\<lambda>s t. f s = f t)"
  by unfold_locales auto

subsection \<open>Lists as tables\<close>

text \<open>\<open>SELECT ... WHERE p\<close> followed by \<open>fetchone()\<close>.\<close>

definition fetchone :: "('r \<Rightarrow> bool) \<Rightarrow> 'r list \<Rightarrow> 'r option" where
  "fetchone p rows = (case filter p rows of [] \<Rightarrow> None | r # _ \<Rightarrow> Some r)"

text \<open>\<open>UPDATE ... SET f WHERE p\<close>.\<close>

definition update_where :: "('r \<Rightarrow> bool) \<Rightarrow> ('r \<Rightarrow> 'r) \<Rightarrow> 'r list \<Rightarrow> 'r list" where
  "update_where p f rows = map (\<lambda>r. if p r then f r else r) rows"

text \<open>\<open>ORDER BY key DESC\<close>; rows with the same key keep the order they were inserted in.\<close>

definition order_desc :: "('r \<Rightarrow> int) \<Rightarrow> 'r list \<Rightarrow> 'r list" where
  "order_desc key rows = sort_key (\<lambda>r. - key r) rows"

lemma order_desc_set [simp]: "set (order_desc key rows) = set rows"
  by (simp add: order_desc_def)

text \<open>What \<open>LIMIT\<close> leaves out is nowhere above what it keeps.\<close>

lemma order_desc_limit:
  assumes "q \<in> set rows" "listed = take n (order_desc key rows)"
  shows "q \<in> set listed \<or> (\<forall>r \<in> set listed. key q \<le> key r)"
proof -
  obtain rest where split: "order_desc key rows = listed @ rest"
    using assms(2) append_take_drop_id by metis
  have "sorted (map (\<lambda>r. - key r) (order_desc key rows))" by (simp add: order_desc_def)
  then have "\<forall>r \<in> set listed. \<forall>p \<in> set rest. key p \<le> key r"
    unfolding split map_append sorted_append by simp
  moreover have "q \<in> set listed \<union> set rest"
    using assms(1) by (metis order_desc_set set_append split)
  ultimately show ?thesis by blast
qed

lemma order_desc_sorted: "sorted_wrt (\<lambda>r q. key q \<le> key r) (take n (order_desc key rows))"
proof (rule sorted_wrt_take)
  have "sorted (map (\<lambda>r. - key r) (order_desc key rows))" by (simp add: order_desc_def)
  then show "sorted_wrt (\<lambda>r q. key q \<le> key r) (order_desc key rows)"
    unfolding sorted_map by simp
qed

lemma fetchone_Nil [simp]: "fetchone p [] = None"
  by (simp add: fetchone_def)

lemma fetchone_Cons [simp]:
  "fetchone p (r # rs) = (if p r then Some r else fetchone p rs)"
  by (simp add: fetchone_def)

lemma fetchone_Some: "fetchone p rows = Some r \<Longrightarrow> r \<in> set rows \<and> p r"
  by (induction rows) (auto split: if_splits)

lemma fetchone_None: "fetchone p rows = None \<longleftrightarrow> (\<forall>r \<in> set rows. \<not> p r)"
  by (induction rows) auto

lemma fetchone_ex: "(\<exists>r. fetchone p rows = Some r) \<longleftrightarrow> (\<exists>r \<in> set rows. p r)"
  using fetchone_None [of p rows] by (cases "fetchone p rows") auto

lemma fetchone_append:
  "fetchone p (xs @ ys) = (case fetchone p xs of None \<Rightarrow> fetchone p ys | Some r \<Rightarrow> Some r)"
  by (induction xs) auto

lemma fetchone_unique:
  assumes "distinct (map key rows)" "r \<in> set rows" "key r = k"
  shows "fetchone (\<lambda>x. key x = k) rows = Some r"
  using assms by (induction rows) auto

lemma update_where_Nil [simp]: "update_where p f [] = []"
  by (simp add: update_where_def)

lemma update_where_Cons [simp]:
  "update_where p f (r # rs) = (if p r then f r else r) # update_where p f rs"
  by (simp add: update_where_def)

lemma update_where_append [simp]:
  "update_where p f (xs @ ys) = update_where p f xs @ update_where p f ys"
  by (simp add: update_where_def)

lemma length_update_where [simp]: "length (update_where p f rows) = length rows"
  by (simp add: update_where_def)

lemma map_update_where:
  "(\<And>r. p r \<Longrightarrow> key (f r) = key r) \<Longrightarrow> map key (update_where p f rows) = map key rows"
  by (induction rows) auto

lemma update_where_none: "(\<And>r. r \<in> set rows \<Longrightarrow> \<not> p r) \<Longrightarrow> update_where p f rows = rows"
  by (induction rows) auto

lemma set_update_where:
  "r \<in> set (update_where p f rows) \<longleftrightarrow>
     (\<exists>q \<in> set rows. (p q \<and> r = f q) \<or> (\<not> p q \<and> r = q))"
  by (induction rows) auto

text \<open>\<open>GROUP BY key\<close>: one group per key, in the order of first occurrence.\<close>

fun group_by :: "('r \<Rightarrow> 'k) \<Rightarrow> 'r list \<Rightarrow> ('k \<times> 'r list) list" where
  "group_by key [] = []"
| "group_by key (r # rs) =
     (key r, r # filter (\<lambda>q. key q = key r) rs)
       # group_by key (filter (\<lambda>q. key q \<noteq> key r) rs)"

lemma group_by_keys: "set (map fst (group_by key rows)) = key ` set rows"
  by (induction key rows rule: group_by.induct) auto

lemma group_by_distinct: "distinct (map fst (group_by key rows))"
proof (induction key rows rule: group_by.induct)
  case (2 key r rs)
  then show ?case
    using group_by_keys [of key "filter (\<lambda>q. key q \<noteq> key r) rs"] by auto
qed simp

lemma group_by_member:
  "(k, g) \<in> set (group_by key rows) \<Longrightarrow> g = filter (\<lambda>q. key q = k) rows"
proof (induction key rows rule: group_by.induct)
  case (2 key r rs)
  show ?case
  proof (cases "k = key r")
    case True
    moreover have "key r \<notin> set (map fst (group_by key (filter (\<lambda>q. key q \<noteq> key r) rs)))"
      by (subst group_by_keys) auto
    ultimately show ?thesis using 2 by force
  next
    case False
    then have "(k, g) \<in> set (group_by key (filter (\<lambda>q. key q \<noteq> key r) rs))"
      using 2 by auto
    then have "g = filter (\<lambda>q. key q = k) (filter (\<lambda>q. key q \<noteq> key r) rs)"
      using 2 by blast
    also have "\<dots> = filter (\<lambda>q. key q = k) rs"
      using False by (auto intro: filter_cong)
    finally show ?thesis using False by auto
  qed
qed simp

lemma group_by_sum:
  fixes f :: "'r \<Rightarrow> 'a::comm_monoid_add"
  shows "(\<Sum>(k, g)\<leftarrow>group_by key rows. (\<Sum>r\<leftarrow>g. f r)) = (\<Sum>r\<leftarrow>rows. f r)"
proof (induction key rows rule: group_by.induct)
  case (2 key r rs)
  have "(\<Sum>q\<leftarrow>rs. f q) =
      (\<Sum>q\<leftarrow>filter (\<lambda>q. key q = key r) rs. f q) + (\<Sum>q\<leftarrow>filter (\<lambda>q. key q \<noteq> key r) rs. f q)"
    by (induction rs) (auto simp: ac_simps)
  with 2 show ?case by (simp add: ac_simps)
qed simp

lemma sum_list_filter_if:
  fixes f :: "'r \<Rightarrow> 'a::comm_monoid_add"
  shows "(\<Sum>r\<leftarrow>filter p rows. f r) = (\<Sum>r\<leftarrow>rows. if p r then f r else 0)"
  by (induction rows) auto

end
