(* ===== verification/Decimals.thy ===== *)
theory Decimals
  imports Prelude "HOL-Library.Sublist"
begin

section \<open>Decimal arithmetic: Python's \<open>Decimal\<close> and SQL's \<open>NUMERIC(28, 8)\<close>\<close>

text \<open>
  All amounts are Python \<open>decimal.Decimal\<close> values in the services and \<open>NUMERIC(28, 8)\<close> in the
  tables. A value is modelled by the rational number it denotes. Every arithmetic operation of
  Python rounds its exact result to the 28 significant digits of the default context, half to
  even (\<open>dec_round\<close>); comparison, \<open>min\<close> and \<open>max\<close> do not round. Storing a value in a
  \<open>NUMERIC(28, 8)\<close> column rounds it to 8 decimals, half away from zero (\<open>num_round\<close>), and
  fails when 20 integer digits are not enough (\<open>num_fits\<close>). The exponent limits of the
  Python context (999999) are out of reach of values that come from such columns.

  Both roundings satisfy the laws of the locale \<open>rounding\<close>; what the services need of them
  (a deduction stays between zero and what it is deducted from, a pro-rata share is at most the
  whole) is proved there once.
\<close>

subsection \<open>Decimal digits\<close>

fun ndigits :: "nat \<Rightarrow> nat" where
  "ndigits n = (if n < 10 then 1 else Suc (ndigits (n div 10)))"

declare ndigits.simps [simp del]

lemma ndigits_pos: "0 < ndigits n"
  by (subst ndigits.simps) simp

lemma ndigits_bounds: "0 < n \<Longrightarrow> 10 ^ (ndigits n - 1) \<le> n \<and> n < 10 ^ ndigits n"
proof (induction n rule: ndigits.induct)
  case (1 n)
  show ?case
  proof (cases "n < 10")
    case True
    with 1 show ?thesis by (simp add: ndigits.simps [of n])
  next
    case False
    let ?d = "ndigits (n div 10)"
    from False 1 have IH: "10 ^ (?d - 1) \<le> n div 10" "n div 10 < 10 ^ ?d" by auto
    have "10 * 10 ^ (?d - 1) = (10::nat) ^ ?d"
      using ndigits_pos [of "n div 10"] by (metis Suc_diff_1 power_Suc)
    moreover have "10 * (n div 10) \<le> n" "n < 10 * (n div 10) + 10" by simp_all
    ultimately have "10 ^ ?d \<le> n" "n < 10 * 10 ^ ?d" using IH by linarith+
    with False show ?thesis by (simp add: ndigits.simps [of n])
  qed
qed

lemma ndigits_rat:
  assumes "0 < n"
  shows "(10::rat) ^ (ndigits n - 1) \<le> of_nat n \<and> of_nat n + 1 \<le> (10::rat) ^ ndigits n"
proof -
  from ndigits_bounds [OF assms] have "10 ^ (ndigits n - 1) \<le> n" "n + 1 \<le> 10 ^ ndigits n"
    by auto
  from of_nat_mono [where 'a = rat, OF this(1)] of_nat_mono [where 'a = rat, OF this(2)]
  show ?thesis by simp
qed

text \<open>The decimal exponent of the leading digit (\<open>Decimal.adjusted()\<close>), for \<open>x > 0\<close>.\<close>

definition adjusted :: "rat \<Rightarrow> int" where
  "adjusted x = (if 1 \<le> x then int (ndigits (nat \<lfloor>x\<rfloor>)) - 1
                 else - int (ndigits (nat (\<lceil>1 / x\<rceil> - 1))))"

lemma adjusted_bounds:
  assumes "0 < x"
  shows "10 powi adjusted x \<le> x \<and> x < 10 powi (adjusted x + 1)"
proof (cases "1 \<le> x")
  case True
  define n where "n = nat \<lfloor>x\<rfloor>"
  define d where "d = ndigits n"
  have n: "0 < n" "of_nat n \<le> x" "x < of_nat n + 1"
    using True by (auto simp: n_def le_floor_iff) linarith+
  from ndigits_rat [OF n(1)] n have "10 ^ (d - 1) \<le> x" "x < 10 ^ d"
    unfolding d_def by linarith+
  moreover have "adjusted x = int (d - 1)" "adjusted x + 1 = int d"
    using True ndigits_pos [of n] by (auto simp: adjusted_def n_def d_def)
  ultimately show ?thesis by (metis power_int_of_nat)
next
  case False
  define y where "y = 1 / x"
  define m where "m = nat (\<lceil>y\<rceil> - 1)"
  define d where "d = ndigits m"
  have "1 < y" using False assms by (simp add: y_def)
  then have m: "0 < m" "of_nat m < y" "y \<le> of_nat m + 1"
    by (auto simp: m_def less_ceiling_iff) linarith+
  from ndigits_rat [OF m(1)] m have y: "10 ^ (d - 1) < y" "y \<le> 10 ^ d"
    unfolding d_def by linarith+
  have "inverse (10 ^ d) \<le> inverse y" "inverse y < inverse (10 ^ (d - 1))"
    using y \<open>1 < y\<close> by (auto intro: le_imp_inverse_le less_imp_inverse_less)
  moreover have "inverse y = x" by (simp add: y_def)
  moreover have "adjusted x = - int d" "adjusted x + 1 = - int (d - 1)"
    using False ndigits_pos [of m] by (auto simp: adjusted_def y_def m_def d_def)
  ultimately show ?thesis by (metis power_int_minus power_int_of_nat)
qed

subsection \<open>Rounding to an integer, half to even\<close>

definition round_half_even :: "rat \<Rightarrow> int" where
  "round_half_even y =
     (let f = \<lfloor>y\<rfloor>; r = y - of_int f in
      if r < 1 / 2 then f else if 1 / 2 < r then f + 1 else if even f then f else f + 1)"

lemma round_half_even_int [simp]: "round_half_even (of_int n) = n"
  by (simp add: round_half_even_def)

lemma round_half_even_near: "\<bar>of_int (round_half_even y) - y\<bar> \<le> 1 / 2"
  unfolding round_half_even_def Let_def
  using floor_correct [of y] by (auto simp: abs_le_iff)

lemma round_half_even_mono:
  assumes "x \<le> y"
  shows "round_half_even x \<le> round_half_even y"
proof (cases "\<lfloor>x\<rfloor> = \<lfloor>y\<rfloor>")
  case True
  then show ?thesis using assms by (auto simp: round_half_even_def Let_def)
next
  case False
  then have "\<lfloor>x\<rfloor> + 1 \<le> \<lfloor>y\<rfloor>" using floor_mono [OF assms] by linarith
  moreover have "round_half_even x \<le> \<lfloor>x\<rfloor> + 1" "\<lfloor>y\<rfloor> \<le> round_half_even y"
    by (auto simp: round_half_even_def Let_def)
  ultimately show ?thesis by linarith
qed

lemma round_half_even_minus: "round_half_even (- y) = - round_half_even y"
proof (cases "y \<in> \<int>")
  case True
  then obtain n where "y = of_int n" by (auto elim: Ints_cases)
  then show ?thesis by (metis of_int_minus round_half_even_int)
next
  case False
  then have c: "\<lceil>y\<rceil> = \<lfloor>y\<rfloor> + 1" by (simp add: ceiling_altdef Ints_def)
      (metis rangeI)
  have f: "\<lfloor>- y\<rfloor> = - (\<lfloor>y\<rfloor> + 1)" using c by (simp add: floor_minus)
  have "- y - of_int \<lfloor>- y\<rfloor> = 1 - (y - of_int \<lfloor>y\<rfloor>)" by (simp add: f)
  then show ?thesis by (auto simp: round_half_even_def Let_def f)
qed

subsection \<open>The context of Python's \<open>decimal\<close> module: 28 digits, half to even\<close>

definition dec_round :: "rat \<Rightarrow> rat" where
  "dec_round x =
     (if x = 0 then 0
      else let q = 10 powi (adjusted \<bar>x\<bar> - 27) in of_int (round_half_even (x / q)) * q)"

text \<open>A value of at most 28 digits.\<close>

definition dec_representable :: "rat \<Rightarrow> bool" where
  "dec_representable x \<longleftrightarrow> (\<exists>n e. \<bar>n\<bar> < 10 ^ 28 \<and> x = of_int n * 10 powi e)"

lemma dec_round_0 [simp]: "dec_round 0 = 0"
  by (simp add: dec_round_def)

lemma dec_round_minus: "dec_round (- x) = - dec_round x"
  by (simp add: dec_round_def Let_def round_half_even_minus)

lemma ten_powi_add: "(10::rat) powi (a + b) = 10 powi a * 10 powi b"
  by (simp add: power_int_add)

lemma ten_powi_less: "(10::rat) powi a < 10 powi b \<Longrightarrow> a < b"
  using power_int_increasing [of b a "10::rat"] by (cases "a < b") auto

lemma dec_round_exact:
  assumes "\<bar>n\<bar> < 10 ^ 28"
  shows "dec_round (of_int n * 10 powi e) = of_int n * 10 powi e"
proof (cases "n = 0")
  case False
  define x where "x = (of_int n * 10 powi e :: rat)"
  define a where "a = adjusted \<bar>x\<bar>"
  have "x \<noteq> 0" using False by (simp add: x_def)
  have "10 powi a \<le> \<bar>x\<bar>" using adjusted_bounds [of "\<bar>x\<bar>"] \<open>x \<noteq> 0\<close> by (simp add: a_def)
  also have "\<bar>x\<bar> = of_int \<bar>n\<bar> * 10 powi e" by (simp add: x_def abs_mult)
  also have "\<dots> < of_int (10 ^ 28) * 10 powi e"
    using assms by (intro mult_strict_right_mono) (simp_all only: of_int_less_iff, simp)
  also have "\<dots> = 10 powi (28 + e)" by (simp add: ten_powi_add)
  finally have "a < 28 + e" by (rule ten_powi_less)
  define k where "k = nat (e - (a - 27))"
  have k: "e = int k + (a - 27)" using \<open>a < 28 + e\<close> by (simp add: k_def)
  have "x / 10 powi (a - 27) = of_int (n * 10 ^ k)"
    unfolding x_def k ten_powi_add by simp
  then have "dec_round x = of_int (n * 10 ^ k) * 10 powi (a - 27)"
    using \<open>x \<noteq> 0\<close>
    by (simp add: dec_round_def flip: a_def del: of_int_mult of_int_power)
  also have "\<dots> = x" unfolding x_def k ten_powi_add by simp
  finally show ?thesis by (simp add: x_def)
qed simp

lemma dec_round_representable: "dec_representable x \<Longrightarrow> dec_round x = x"
  by (auto simp: dec_representable_def dec_round_exact)

lemma dec_round_bracket:
  assumes "0 < x"
  shows "10 powi adjusted x \<le> dec_round x \<and> dec_round x \<le> 10 powi (adjusted x + 1)"
proof -
  define q where "q = (10::rat) powi (adjusted x - 27)"
  have "0 < q" by (simp add: q_def)
  have lo: "10 powi adjusted x = of_int (10 ^ 27) * q"
    and hi: "10 powi (adjusted x + 1) = of_int (10 ^ 28) * q"
    using ten_powi_add [of 27 "adjusted x - 27"] ten_powi_add [of 28 "adjusted x - 27"]
    by (simp_all add: q_def add.commute)
  have "of_int (10 ^ 27) \<le> x / q" "x / q \<le> of_int (10 ^ 28)"
    using adjusted_bounds [OF assms] \<open>0 < q\<close> unfolding lo hi by (simp_all add: field_simps)
  then have "10 ^ 27 \<le> round_half_even (x / q)" "round_half_even (x / q) \<le> 10 ^ 28"
    using round_half_even_mono [of "of_int (10 ^ 27)" "x / q"]
      round_half_even_mono [of "x / q" "of_int (10 ^ 28)"] by (auto simp del: of_int_power of_int_numeral)
  then have "(of_int (10 ^ 27) :: rat) \<le> of_int (round_half_even (x / q))"
    "of_int (round_half_even (x / q)) \<le> (of_int (10 ^ 28) :: rat)" by (simp_all only: of_int_le_iff)
  moreover have "dec_round x = of_int (round_half_even (x / q)) * q"
    using assms by (simp add: dec_round_def q_def Let_def)
  ultimately show ?thesis unfolding lo hi using \<open>0 < q\<close> by (simp only: mult_right_mono less_imp_le)
qed

lemma dec_round_pos_mono:
  assumes "0 < x" "x \<le> y"
  shows "dec_round x \<le> dec_round y"
proof (cases "adjusted x = adjusted y")
  case True
  have "x / 10 powi (adjusted y - 27) \<le> y / 10 powi (adjusted y - 27)"
    using assms(2) by (intro divide_right_mono) auto
  from round_half_even_mono [OF this] show ?thesis
    using assms True by (simp add: dec_round_def Let_def mult_right_mono)
next
  case False
  have "0 < y" using assms by simp
  have "10 powi adjusted x < (10::rat) powi (adjusted y + 1)"
    using adjusted_bounds [OF assms(1)] adjusted_bounds [OF \<open>0 < y\<close>] assms(2) by linarith
  then have "adjusted x + 1 \<le> adjusted y"
    using False ten_powi_less [of "adjusted x" "adjusted y + 1"] by simp
  then have "(10::rat) powi (adjusted x + 1) \<le> 10 powi adjusted y"
    by (simp add: power_int_increasing)
  with dec_round_bracket [OF assms(1)] dec_round_bracket [OF \<open>0 < y\<close>] show ?thesis by linarith
qed

lemma dec_round_nonneg: "0 \<le> x \<Longrightarrow> 0 \<le> dec_round x"
  using dec_round_bracket [of x]
  by (cases "x = 0") (auto intro: order_trans [of 0 "10 powi adjusted x"])

lemma dec_round_mono:
  assumes "x \<le> y"
  shows "dec_round x \<le> dec_round y"
proof -
  consider "0 < x" | "x \<le> 0" "0 \<le> y" | "y < 0" by linarith
  then show ?thesis
  proof cases
    case 1
    then show ?thesis using assms by (rule dec_round_pos_mono)
  next
    case 2
    then show ?thesis
      using dec_round_nonneg [of y] dec_round_nonneg [of "- x"] by (simp add: dec_round_minus)
  next
    case 3
    then show ?thesis
      using assms dec_round_pos_mono [of "- y" "- x"] by (simp add: dec_round_minus)
  qed
qed

lemma dec_round_pos_is_representable:
  assumes "0 < x"
  shows "dec_representable (dec_round x)"
proof -
  define e where "e = adjusted x - 27"
  define c where "c = round_half_even (x / 10 powi e)"
  have r: "dec_round x = of_int c * 10 powi e"
    using assms by (simp add: dec_round_def c_def e_def Let_def)
  have "of_int c * 10 powi e \<le> (10::rat) ^ 28 * 10 powi e"
    using dec_round_bracket [OF assms] ten_powi_add [of 28 e] unfolding r
    by (simp add: e_def add.commute)
  then have "of_int c \<le> (of_int (10 ^ 28) :: rat)" by simp
  then have "c \<le> 10 ^ 28" by (simp only: of_int_le_iff)
  moreover have "0 * 10 powi e \<le> of_int c * (10::rat) powi e"
    using dec_round_nonneg [of x] assms r by simp
  then have "0 \<le> c" by (subst (asm) mult_le_cancel_right_pos) simp_all
  ultimately consider "\<bar>c\<bar> < 10 ^ 28" | "c = 10 ^ 28" by linarith
  then show ?thesis
  proof cases
    case 1
    then show ?thesis unfolding dec_representable_def using r by blast
  next
    case 2
    then have "dec_round x = of_int 1 * 10 powi (28 + e)" using r by (simp add: ten_powi_add)
    moreover have "\<bar>1::int\<bar> < 10 ^ 28" by simp
    ultimately show ?thesis unfolding dec_representable_def by blast
  qed
qed

lemma dec_round_idem: "dec_round (dec_round x) = dec_round x"
proof -
  consider "0 < x" | "x = 0" | "0 < - x" by linarith
  then show ?thesis
  proof cases
    case 3
    then have "dec_round (dec_round (- x)) = dec_round (- x)"
      by (intro dec_round_representable dec_round_pos_is_representable)
    then show ?thesis by (simp add: dec_round_minus)
  qed (auto intro: dec_round_representable dec_round_pos_is_representable)
qed

subsection \<open>\<open>NUMERIC(28, 8)\<close> columns\<close>

definition num_round :: "rat \<Rightarrow> rat" where
  "num_round x = (if 0 \<le> x then of_int \<lfloor>x * 10 ^ 8 + 1 / 2\<rfloor> / 10 ^ 8
                  else - (of_int \<lfloor>- x * 10 ^ 8 + 1 / 2\<rfloor> / 10 ^ 8))"

lemma floor_int_half: "\<lfloor>of_int m + 1 / 2 :: rat\<rfloor> = m"
  by (rule floor_unique) auto

definition num_fits :: "rat \<Rightarrow> bool" where
  "num_fits x \<longleftrightarrow> \<bar>x\<bar> < 10 ^ 20"

text \<open>A value that such a column can hold as it is.\<close>

definition num_valued :: "rat \<Rightarrow> bool" where
  "num_valued x \<longleftrightarrow> num_round x = x \<and> num_fits x"

lemma num_round_0 [simp]: "num_round 0 = 0"
  using floor_int_half [of 0] by (simp add: num_round_def)

lemma num_round_nonneg: "0 \<le> x \<Longrightarrow> 0 \<le> num_round x"
  by (simp add: num_round_def)

lemma num_round_minus: "num_round (- x) = - num_round x"
proof (cases x "0::rat" rule: linorder_cases)
  case equal
  then show ?thesis by simp
qed (auto simp: num_round_def)

lemma num_round_mono:
  assumes "x \<le> y"
  shows "num_round x \<le> num_round y"
proof -
  have *: "num_round a \<le> num_round b" if "0 \<le> a" "a \<le> b" for a b
    using that by (auto simp: num_round_def intro!: divide_right_mono floor_mono)
  consider "0 \<le> x" | "x \<le> 0" "0 \<le> y" | "y < 0" by linarith
  then show ?thesis
  proof cases
    case 1
    then show ?thesis using assms by (rule *)
  next
    case 2
    then show ?thesis
      using num_round_nonneg [of y] num_round_nonneg [of "- x"] by (simp add: num_round_minus)
  next
    case 3
    then show ?thesis using assms * [of "- y" "- x"] by (simp add: num_round_minus)
  qed
qed

lemma num_round_int: "num_round (of_int n / 10 ^ 8) = of_int n / 10 ^ 8"
  using floor_int_half [of n] floor_int_half [of "- n"] by (auto simp: num_round_def)

lemma num_round_of_int: "num_round (of_int n) = of_int n"
proof -
  have "of_int (n * 10 ^ 8) / 10 ^ 8 = (of_int n :: rat)" by simp
  then show ?thesis using num_round_int [of "n * 10 ^ 8"] by simp
qed

lemma num_round_is_int: "\<exists>n. num_round x = of_int n / 10 ^ 8"
  unfolding num_round_def by (metis (no_types, opaque_lifting) minus_divide_left of_int_minus)

lemma num_round_idem: "num_round (num_round x) = num_round x"
  using num_round_is_int [of x] num_round_int by metis

lemma num_valued_iff: "num_round x = x \<longleftrightarrow> (\<exists>n. x = of_int n / 10 ^ 8)"
  using num_round_is_int [of x] num_round_int by metis

lemma num_valued_add: "num_round x = x \<Longrightarrow> num_round y = y \<Longrightarrow> num_round (x + y) = x + y"
  unfolding num_valued_iff by (metis add_divide_distrib of_int_add)

lemma num_valued_sum: "(\<And>x. x \<in> set xs \<Longrightarrow> num_round (f x) = f x) \<Longrightarrow>
    num_round (\<Sum>x\<leftarrow>xs. f x) = (\<Sum>x\<leftarrow>xs. f x)"
  by (induction xs) (auto intro: num_valued_add)

text \<open>Whatever a column holds, a Python \<open>Decimal\<close> holds exactly.\<close>

lemma num_valued_dec:
  assumes "num_valued x"
  shows "dec_round x = x"
proof -
  from assms obtain n where n: "x = of_int n / 10 ^ 8" and "\<bar>x\<bar> < 10 ^ 20"
    by (auto simp: num_valued_def num_valued_iff num_fits_def)
  then have "of_int \<bar>n\<bar> < (of_int (10 ^ 28) :: rat)" by (simp add: abs_divide field_simps)
  then have "\<bar>n\<bar> < 10 ^ 28" by (simp only: of_int_less_iff)
  moreover have "x = of_int n * 10 powi (- 8)" by (simp add: n power_int_minus field_simps)
  ultimately show ?thesis using dec_round_exact [of n "- 8"] by (simp only:)
qed

subsection \<open>The contract of a rounding\<close>

locale rounding =
  fixes rd :: "rat \<Rightarrow> rat"
  assumes rd_mono: "x \<le> y \<Longrightarrow> rd x \<le> rd y"
    and rd_idem: "rd (rd x) = rd x"
    and rd_zero: "rd 0 = 0"
    and rd_one: "rd 1 = 1"
begin

lemma rd_nonneg: "0 \<le> x \<Longrightarrow> 0 \<le> rd x"
  using rd_mono [of 0 x] by (simp add: rd_zero)

lemma rd_nonpos: "x \<le> 0 \<Longrightarrow> rd x \<le> 0"
  using rd_mono [of x 0] by (simp add: rd_zero)

lemma rd_below: "x \<le> y \<Longrightarrow> rd y = y \<Longrightarrow> rd x \<le> y"
  using rd_mono [of x y] by simp

lemma rd_above: "y \<le> x \<Longrightarrow> rd y = y \<Longrightarrow> y \<le> rd x"
  using rd_mono [of y x] by simp

text \<open>Taking an amount \<open>a\<close> off a rounded total \<open>r\<close>.\<close>

lemma deduct_bounds:
  "rd r = r \<Longrightarrow> 0 \<le> a \<Longrightarrow> a \<le> r \<Longrightarrow> 0 \<le> rd (r - a) \<and> rd (r - a) \<le> r"
  by (auto intro: rd_nonneg rd_below)

lemma deduct_grows: "rd r = r \<Longrightarrow> a \<le> 0 \<Longrightarrow> r \<le> rd (r - a)"
  by (auto intro: rd_above)

lemma deduct_min_bounds:
  assumes "rd r = r" "0 \<le> r" "0 \<le> avail"
  shows "0 \<le> rd (r - min avail r) \<and> rd (r - min avail r) \<le> r"
  using assms by (intro deduct_bounds) auto

lemma deduct_min_covered: "r \<le> avail \<Longrightarrow> rd (r - min avail r) = 0"
  by (simp add: min_def rd_zero)

text \<open>A pro-rata share \<open>(b / t) * r\<close>, rounded after the division and the product.\<close>

lemma share_bounds:
  assumes "rd r = r" "0 \<le> r" "0 \<le> b" "b \<le> t" "0 < t"
  shows "0 \<le> rd (rd (b / t) * r) \<and> rd (rd (b / t) * r) \<le> r"
proof -
  have "rd (b / t) \<le> 1" "0 \<le> rd (b / t)"
    using assms by (auto intro!: rd_below rd_nonneg simp: rd_one)
  then have "rd (b / t) * r \<le> r" "0 \<le> rd (b / t) * r"
    using assms mult_right_mono [of "rd (b / t)" 1 r] by auto
  then show ?thesis using assms by (auto intro: rd_below rd_nonneg)
qed

text \<open>The sole contributor carries the whole.\<close>

lemma share_sole: "rd r = r \<Longrightarrow> 0 < t \<Longrightarrow> rd (rd (t / t) * r) = r"
  by (simp add: rd_one)

end

interpretation dec: rounding dec_round
proof
  have "dec_representable 1"
    unfolding dec_representable_def by (rule exI [of _ 1], rule exI [of _ 0]) simp
  then show "dec_round 1 = 1" by (rule dec_round_representable)
qed (auto intro: dec_round_mono dec_round_idem)

interpretation num: rounding num_round
proof
  show "num_round 1 = 1" using num_round_int [of "10 ^ 8"] by simp
qed (auto intro: num_round_mono num_round_idem)

subsection \<open>The operations the services use\<close>

text \<open>
  \<open>Decimal.__add__\<close>, \<open>__sub__\<close>, \<open>__mul__\<close>, \<open>__abs__\<close> and the built-in \<open>sum\<close>. Division raises
  on a zero divisor; every division of the services is guarded by a test of the divisor, so
  \<open>ddiv\<close> is only used below such a test.
\<close>

definition dadd :: "rat \<Rightarrow> rat \<Rightarrow> rat" where
  "dadd x y = dec_round (x + y)"

definition dsub :: "rat \<Rightarrow> rat \<Rightarrow> rat" where
  "dsub x y = dec_round (x - y)"

definition dmul :: "rat \<Rightarrow> rat \<Rightarrow> rat" where
  "dmul x y = dec_round (x * y)"

definition ddiv :: "rat \<Rightarrow> rat \<Rightarrow> rat" where
  "ddiv x y = dec_round (x / y)"

definition dabs :: "rat \<Rightarrow> rat" where
  "dabs x = dec_round \<bar>x\<bar>"

definition dsum :: "rat list \<Rightarrow> rat" where
  "dsum xs = foldl dadd 0 xs"

lemmas dec_ops = dadd_def dsub_def dmul_def ddiv_def dabs_def

lemma dec_abs_round: "dec_round \<bar>x\<bar> = \<bar>dec_round x\<bar>"
  using dec_round_minus [of x] dec.rd_nonneg [of x] dec.rd_nonpos [of x] by (cases "0 \<le> x") auto

lemma dabs_nonneg: "0 \<le> dabs x"
  by (simp add: dabs_def dec.rd_nonneg)

lemma dabs_exact: "dec_round x = x \<Longrightarrow> dabs x = \<bar>x\<bar>"
  by (simp add: dabs_def dec_abs_round)

lemma dadd_nonneg: "0 \<le> x \<Longrightarrow> 0 \<le> y \<Longrightarrow> 0 \<le> dadd x y"
  by (simp add: dadd_def dec.rd_nonneg)

lemma dmul_nonneg: "0 \<le> x \<Longrightarrow> 0 \<le> y \<Longrightarrow> 0 \<le> dmul x y"
  by (simp add: dmul_def dec.rd_nonneg)

lemma dec_round_pos: "0 < x \<Longrightarrow> 0 < dec_round x"
  using dec_round_bracket [of x] by (auto intro: less_le_trans [of 0 "10 powi adjusted x"])

lemma dec_round_eq_0 [simp]: "dec_round x = 0 \<longleftrightarrow> x = 0"
  using dec_round_pos [of x] dec_round_pos [of "- x"]
  by (cases x "0::rat" rule: linorder_cases) (auto simp: dec_round_minus)

lemma dec_round_pos_iff [simp]: "0 < dec_round x \<longleftrightarrow> 0 < x"
  using dec_round_pos [of x] dec.rd_nonpos [of x] by linarith

lemma foldl_dadd_exact:
  assumes "\<And>ys. prefix ys xs \<Longrightarrow> dec_round (a + sum_list ys) = a + sum_list ys"
  shows "foldl dadd a xs = a + sum_list xs"
  using assms
proof (induction xs arbitrary: a)
  case (Cons x xs)
  have "dadd a x = a + x" using Cons.prems [of "[x]"] by (simp add: dadd_def)
  moreover have "foldl dadd (a + x) xs = (a + x) + sum_list xs"
  proof (rule Cons.IH)
    fix ys assume "prefix ys xs"
    then show "dec_round (a + x + sum_list ys) = a + x + sum_list ys"
      using Cons.prems [of "x # ys"] by (simp add: add.assoc)
  qed
  ultimately show ?case by (simp add: add.assoc)
qed simp

lemma foldl_dadd_nonneg: "0 \<le> a \<Longrightarrow> (\<And>x. x \<in> set xs \<Longrightarrow> 0 \<le> x) \<Longrightarrow> 0 \<le> foldl dadd a xs"
  by (induction xs arbitrary: a) (auto intro!: dadd_nonneg)

lemma dsum_nonneg: "(\<And>x. x \<in> set xs \<Longrightarrow> 0 \<le> x) \<Longrightarrow> 0 \<le> dsum xs"
  by (simp add: dsum_def foldl_dadd_nonneg)

text \<open>
  Sums of column values are exact as long as they stay below the column's own bound, which is
  also what keeps them inside 28 digits.
\<close>

lemma num_valued_sum_dec:
  assumes "\<And>x. x \<in> set xs \<Longrightarrow> num_round (f x) = f x" "\<bar>\<Sum>x\<leftarrow>xs. f x\<bar> < 10 ^ 20"
  shows "dec_round (\<Sum>x\<leftarrow>xs. f x) = (\<Sum>x\<leftarrow>xs. f x)"
  using assms by (intro num_valued_dec) (auto simp: num_valued_def num_fits_def intro: num_valued_sum)

text \<open>Evaluation of closed instances by the simplifier.\<close>

lemma floor_rat_numeral:
  "\<lfloor>numeral a / numeral b :: rat\<rfloor> = numeral a div numeral b"
  "\<lfloor>1 / numeral b :: rat\<rfloor> = 1 div numeral b"
  "\<lfloor>- (numeral a / numeral b) :: rat\<rfloor> = - numeral a div numeral b"
  "\<lfloor>- (1 / numeral b) :: rat\<rfloor> = - 1 div numeral b"
  using floor_divide_of_int_eq [of "numeral a" "numeral b", where 'a = rat]
    floor_divide_of_int_eq [of 1 "numeral b", where 'a = rat]
    floor_divide_of_int_eq [of "- numeral a" "numeral b", where 'a = rat]
    floor_divide_of_int_eq [of "- 1" "numeral b", where 'a = rat]
  by simp_all

lemma ceiling_rat_numeral:
  "\<lceil>numeral a / numeral b :: rat\<rceil> = - (- numeral a div numeral b)"
  "\<lceil>1 / numeral b :: rat\<rceil> = - (- 1 div numeral b)"
  by (simp_all only: ceiling_def floor_rat_numeral)

lemmas dec_eval = dec_round_def adjusted_def ndigits.simps round_half_even_def Let_def
  power_int_def power_divide floor_rat_numeral ceiling_rat_numeral

lemmas num_eval = num_round_def floor_rat_numeral

text \<open>Whole numbers below \<open>10 ^ 20\<close>, the usual amounts of the examples, are kept as they are.\<close>

lemma num_valued_numeral: "numeral k < (10 :: rat) ^ 20 \<Longrightarrow> num_valued (numeral k)"
  using num_round_of_int [of "numeral k"]
  by (simp only: num_valued_def num_fits_def abs_numeral of_int_numeral)

lemma dec_round_numeral: "numeral k < (10 :: rat) ^ 20 \<Longrightarrow> dec_round (numeral k) = numeral k"
  by (rule num_valued_dec, rule num_valued_numeral)

lemma num_round_numeral: "numeral k < (10 :: rat) ^ 20 \<Longrightarrow> num_round (numeral k) = numeral k"
  using num_valued_numeral [of k] by (simp add: num_valued_def)

lemma dec_round_1 [simp]: "dec_round 1 = 1" and num_round_1 [simp]: "num_round 1 = 1"
  by (rule dec.rd_one, rule num.rd_one)

lemmas whole_eval = dec_round_numeral num_round_numeral dec_round_minus num_round_minus

end
