(* ===== verification/Enums.thy ===== *)
theory Enums
  imports Prelude
begin

section \<open>The vocabulary of the domain: \<open>ccp_shared/enums.py\<close>\<close>

text \<open>
  Each \<open>class X(str, Enum)\<close> of \<open>enums.py\<close> is a datatype with the function \<open>X_value\<close> that gives
  the string of the member (\<open>.value\<close>), and the list \<open>X_members\<close> of its members in the order
  of the source. \<open>X(s)\<close>, the constructor that looks a member up by its value and raises
  \<open>ValueError\<close>, is \<open>enum_of X_value X_members s\<close>.
\<close>

definition enum_of :: "('m \<Rightarrow> string) \<Rightarrow> 'm list \<Rightarrow> string \<Rightarrow> 'm option" where
  "enum_of val ms s = fetchone (\<lambda>m. val m = s) ms"

lemma enum_of_value:
  "distinct (map val ms) \<Longrightarrow> m \<in> set ms \<Longrightarrow> enum_of val ms (val m) = Some m"
  by (simp add: enum_of_def fetchone_unique)

lemma enum_of_Some: "enum_of val ms s = Some m \<Longrightarrow> m \<in> set ms \<and> val m = s"
  by (auto simp: enum_of_def dest: fetchone_Some)

datatype MemberStatus = MEMBER_PENDING | MEMBER_ACTIVE | MEMBER_SUSPENDED | MEMBER_DEFAULTED

fun MemberStatus_value :: "MemberStatus \<Rightarrow> string" where
  "MemberStatus_value MEMBER_PENDING = ''pending''"
| "MemberStatus_value MEMBER_ACTIVE = ''active''"
| "MemberStatus_value MEMBER_SUSPENDED = ''suspended''"
| "MemberStatus_value MEMBER_DEFAULTED = ''defaulted''"

definition MemberStatus_members :: "MemberStatus list" where
  "MemberStatus_members = [MEMBER_PENDING, MEMBER_ACTIVE, MEMBER_SUSPENDED, MEMBER_DEFAULTED]"

datatype AccountType = MARGIN_IM | MARGIN_VM | DEFAULT_FUND | COLLATERAL | SETTLEMENT | CCP_EQUITY

fun AccountType_value :: "AccountType \<Rightarrow> string" where
  "AccountType_value MARGIN_IM = ''MARGIN_IM''"
| "AccountType_value MARGIN_VM = ''MARGIN_VM''"
| "AccountType_value DEFAULT_FUND = ''DEFAULT_FUND''"
| "AccountType_value COLLATERAL = ''COLLATERAL''"
| "AccountType_value SETTLEMENT = ''SETTLEMENT''"
| "AccountType_value CCP_EQUITY = ''CCP_EQUITY''"

definition AccountType_members :: "AccountType list" where
  "AccountType_members = [MARGIN_IM, MARGIN_VM, DEFAULT_FUND, COLLATERAL, SETTLEMENT, CCP_EQUITY]"

datatype PoolType = AVAILABLE | LOCKED

fun PoolType_value :: "PoolType \<Rightarrow> string" where
  "PoolType_value AVAILABLE = ''AVAILABLE''"
| "PoolType_value LOCKED = ''LOCKED''"

definition PoolType_members :: "PoolType list" where
  "PoolType_members = [AVAILABLE, LOCKED]"

datatype InstrumentAssetClass = CRYPTO_FUTURE | CRYPTO_OPTION | CRYPTO_PERPETUAL
  | TOKENIZED_EQUITY | TOKENIZED_BOND | TOKENIZED_RWA

fun InstrumentAssetClass_value :: "InstrumentAssetClass \<Rightarrow> string" where
  "InstrumentAssetClass_value CRYPTO_FUTURE = ''crypto_future''"
| "InstrumentAssetClass_value CRYPTO_OPTION = ''crypto_option''"
| "InstrumentAssetClass_value CRYPTO_PERPETUAL = ''crypto_perpetual''"
| "InstrumentAssetClass_value TOKENIZED_EQUITY = ''tokenized_equity''"
| "InstrumentAssetClass_value TOKENIZED_BOND = ''tokenized_bond''"
| "InstrumentAssetClass_value TOKENIZED_RWA = ''tokenized_rwa''"

definition InstrumentAssetClass_members :: "InstrumentAssetClass list" where
  "InstrumentAssetClass_members = [CRYPTO_FUTURE, CRYPTO_OPTION, CRYPTO_PERPETUAL,
     TOKENIZED_EQUITY, TOKENIZED_BOND, TOKENIZED_RWA]"

datatype SettlementType = CASH | PHYSICAL | DVP

fun SettlementType_value :: "SettlementType \<Rightarrow> string" where
  "SettlementType_value CASH = ''cash''"
| "SettlementType_value PHYSICAL = ''physical''"
| "SettlementType_value DVP = ''dvp''"

definition SettlementType_members :: "SettlementType list" where
  "SettlementType_members = [CASH, PHYSICAL, DVP]"

datatype TradeStatus = TRADE_SUBMITTED | TRADE_VALIDATED | TRADE_NOVATED | TRADE_SETTLED
  | TRADE_FAILED | TRADE_CANCELLED

fun TradeStatus_value :: "TradeStatus \<Rightarrow> string" where
  "TradeStatus_value TRADE_SUBMITTED = ''submitted''"
| "TradeStatus_value TRADE_VALIDATED = ''validated''"
| "TradeStatus_value TRADE_NOVATED = ''novated''"
| "TradeStatus_value TRADE_SETTLED = ''settled''"
| "TradeStatus_value TRADE_FAILED = ''failed''"
| "TradeStatus_value TRADE_CANCELLED = ''cancelled''"

definition TradeStatus_members :: "TradeStatus list" where
  "TradeStatus_members = [TRADE_SUBMITTED, TRADE_VALIDATED, TRADE_NOVATED, TRADE_SETTLED,
     TRADE_FAILED, TRADE_CANCELLED]"

datatype NovatedTradeStatus = NOVATED_OPEN | NOVATED_NETTED | NOVATED_SETTLED | NOVATED_DEFAULTED

fun NovatedTradeStatus_value :: "NovatedTradeStatus \<Rightarrow> string" where
  "NovatedTradeStatus_value NOVATED_OPEN = ''open''"
| "NovatedTradeStatus_value NOVATED_NETTED = ''netted''"
| "NovatedTradeStatus_value NOVATED_SETTLED = ''settled''"
| "NovatedTradeStatus_value NOVATED_DEFAULTED = ''defaulted''"

definition NovatedTradeStatus_members :: "NovatedTradeStatus list" where
  "NovatedTradeStatus_members = [NOVATED_OPEN, NOVATED_NETTED, NOVATED_SETTLED, NOVATED_DEFAULTED]"

datatype NovatedTradeSide = BUY | SELL

fun NovatedTradeSide_value :: "NovatedTradeSide \<Rightarrow> string" where
  "NovatedTradeSide_value BUY = ''BUY''"
| "NovatedTradeSide_value SELL = ''SELL''"

definition NovatedTradeSide_members :: "NovatedTradeSide list" where
  "NovatedTradeSide_members = [BUY, SELL]"

datatype JournalType = JT_TRADE_INITIATION | JT_MARGIN_LOCK | JT_MARGIN_RELEASE
  | JT_VARIATION_MARGIN | JT_SETTLEMENT | JT_COLLATERAL_DEPOSIT | JT_COLLATERAL_WITHDRAWAL
  | JT_DEFAULT_FUND_CONTRIBUTION | JT_DEFAULT_WATERFALL_STEP | JT_NETTING_OBLIGATION

fun JournalType_value :: "JournalType \<Rightarrow> string" where
  "JournalType_value JT_TRADE_INITIATION = ''TRADE_INITIATION''"
| "JournalType_value JT_MARGIN_LOCK = ''MARGIN_LOCK''"
| "JournalType_value JT_MARGIN_RELEASE = ''MARGIN_RELEASE''"
| "JournalType_value JT_VARIATION_MARGIN = ''VARIATION_MARGIN''"
| "JournalType_value JT_SETTLEMENT = ''SETTLEMENT''"
| "JournalType_value JT_COLLATERAL_DEPOSIT = ''COLLATERAL_DEPOSIT''"
| "JournalType_value JT_COLLATERAL_WITHDRAWAL = ''COLLATERAL_WITHDRAWAL''"
| "JournalType_value JT_DEFAULT_FUND_CONTRIBUTION = ''DEFAULT_FUND_CONTRIBUTION''"
| "JournalType_value JT_DEFAULT_WATERFALL_STEP = ''DEFAULT_WATERFALL_STEP''"
| "JournalType_value JT_NETTING_OBLIGATION = ''NETTING_OBLIGATION''"

definition JournalType_members :: "JournalType list" where
  "JournalType_members = [JT_TRADE_INITIATION, JT_MARGIN_LOCK, JT_MARGIN_RELEASE,
     JT_VARIATION_MARGIN, JT_SETTLEMENT, JT_COLLATERAL_DEPOSIT, JT_COLLATERAL_WITHDRAWAL,
     JT_DEFAULT_FUND_CONTRIBUTION, JT_DEFAULT_WATERFALL_STEP, JT_NETTING_OBLIGATION]"

datatype JournalStatus = JOURNAL_PENDING | JOURNAL_CONFIRMED | JOURNAL_REJECTED

fun JournalStatus_value :: "JournalStatus \<Rightarrow> string" where
  "JournalStatus_value JOURNAL_PENDING = ''pending''"
| "JournalStatus_value JOURNAL_CONFIRMED = ''confirmed''"
| "JournalStatus_value JOURNAL_REJECTED = ''rejected''"

definition JournalStatus_members :: "JournalStatus list" where
  "JournalStatus_members = [JOURNAL_PENDING, JOURNAL_CONFIRMED, JOURNAL_REJECTED]"

datatype MarginType = INITIAL | VARIATION

fun MarginType_value :: "MarginType \<Rightarrow> string" where
  "MarginType_value INITIAL = ''INITIAL''"
| "MarginType_value VARIATION = ''VARIATION''"

definition MarginType_members :: "MarginType list" where
  "MarginType_members = [INITIAL, VARIATION]"

datatype MarginCallStatus = CALL_ISSUED | CALL_MET | CALL_PARTIAL | CALL_BREACHED

fun MarginCallStatus_value :: "MarginCallStatus \<Rightarrow> string" where
  "MarginCallStatus_value CALL_ISSUED = ''issued''"
| "MarginCallStatus_value CALL_MET = ''met''"
| "MarginCallStatus_value CALL_PARTIAL = ''partial''"
| "MarginCallStatus_value CALL_BREACHED = ''breached''"

definition MarginCallStatus_members :: "MarginCallStatus list" where
  "MarginCallStatus_members = [CALL_ISSUED, CALL_MET, CALL_PARTIAL, CALL_BREACHED]"

datatype SettlementInstructionStatus = SI_PENDING | SI_APPROVED | SI_SIGNED | SI_BROADCASTED
  | SI_CONFIRMED | SI_FAILED | SI_CANCELLED

fun SettlementInstructionStatus_value :: "SettlementInstructionStatus \<Rightarrow> string" where
  "SettlementInstructionStatus_value SI_PENDING = ''pending''"
| "SettlementInstructionStatus_value SI_APPROVED = ''approved''"
| "SettlementInstructionStatus_value SI_SIGNED = ''signed''"
| "SettlementInstructionStatus_value SI_BROADCASTED = ''broadcasted''"
| "SettlementInstructionStatus_value SI_CONFIRMED = ''confirmed''"
| "SettlementInstructionStatus_value SI_FAILED = ''failed''"
| "SettlementInstructionStatus_value SI_CANCELLED = ''cancelled''"

definition SettlementInstructionStatus_members :: "SettlementInstructionStatus list" where
  "SettlementInstructionStatus_members = [SI_PENDING, SI_APPROVED, SI_SIGNED, SI_BROADCASTED,
     SI_CONFIRMED, SI_FAILED, SI_CANCELLED]"

datatype NettingCycleStatus = NC_INITIATED | NC_CALCULATING | NC_CALCULATED | NC_CONFIRMED
  | NC_SETTLED | NC_FAILED

fun NettingCycleStatus_value :: "NettingCycleStatus \<Rightarrow> string" where
  "NettingCycleStatus_value NC_INITIATED = ''initiated''"
| "NettingCycleStatus_value NC_CALCULATING = ''calculating''"
| "NettingCycleStatus_value NC_CALCULATED = ''calculated''"
| "NettingCycleStatus_value NC_CONFIRMED = ''confirmed''"
| "NettingCycleStatus_value NC_SETTLED = ''settled''"
| "NettingCycleStatus_value NC_FAILED = ''failed''"

definition NettingCycleStatus_members :: "NettingCycleStatus list" where
  "NettingCycleStatus_members = [NC_INITIATED, NC_CALCULATING, NC_CALCULATED, NC_CONFIRMED,
     NC_SETTLED, NC_FAILED]"

datatype NettingCycleType = SCHEDULED | MANUAL | INTRADAY

fun NettingCycleType_value :: "NettingCycleType \<Rightarrow> string" where
  "NettingCycleType_value SCHEDULED = ''scheduled''"
| "NettingCycleType_value MANUAL = ''manual''"
| "NettingCycleType_value INTRADAY = ''intraday''"

definition NettingCycleType_members :: "NettingCycleType list" where
  "NettingCycleType_members = [SCHEDULED, MANUAL, INTRADAY]"

datatype DefaultEventStatus = DE_DETECTED | DE_MARGIN_LIQUIDATED | DE_DEFAULT_FUND_APPLIED
  | DE_CCP_EQUITY_APPLIED | DE_MUTUALIZED | DE_RESOLVED | DE_PARTIALLY_RESOLVED

fun DefaultEventStatus_value :: "DefaultEventStatus \<Rightarrow> string" where
  "DefaultEventStatus_value DE_DETECTED = ''detected''"
| "DefaultEventStatus_value DE_MARGIN_LIQUIDATED = ''margin_liquidated''"
| "DefaultEventStatus_value DE_DEFAULT_FUND_APPLIED = ''default_fund_applied''"
| "DefaultEventStatus_value DE_CCP_EQUITY_APPLIED = ''ccp_equity_applied''"
| "DefaultEventStatus_value DE_MUTUALIZED = ''mutualized''"
| "DefaultEventStatus_value DE_RESOLVED = ''resolved''"
| "DefaultEventStatus_value DE_PARTIALLY_RESOLVED = ''partially_resolved''"

definition DefaultEventStatus_members :: "DefaultEventStatus list" where
  "DefaultEventStatus_members = [DE_DETECTED, DE_MARGIN_LIQUIDATED, DE_DEFAULT_FUND_APPLIED,
     DE_CCP_EQUITY_APPLIED, DE_MUTUALIZED, DE_RESOLVED, DE_PARTIALLY_RESOLVED]"

datatype WaterfallStepType = WS_DEFAULTER_MARGIN | WS_DEFAULTER_DEFAULT_FUND | WS_CCP_EQUITY
  | WS_SURVIVING_MEMBERS_DEFAULT_FUND | WS_LOSS_ALLOCATION

fun WaterfallStepType_value :: "WaterfallStepType \<Rightarrow> string" where
  "WaterfallStepType_value WS_DEFAULTER_MARGIN = ''defaulter_margin''"
| "WaterfallStepType_value WS_DEFAULTER_DEFAULT_FUND = ''defaulter_default_fund''"
| "WaterfallStepType_value WS_CCP_EQUITY = ''ccp_equity''"
| "WaterfallStepType_value WS_SURVIVING_MEMBERS_DEFAULT_FUND = ''surviving_members_default_fund''"
| "WaterfallStepType_value WS_LOSS_ALLOCATION = ''loss_allocation''"

definition WaterfallStepType_members :: "WaterfallStepType list" where
  "WaterfallStepType_members = [WS_DEFAULTER_MARGIN, WS_DEFAULTER_DEFAULT_FUND, WS_CCP_EQUITY,
     WS_SURVIVING_MEMBERS_DEFAULT_FUND, WS_LOSS_ALLOCATION]"

datatype StateEntityType = SE_TRADE | SE_NOVATED_TRADE | SE_NETTING_CYCLE
  | SE_SETTLEMENT_INSTRUCTION | SE_MARGIN_CALL | SE_DEFAULT_EVENT | SE_MEMBER

fun StateEntityType_value :: "StateEntityType \<Rightarrow> string" where
  "StateEntityType_value SE_TRADE = ''trade''"
| "StateEntityType_value SE_NOVATED_TRADE = ''novated_trade''"
| "StateEntityType_value SE_NETTING_CYCLE = ''netting_cycle''"
| "StateEntityType_value SE_SETTLEMENT_INSTRUCTION = ''settlement_instruction''"
| "StateEntityType_value SE_MARGIN_CALL = ''margin_call''"
| "StateEntityType_value SE_DEFAULT_EVENT = ''default_event''"
| "StateEntityType_value SE_MEMBER = ''member''"

definition StateEntityType_members :: "StateEntityType list" where
  "StateEntityType_members = [SE_TRADE, SE_NOVATED_TRADE, SE_NETTING_CYCLE,
     SE_SETTLEMENT_INSTRUCTION, SE_MARGIN_CALL, SE_DEFAULT_EVENT, SE_MEMBER]"

end
