(* ===== verification/Domain.thy ===== *)
theory Domain
  imports Decimals Enums
begin

section \<open>Rows, schema, database state and exceptions\<close>

text \<open>
  The tables created by \<open>migrations/versions/002\<close> to \<open>019\<close>, one record per table with the
  columns the services read or write (bookkeeping timestamps that no statement reads are left
  out). A UUID is a natural number; \<open>uuid.uuid4()\<close> and \<open>gen_random_uuid()\<close> take the next
  unused one from the state. Status columns are strings, as in the code, and the \<open>CHECK\<close>
  vocabularies of the migrations are a part of the state (\<open>schema\<close>), so that the model refuses
  exactly the values the database refuses.
\<close>

type_synonym uuid = nat

subsection \<open>Values of JSON payloads and of f-strings\<close>

datatype pval =
    PNone
  | PStr string
  | PId uuid
  | PDec rat
  | PNat nat
  | PTime int
  | PMsg "pval list"
  | PList "pval list"
  | PObj "(string \<times> pval) list"

type_synonym payload = "(string \<times> pval) list"

text \<open>\<open>payload.get(key)\<close> and \<open>payload[key] = v\<close> of a dict.\<close>

definition pget :: "payload \<Rightarrow> string \<Rightarrow> pval option" where
  "pget p k = map_of p k"

fun pset :: "string \<Rightarrow> pval \<Rightarrow> payload \<Rightarrow> payload" where
  "pset k v [] = [(k, v)]"
| "pset k v ((k', v') # p) = (if k = k' then (k, v) # p else (k', v') # pset k v p)"

lemma pget_pset [simp]: "pget (pset k v p) k' = (if k = k' then Some v else pget p k')"
  by (induction p) (auto simp: pget_def)

text \<open>
  The keys the consumers look up, as the model's payloads carry them: an id arrives as \<open>PId\<close>
  (or the empty string), an amount as \<open>PDec\<close>.
\<close>

definition pget_id :: "payload \<Rightarrow> string \<Rightarrow> uuid option" where
  "pget_id p k = (case pget p k of Some (PId u) \<Rightarrow> Some u | _ \<Rightarrow> None)"

definition pget_dec :: "payload \<Rightarrow> string \<Rightarrow> rat option" where
  "pget_dec p k = (case pget p k of Some (PDec x) \<Rightarrow> Some x | _ \<Rightarrow> None)"

definition pget_str :: "payload \<Rightarrow> string \<Rightarrow> string option" where
  "pget_str p k = (case pget p k of Some (PStr s) \<Rightarrow> Some s | _ \<Rightarrow> None)"

subsection \<open>Exceptions\<close>

text \<open>
  \<open>ccp_shared/errors.py\<close> (and the \<open>ValidationError\<close> of \<open>novation.py\<close>), the Python
  built-ins the code raises, and psycopg's errors for the constraints of the schema.
\<close>

datatype exn =
    ValidationError "pval list"
  | InsufficientMarginError "pval list" uuid rat rat
  | NovationError "pval list" uuid
  | NettingError "pval list" uuid
  | SettlementError "pval list" uuid
  | DefaultError "pval list" uuid
  | LedgerImbalanceError "pval list" uuid rat rat
  | StateTransitionError "pval list" string uuid string string
  | RuntimeError string
  | KeyError string
  | ValueError string
  | TypeError string
  | InvalidOperation
  | NotImplementedError string
  | ExternalError string
  | HTTPException nat
  | CheckViolation string
  | ForeignKeyViolation string
  | UniqueViolation string
  | NumericValueOutOfRange
  | UnbalancedJournal uuid
  | InFailedSqlTransaction
  | InsufficientPrivilege string
  | UndefinedColumn string

text \<open>Errors of the database abort the transaction they happen in; Python's own do not.\<close>

fun is_sql_error :: "exn \<Rightarrow> bool" where
  "is_sql_error (CheckViolation _) = True"
| "is_sql_error (ForeignKeyViolation _) = True"
| "is_sql_error (UniqueViolation _) = True"
| "is_sql_error NumericValueOutOfRange = True"
| "is_sql_error (UnbalancedJournal _) = True"
| "is_sql_error InFailedSqlTransaction = True"
| "is_sql_error (InsufficientPrivilege _) = True"
| "is_sql_error (UndefinedColumn _) = True"
| "is_sql_error _ = False"

text \<open>\<open>str(exc)\<close>.\<close>

fun exn_str :: "exn \<Rightarrow> pval" where
  "exn_str (ValidationError m) = PMsg m"
| "exn_str (InsufficientMarginError m _ _ _) = PMsg m"
| "exn_str (NovationError m _) = PMsg m"
| "exn_str (NettingError m _) = PMsg m"
| "exn_str (SettlementError m _) = PMsg m"
| "exn_str (DefaultError m _) = PMsg m"
| "exn_str (LedgerImbalanceError m _ _ _) = PMsg m"
| "exn_str (StateTransitionError m _ _ _ _) = PMsg m"
| "exn_str (RuntimeError s) = PStr s"
| "exn_str (KeyError s) = PStr s"
| "exn_str (ValueError s) = PStr s"
| "exn_str (TypeError s) = PStr s"
| "exn_str InvalidOperation = PStr ''InvalidOperation''"
| "exn_str (NotImplementedError s) = PStr s"
| "exn_str (ExternalError s) = PStr s"
| "exn_str (HTTPException n) = PNat n"
| "exn_str (CheckViolation c) = PMsg [PStr ''check constraint'', PStr c]"
| "exn_str (ForeignKeyViolation c) = PMsg [PStr ''foreign key'', PStr c]"
| "exn_str (UniqueViolation c) = PMsg [PStr ''unique'', PStr c]"
| "exn_str NumericValueOutOfRange = PStr ''numeric field overflow''"
| "exn_str (UnbalancedJournal j) = PMsg [PStr ''unbalanced'', PId j]"
| "exn_str InFailedSqlTransaction = PStr ''in failed transaction''"
| "exn_str (InsufficientPrivilege t) = PMsg [PStr ''permission denied'', PStr t]"
| "exn_str (UndefinedColumn c) = PMsg [PStr ''column does not exist'', PStr c]"

subsection \<open>Rows\<close>

record member_row =
  m_id :: uuid
  m_lei :: string
  m_name :: string
  m_status :: string
  m_credit_limit :: rat

record instrument_row =
  i_id :: uuid
  i_symbol :: string
  i_asset_class :: string
  i_settlement_type :: string
  i_margin_rate_im :: rat
  i_margin_rate_vm :: rat
  i_chain_id :: "string option"
  i_contract_address :: "string option"
  i_is_active :: bool

record account_row =
  a_id :: uuid
  a_member_id :: uuid
  a_account_type :: string
  a_currency :: string
  a_pool :: string

record journal_row =
  j_id :: uuid
  j_journal_type :: string
  j_reference_type :: string
  j_reference_id :: "uuid option"
  j_status :: string

record entry_row =
  je_journal_id :: uuid
  je_account_id :: uuid
  je_debit :: rat
  je_credit :: rat

record trade_row =
  t_id :: uuid
  t_external_trade_id :: string
  t_instrument_id :: uuid
  t_buyer_member_id :: uuid
  t_seller_member_id :: uuid
  t_quantity :: rat
  t_price :: rat
  t_status :: string
  t_submitted_at :: int

record novated_row =
  n_id :: uuid
  n_original_trade_id :: uuid
  n_member_id :: uuid
  n_instrument_id :: uuid
  n_side :: string
  n_quantity :: rat
  n_price :: rat
  n_status :: string
  n_novated_at :: int

record requirement_row =
  mr_id :: uuid
  mr_member_id :: uuid
  mr_instrument_id :: uuid
  mr_margin_type :: string
  mr_required_amount :: rat
  mr_posted_amount :: rat

text \<open>The generated column \<open>GREATEST(required_amount - posted_amount, 0)\<close>.\<close>

definition mr_shortfall :: "requirement_row \<Rightarrow> rat" where
  "mr_shortfall r = max (mr_required_amount r - mr_posted_amount r) 0"

record call_row =
  mc_id :: uuid
  mc_member_id :: uuid
  mc_margin_requirement_id :: "uuid option"
  mc_call_amount :: rat
  mc_deadline :: int
  mc_status :: string

record cycle_row =
  nc_id :: uuid
  nc_cycle_type :: string
  nc_status :: string
  nc_cut_off_time :: int
  nc_created_at :: int

record obligation_row =
  no_id :: uuid
  no_netting_cycle_id :: uuid
  no_member_id :: uuid
  no_instrument_id :: uuid
  no_net_quantity :: rat
  no_net_amount :: rat
  no_settlement_amount :: rat

record instruction_row =
  si_id :: uuid
  si_settlement_type :: string
  si_netting_cycle_id :: uuid
  si_from_member_id :: uuid
  si_to_member_id :: uuid
  si_instrument_id :: uuid
  si_quantity :: rat
  si_amount :: rat
  si_chain_id :: "string option"
  si_tx_hash :: "string option"
  si_status :: string
  si_block_number :: "nat option"
  si_confirmations :: nat

record outbox_row =
  ob_id :: uuid
  ob_aggregate_type :: string
  ob_aggregate_id :: uuid
  ob_event_type :: string
  ob_topic :: string
  ob_payload :: payload
  ob_trace_id :: "uuid option"
  ob_created_at :: int
  ob_published_at :: "int option"

record transition_row =
  st_entity_type :: string
  st_entity_id :: uuid
  st_from_status :: "string option"
  st_to_status :: string
  st_reason :: "pval option"
  st_transitioned_by :: string
  st_trace_id :: "uuid option"
  st_actor :: "string option"

record price_row =
  pf_instrument_id :: uuid
  pf_price :: rat
  pf_source :: string
  pf_received_at :: int

record default_row =
  de_id :: uuid
  de_member_id :: uuid
  de_trigger_reason :: pval
  de_total_exposure :: rat
  de_status :: string
  de_resolved :: bool

record step_row =
  ws_id :: uuid
  ws_default_event_id :: uuid
  ws_step_order :: nat
  ws_step_type :: string
  ws_available_amount :: rat
  ws_applied_amount :: rat
  ws_remaining_loss :: rat
  ws_journal_id :: "uuid option"

record processed_row =
  pe_service_name :: string
  pe_event_id :: uuid
  pe_reference_id :: "uuid option"

record dead_letter_row =
  dl_id :: uuid
  dl_service_name :: string
  dl_topic :: string
  dl_event_key :: "string option"
  dl_payload :: pval
  dl_error_message :: pval
  dl_created_at :: int
  dl_retry_count :: nat

subsection \<open>The CHECK vocabularies\<close>

record schema =
  chk_member_status :: "string list"
  chk_asset_class :: "string list"
  chk_instrument_settlement_type :: "string list"
  chk_account_type :: "string list"
  chk_pool :: "string list"
  chk_journal_type :: "string list"
  chk_journal_status :: "string list"
  chk_trade_status :: "string list"
  chk_novated_side :: "string list"
  chk_novated_status :: "string list"
  chk_margin_type :: "string list"
  chk_margin_call_status :: "string list"
  chk_cycle_type :: "string list"
  chk_cycle_status :: "string list"
  chk_settlement_type :: "string list"
  chk_settlement_status :: "string list"
  chk_default_status :: "string list"
  chk_step_type :: "string list"

definition members_status_check :: "string list" where
  "members_status_check = [''pending'', ''active'', ''suspended'', ''defaulted'']"

definition instruments_asset_class_check :: "string list" where
  "instruments_asset_class_check =
     [''crypto_future'', ''crypto_option'', ''crypto_perpetual'', ''tokenized_equity'',
      ''tokenized_bond'', ''tokenized_rwa'']"

definition instruments_settlement_type_check :: "string list" where
  "instruments_settlement_type_check = [''cash'', ''physical'', ''dvp'']"

definition accounts_type_check :: "string list" where
  "accounts_type_check =
     [''MARGIN_IM'', ''MARGIN_VM'', ''SETTLEMENT'', ''DEFAULT_FUND'', ''COLLATERAL'',
      ''CCP_EQUITY'']"

definition accounts_pool_check :: "string list" where
  "accounts_pool_check = [''AVAILABLE'', ''RESERVED'', ''LOCKED'']"

definition journals_type_check :: "string list" where
  "journals_type_check =
     [''MARGIN_DEPOSIT'', ''MARGIN_WITHDRAWAL'', ''MARGIN_CALL'', ''SETTLEMENT'',
      ''FEE_COLLECTION'', ''DEFAULT_CLOSE_OUT'', ''WATERFALL_LOSS'', ''COLLATERAL_TRANSFER'',
      ''NETTING'', ''ADJUSTMENT'', ''DEFAULT_FUND_CONTRIBUTION'']"

definition journals_status_check :: "string list" where
  "journals_status_check = [''pending'', ''confirmed'', ''rejected'']"

definition trades_status_check :: "string list" where
  "trades_status_check =
     [''submitted'', ''validated'', ''novated'', ''rejected'', ''cancelled'']"

definition novated_side_check :: "string list" where
  "novated_side_check = [''BUY'', ''SELL'']"

definition novated_status_check_005 :: "string list" where
  "novated_status_check_005 = [''open'', ''closed'', ''defaulted'']"

definition margin_type_check :: "string list" where
  "margin_type_check = [''INITIAL'', ''VARIATION'']"

definition margin_calls_status_check :: "string list" where
  "margin_calls_status_check =
     [''issued'', ''acknowledged'', ''met'', ''partially_met'', ''breached'']"

definition cycle_type_check :: "string list" where
  "cycle_type_check = [''scheduled'', ''manual'', ''intraday'']"

definition cycle_status_check :: "string list" where
  "cycle_status_check =
     [''initiated'', ''calculating'', ''confirmed'', ''settled'', ''failed'']"

definition settlement_type_check_008 :: "string list" where
  "settlement_type_check_008 = [''cash'', ''physical'', ''hybrid'', ''on_chain'']"

definition settlement_status_check_008 :: "string list" where
  "settlement_status_check_008 =
     [''pending'', ''submitted'', ''confirmed'', ''failed'', ''cancelled'']"

definition default_status_check :: "string list" where
  "default_status_check =
     [''detected'', ''margin_applied'', ''default_fund_applied'', ''ccp_skin_applied'',
      ''assessment_applied'', ''resolved'', ''escalated'']"

definition step_type_check :: "string list" where
  "step_type_check =
     [''DEFAULTER_MARGIN'', ''DEFAULTER_DEFAULT_FUND'', ''CCP_FIRST_TRANCHE'',
      ''SURVIVOR_DEFAULT_FUND'', ''CCP_SECOND_TRANCHE'', ''ASSESSMENT_POWERS'']"

text \<open>Migrations 002 to 019.\<close>

definition schema_019 :: schema where
  "schema_019 = \<lparr>
     chk_member_status = members_status_check,
     chk_asset_class = instruments_asset_class_check,
     chk_instrument_settlement_type = instruments_settlement_type_check,
     chk_account_type = accounts_type_check,
     chk_pool = accounts_pool_check,
     chk_journal_type = journals_type_check,
     chk_journal_status = journals_status_check,
     chk_trade_status = trades_status_check,
     chk_novated_side = novated_side_check,
     chk_novated_status = novated_status_check_005,
     chk_margin_type = margin_type_check,
     chk_margin_call_status = margin_calls_status_check,
     chk_cycle_type = cycle_type_check,
     chk_cycle_status = cycle_status_check,
     chk_settlement_type = settlement_type_check_008,
     chk_settlement_status = settlement_status_check_008,
     chk_default_status = default_status_check,
     chk_step_type = step_type_check\<rparr>"

definition upgrade_020 :: "schema \<Rightarrow> schema" where
  "upgrade_020 s = s\<lparr>chk_settlement_status :=
     [''pending'', ''approved'', ''signed'', ''broadcasted'', ''confirmed'', ''failed'',
      ''cancelled'']\<rparr>"

definition downgrade_020 :: "schema \<Rightarrow> schema" where
  "downgrade_020 s = s\<lparr>chk_settlement_status :=
     [''pending'', ''submitted'', ''confirmed'', ''failed'', ''cancelled'']\<rparr>"

definition upgrade_022 :: "schema \<Rightarrow> schema" where
  "upgrade_022 s = s\<lparr>chk_settlement_type := [''cash'', ''physical'', ''dvp''],
     chk_novated_status := [''open'', ''netted'', ''settled'', ''defaulted'']\<rparr>"

definition downgrade_022 :: "schema \<Rightarrow> schema" where
  "downgrade_022 s = s\<lparr>chk_settlement_type := [''cash'', ''physical'', ''hybrid'', ''on_chain''],
     chk_novated_status := [''open'', ''closed'', ''defaulted'']\<rparr>"

text \<open>\<open>alembic upgrade head\<close>: 021 adds a column and a trigger, no vocabulary.\<close>

definition migrated_schema :: schema where
  "migrated_schema = upgrade_022 (upgrade_020 schema_019)"

lemmas schema_defs = migrated_schema_def upgrade_020_def upgrade_022_def schema_019_def
  downgrade_020_def downgrade_022_def
  members_status_check_def instruments_asset_class_check_def
  instruments_settlement_type_check_def accounts_type_check_def accounts_pool_check_def
  journals_type_check_def journals_status_check_def trades_status_check_def
  novated_side_check_def novated_status_check_005_def margin_type_check_def
  margin_calls_status_check_def cycle_type_check_def cycle_status_check_def
  settlement_type_check_008_def settlement_status_check_008_def default_status_check_def
  step_type_check_def

text \<open>
  The migrated vocabularies widened by the values of the enumerations that the services write
  and the migrations leave out: what the schema would have to admit for them to run.
\<close>

definition widened_schema :: schema where
  "widened_schema = migrated_schema\<lparr>
     chk_journal_type := journals_type_check @ map JournalType_value JournalType_members,
     chk_default_status := default_status_check @ map DefaultEventStatus_value DefaultEventStatus_members,
     chk_step_type := step_type_check @ map WaterfallStepType_value WaterfallStepType_members\<rparr>"

subsection \<open>The database\<close>

text \<open>
  \<open>db_deferred\<close> is the queue of the deferred constraint trigger
  \<open>trg_validate_journal_balance\<close>: the journals that got an entry in the current transaction.
  \<open>db_next_uuid\<close> is the supply of UUIDs, \<open>db_now\<close> the transaction's \<open>now()\<close>.
\<close>

record db =
  db_schema :: schema
  db_members :: "member_row list"
  db_instruments :: "instrument_row list"
  db_accounts :: "account_row list"
  db_journals :: "journal_row list"
  db_entries :: "entry_row list"
  db_trades :: "trade_row list"
  db_novated :: "novated_row list"
  db_requirements :: "requirement_row list"
  db_calls :: "call_row list"
  db_cycles :: "cycle_row list"
  db_obligations :: "obligation_row list"
  db_instructions :: "instruction_row list"
  db_outbox :: "outbox_row list"
  db_transitions :: "transition_row list"
  db_prices :: "price_row list"
  db_latest_prices :: "(uuid \<times> rat) list"
  db_defaults :: "default_row list"
  db_steps :: "step_row list"
  db_processed :: "processed_row list"
  db_dead_letters :: "dead_letter_row list"
  db_deferred :: "uuid list"
  db_next_uuid :: uuid
  db_now :: int

definition empty_db :: "schema \<Rightarrow> db" where
  "empty_db s = \<lparr>db_schema = s, db_members = [], db_instruments = [], db_accounts = [],
     db_journals = [], db_entries = [], db_trades = [], db_novated = [], db_requirements = [],
     db_calls = [], db_cycles = [], db_obligations = [], db_instructions = [], db_outbox = [],
     db_transitions = [], db_prices = [], db_latest_prices = [], db_defaults = [],
     db_steps = [], db_processed = [], db_dead_letters = [], db_deferred = [],
     db_next_uuid = 0, db_now = 0\<rparr>"

type_synonym 'a ccp = "(db, exn, 'a) tx"

end
