(* ===== verification/Store.thy ===== *)
theory Store
  imports Domain
begin

section \<open>The SQL statements: inserts and updates under the schema's constraints\<close>

text \<open>
  One operation per kind of \<open>INSERT\<close> and \<open>UPDATE\<close> the services issue. An insert draws the
  row's UUID (Python's \<open>uuid4()\<close> in the statement before it, or the column default), rounds
  the amounts into their \<open>NUMERIC(28, 8)\<close> columns, tests the \<open>CHECK\<close> constraints and the
  foreign keys, and appends the row. \<open>commit\<close> runs the deferred trigger of migration 014.
  What no statement can break is the relation \<open>evolves\<close> of the theory Ledger.
\<close>

subsection \<open>Constraint checks\<close>

definition fresh_uuid :: "uuid ccp" where
  "fresh_uuid = (\<lambda>d. Inr (db_next_uuid d, d\<lparr>db_next_uuid := Suc (db_next_uuid d)\<rparr>))"

definition check_vocab :: "string \<Rightarrow> (schema \<Rightarrow> string list) \<Rightarrow> string \<Rightarrow> unit ccp" where
  "check_vocab name chk v =
     bind_tx (gets_tx (\<lambda>d. v \<in> set (chk (db_schema d)))) (\<lambda>ok.
     guard_tx ok (CheckViolation name))"

definition foreign_key :: "string \<Rightarrow> (db \<Rightarrow> bool) \<Rightarrow> unit ccp" where
  "foreign_key name p = bind_tx (gets_tx p) (\<lambda>ok. guard_tx ok (ForeignKeyViolation name))"

definition numeric :: "rat \<Rightarrow> rat ccp" where
  "numeric x = (if num_fits (num_round x) then return_tx (num_round x)
                else raise_tx NumericValueOutOfRange)"

text \<open>\<open>SELECT ... LIMIT n\<close> over the rows of \<open>q\<close>.\<close>

definition select_limit :: "int \<Rightarrow> (db \<Rightarrow> 'r list) \<Rightarrow> 'r list ccp" where
  "select_limit n q =
     bind_tx (guard_tx (0 \<le> n) (ExternalError ''LIMIT must not be negative'')) (\<lambda>_.
     gets_tx (\<lambda>d. take (nat n) (q d)))"

definition has_member :: "uuid \<Rightarrow> db \<Rightarrow> bool" where
  "has_member m d \<longleftrightarrow> (\<exists>r \<in> set (db_members d). m_id r = m)"

definition has_instrument :: "uuid \<Rightarrow> db \<Rightarrow> bool" where
  "has_instrument i d \<longleftrightarrow> (\<exists>r \<in> set (db_instruments d). i_id r = i)"

definition has_account :: "uuid \<Rightarrow> db \<Rightarrow> bool" where
  "has_account a d \<longleftrightarrow> (\<exists>r \<in> set (db_accounts d). a_id r = a)"

definition has_journal :: "uuid \<Rightarrow> db \<Rightarrow> bool" where
  "has_journal j d \<longleftrightarrow> (\<exists>r \<in> set (db_journals d). j_id r = j)"

definition has_trade :: "uuid \<Rightarrow> db \<Rightarrow> bool" where
  "has_trade t d \<longleftrightarrow> (\<exists>r \<in> set (db_trades d). t_id r = t)"

definition has_cycle :: "uuid \<Rightarrow> db \<Rightarrow> bool" where
  "has_cycle c d \<longleftrightarrow> (\<exists>r \<in> set (db_cycles d). nc_id r = c)"

definition has_default :: "uuid \<Rightarrow> db \<Rightarrow> bool" where
  "has_default e d \<longleftrightarrow> (\<exists>r \<in> set (db_defaults d). de_id r = e)"

definition has_requirement :: "uuid \<Rightarrow> db \<Rightarrow> bool" where
  "has_requirement q d \<longleftrightarrow> (\<exists>r \<in> set (db_requirements d). mr_id r = q)"

lemmas has_defs = has_member_def has_instrument_def has_account_def has_journal_def
  has_trade_def has_cycle_def has_default_def has_requirement_def

subsection \<open>The ledger\<close>

definition insert_journal :: "string \<Rightarrow> string \<Rightarrow> uuid \<Rightarrow> string \<Rightarrow> uuid ccp" where
  "insert_journal jtype rtype rid status =
     bind_tx fresh_uuid (\<lambda>jid.
     bind_tx (check_vocab ''chk_journals_type'' chk_journal_type jtype) (\<lambda>_.
     bind_tx (check_vocab ''chk_journals_status'' chk_journal_status status) (\<lambda>_.
     bind_tx (modify_tx (\<lambda>d. d\<lparr>db_journals := db_journals d @
        [\<lparr>j_id = jid, j_journal_type = jtype, j_reference_type = rtype,
          j_reference_id = Some rid, j_status = status\<rparr>]\<rparr>)) (\<lambda>_.
     return_tx jid))))"

definition insert_entry :: "uuid \<Rightarrow> uuid \<Rightarrow> rat \<Rightarrow> rat \<Rightarrow> unit ccp" where
  "insert_entry jid acct debit credit =
     bind_tx (numeric debit) (\<lambda>dr.
     bind_tx (numeric credit) (\<lambda>cr.
     bind_tx (guard_tx (0 \<le> dr \<and> 0 \<le> cr) (CheckViolation ''journal_entries_check'')) (\<lambda>_.
     bind_tx (guard_tx ((0 < dr \<and> cr = 0) \<or> (dr = 0 \<and> 0 < cr))
        (CheckViolation ''journal_entries_check1'')) (\<lambda>_.
     bind_tx (foreign_key ''journal_entries_journal_id_fkey'' (has_journal jid)) (\<lambda>_.
     bind_tx (foreign_key ''journal_entries_account_id_fkey'' (has_account acct)) (\<lambda>_.
     modify_tx (\<lambda>d. d\<lparr>
        db_entries := db_entries d @
          [\<lparr>je_journal_id = jid, je_account_id = acct, je_debit = dr, je_credit = cr\<rparr>],
        db_deferred := db_deferred d @ [jid]\<rparr>)))))))"

definition journal_entries_of :: "db \<Rightarrow> uuid \<Rightarrow> entry_row list" where
  "journal_entries_of d j = filter (\<lambda>e. je_journal_id e = j) (db_entries d)"

definition journal_balanced :: "db \<Rightarrow> uuid \<Rightarrow> bool" where
  "journal_balanced d j \<longleftrightarrow>
     (\<Sum>e\<leftarrow>journal_entries_of d j. je_debit e) = (\<Sum>e\<leftarrow>journal_entries_of d j. je_credit e)"

text \<open>\<open>trg_validate_journal_balance\<close>, deferred to the commit.\<close>

definition validate_journal_balance :: "uuid \<Rightarrow> unit ccp" where
  "validate_journal_balance j =
     bind_tx (gets_tx (\<lambda>d. journal_balanced d j)) (\<lambda>ok. guard_tx ok (UnbalancedJournal j))"

definition commit :: "unit ccp" where
  "commit =
     bind_tx (gets_tx db_deferred) (\<lambda>js.
     bind_tx (for_tx validate_journal_balance js) (\<lambda>_.
     modify_tx (\<lambda>d. d\<lparr>db_deferred := []\<rparr>)))"

text \<open>
  The view \<open>account_balances\<close>. Its second \<open>LEFT JOIN\<close> has the condition on the journal's
  status in the \<open>ON\<close> clause, so it removes no entry from the sums.
\<close>

definition acct_balance :: "db \<Rightarrow> uuid \<Rightarrow> rat" where
  "acct_balance d a = (\<Sum>e\<leftarrow>filter (\<lambda>e. je_account_id e = a) (db_entries d). je_debit e - je_credit e)"

subsection \<open>Accounts and members\<close>

definition find_account :: "uuid \<Rightarrow> string \<Rightarrow> string \<Rightarrow> db \<Rightarrow> account_row option" where
  "find_account m ty pool d =
     fetchone (\<lambda>a. a_member_id a = m \<and> a_account_type a = ty \<and> a_pool a = pool) (db_accounts d)"

definition ccp_lei :: string where
  "ccp_lei = ''CCP000000000000000''"

definition find_ccp :: "db \<Rightarrow> member_row option" where
  "find_ccp d = fetchone (\<lambda>m. m_lei m = ccp_lei) (db_members d)"

definition update_member_status :: "uuid \<Rightarrow> string \<Rightarrow> unit ccp" where
  "update_member_status m st =
     bind_tx (gets_tx (\<lambda>d. has_member m d \<longrightarrow> st \<in> set (chk_member_status (db_schema d)))) (\<lambda>ok.
     bind_tx (guard_tx ok (CheckViolation ''chk_members_status'')) (\<lambda>_.
     modify_tx (\<lambda>d. d\<lparr>db_members :=
        update_where (\<lambda>r. m_id r = m) (m_status_update (\<lambda>_. st)) (db_members d)\<rparr>)))"

subsection \<open>Trades\<close>

definition insert_trade :: "string \<Rightarrow> uuid \<Rightarrow> uuid \<Rightarrow> uuid \<Rightarrow> rat \<Rightarrow> rat \<Rightarrow> string \<Rightarrow> trade_row ccp" where
  "insert_trade ext inst buyer seller qty price status =
     bind_tx fresh_uuid (\<lambda>tid.
     bind_tx (numeric qty) (\<lambda>q.
     bind_tx (numeric price) (\<lambda>p.
     bind_tx (check_vocab ''chk_trades_status'' chk_trade_status status) (\<lambda>_.
     bind_tx (gets_tx (\<lambda>d. \<forall>r \<in> set (db_trades d). t_external_trade_id r \<noteq> ext)) (\<lambda>uniq.
     bind_tx (guard_tx uniq (UniqueViolation ''trades_external_trade_id_key'')) (\<lambda>_.
     bind_tx (foreign_key ''trades_instrument_id_fkey'' (has_instrument inst)) (\<lambda>_.
     bind_tx (foreign_key ''trades_buyer_member_id_fkey'' (has_member buyer)) (\<lambda>_.
     bind_tx (foreign_key ''trades_seller_member_id_fkey'' (has_member seller)) (\<lambda>_.
     bind_tx (gets_tx db_now) (\<lambda>now.
     let row = \<lparr>t_id = tid, t_external_trade_id = ext, t_instrument_id = inst,
                t_buyer_member_id = buyer, t_seller_member_id = seller, t_quantity = q,
                t_price = p, t_status = status, t_submitted_at = now\<rparr> in
     bind_tx (modify_tx (\<lambda>d. d\<lparr>db_trades := db_trades d @ [row]\<rparr>)) (\<lambda>_.
     return_tx row)))))))))))"

definition update_trade_status :: "uuid \<Rightarrow> string \<Rightarrow> unit ccp" where
  "update_trade_status t st =
     bind_tx (gets_tx (\<lambda>d. has_trade t d \<longrightarrow> st \<in> set (chk_trade_status (db_schema d)))) (\<lambda>ok.
     bind_tx (guard_tx ok (CheckViolation ''chk_trades_status'')) (\<lambda>_.
     modify_tx (\<lambda>d. d\<lparr>db_trades :=
        update_where (\<lambda>r. t_id r = t) (t_status_update (\<lambda>_. st)) (db_trades d)\<rparr>)))"

text \<open>\<open>status\<close> and \<open>novated_at\<close> take their column defaults \<open>'open'\<close> and \<open>now()\<close>.\<close>

definition insert_novated :: "uuid \<Rightarrow> uuid \<Rightarrow> uuid \<Rightarrow> string \<Rightarrow> rat \<Rightarrow> rat \<Rightarrow> uuid ccp" where
  "insert_novated tid m inst side qty price =
     bind_tx fresh_uuid (\<lambda>nid.
     bind_tx (numeric qty) (\<lambda>q.
     bind_tx (numeric price) (\<lambda>p.
     bind_tx (check_vocab ''chk_novated_trades_side'' chk_novated_side side) (\<lambda>_.
     bind_tx (check_vocab ''chk_novated_trades_status'' chk_novated_status ''open'') (\<lambda>_.
     bind_tx (foreign_key ''novated_trades_original_trade_id_fkey'' (has_trade tid)) (\<lambda>_.
     bind_tx (foreign_key ''novated_trades_member_id_fkey'' (has_member m)) (\<lambda>_.
     bind_tx (foreign_key ''novated_trades_instrument_id_fkey'' (has_instrument inst)) (\<lambda>_.
     bind_tx (modify_tx (\<lambda>d. d\<lparr>db_novated := db_novated d @
        [\<lparr>n_id = nid, n_original_trade_id = tid, n_member_id = m, n_instrument_id = inst,
          n_side = side, n_quantity = q, n_price = p, n_status = ''open'',
          n_novated_at = db_now d\<rparr>]\<rparr>)) (\<lambda>_.
     return_tx nid)))))))))"

text \<open>\<open>UPDATE novated_trades SET status = st WHERE p\<close>; the result is \<open>cursor.rowcount\<close>.\<close>

definition update_novated_status :: "(novated_row \<Rightarrow> bool) \<Rightarrow> string \<Rightarrow> nat ccp" where
  "update_novated_status p st =
     bind_tx (gets_tx (\<lambda>d. length (filter p (db_novated d)))) (\<lambda>n.
     bind_tx (gets_tx (\<lambda>d. n = 0 \<or> st \<in> set (chk_novated_status (db_schema d)))) (\<lambda>ok.
     bind_tx (guard_tx ok (CheckViolation ''chk_novated_trades_status'')) (\<lambda>_.
     bind_tx (modify_tx (\<lambda>d. d\<lparr>db_novated :=
        update_where p (n_status_update (\<lambda>_. st)) (db_novated d)\<rparr>)) (\<lambda>_.
     return_tx n))))"

subsection \<open>Margin\<close>

text \<open>
  \<open>INSERT ... ON CONFLICT (member_id, instrument_id, margin_type) DO UPDATE\<close>; a new row has
  \<open>posted_amount\<close> 0.
\<close>

definition upsert_requirement :: "uuid \<Rightarrow> uuid \<Rightarrow> string \<Rightarrow> rat \<Rightarrow> unit ccp" where
  "upsert_requirement m inst mtype amount =
     bind_tx fresh_uuid (\<lambda>rid.
     bind_tx (numeric amount) (\<lambda>x.
     bind_tx (check_vocab ''chk_margin_type'' chk_margin_type mtype) (\<lambda>_.
     bind_tx (foreign_key ''margin_requirements_member_id_fkey'' (has_member m)) (\<lambda>_.
     bind_tx (foreign_key ''margin_requirements_instrument_id_fkey'' (has_instrument inst)) (\<lambda>_.
     modify_tx (\<lambda>d. d\<lparr>db_requirements :=
       (let same = (\<lambda>r. mr_member_id r = m \<and> mr_instrument_id r = inst \<and> mr_margin_type r = mtype)
        in if \<exists>r \<in> set (db_requirements d). same r
           then update_where same (mr_required_amount_update (\<lambda>_. x)) (db_requirements d)
           else db_requirements d @
             [\<lparr>mr_id = rid, mr_member_id = m, mr_instrument_id = inst, mr_margin_type = mtype,
               mr_required_amount = x, mr_posted_amount = 0\<rparr>])\<rparr>))))))"

text \<open>\<open>UPDATE margin_requirements SET posted_amount = posted_amount + x WHERE ...\<close>.\<close>

definition add_posted_amount :: "uuid \<Rightarrow> string \<Rightarrow> rat \<Rightarrow> unit ccp" where
  "add_posted_amount m mtype x =
     bind_tx (gets_tx (\<lambda>d. \<forall>r \<in> set (db_requirements d).
        mr_member_id r = m \<and> mr_margin_type r = mtype \<longrightarrow>
        num_fits (num_round (mr_posted_amount r + x)))) (\<lambda>ok.
     bind_tx (guard_tx ok NumericValueOutOfRange) (\<lambda>_.
     modify_tx (\<lambda>d. d\<lparr>db_requirements :=
        update_where (\<lambda>r. mr_member_id r = m \<and> mr_margin_type r = mtype)
          (mr_posted_amount_update (\<lambda>p. num_round (p + x))) (db_requirements d)\<rparr>)))"

definition insert_call :: "uuid \<Rightarrow> uuid option \<Rightarrow> rat \<Rightarrow> int \<Rightarrow> uuid ccp" where
  "insert_call m req amount deadline =
     bind_tx fresh_uuid (\<lambda>cid.
     bind_tx (numeric amount) (\<lambda>x.
     bind_tx (check_vocab ''chk_margin_calls_status'' chk_margin_call_status ''issued'') (\<lambda>_.
     bind_tx (foreign_key ''margin_calls_member_id_fkey'' (has_member m)) (\<lambda>_.
     bind_tx (foreign_key ''margin_calls_margin_requirement_id_fkey''
        (\<lambda>d. case req of None \<Rightarrow> True | Some q \<Rightarrow> has_requirement q d)) (\<lambda>_.
     bind_tx (modify_tx (\<lambda>d. d\<lparr>db_calls := db_calls d @
        [\<lparr>mc_id = cid, mc_member_id = m, mc_margin_requirement_id = req, mc_call_amount = x,
          mc_deadline = deadline, mc_status = ''issued''\<rparr>]\<rparr>)) (\<lambda>_.
     return_tx cid))))))"

subsection \<open>Netting\<close>

definition insert_cycle :: "string \<Rightarrow> string \<Rightarrow> int \<Rightarrow> uuid ccp" where
  "insert_cycle ctype status cut_off =
     bind_tx fresh_uuid (\<lambda>cid.
     bind_tx (check_vocab ''chk_netting_cycle_type'' chk_cycle_type ctype) (\<lambda>_.
     bind_tx (check_vocab ''chk_netting_cycle_status'' chk_cycle_status status) (\<lambda>_.
     bind_tx (modify_tx (\<lambda>d. d\<lparr>db_cycles := db_cycles d @
        [\<lparr>nc_id = cid, nc_cycle_type = ctype, nc_status = status, nc_cut_off_time = cut_off,
          nc_created_at = db_now d\<rparr>]\<rparr>)) (\<lambda>_.
     return_tx cid))))"

definition update_cycle_status :: "uuid \<Rightarrow> string \<Rightarrow> unit ccp" where
  "update_cycle_status c st =
     bind_tx (gets_tx (\<lambda>d. has_cycle c d \<longrightarrow> st \<in> set (chk_cycle_status (db_schema d)))) (\<lambda>ok.
     bind_tx (guard_tx ok (CheckViolation ''chk_netting_cycle_status'')) (\<lambda>_.
     modify_tx (\<lambda>d. d\<lparr>db_cycles :=
        update_where (\<lambda>r. nc_id r = c) (nc_status_update (\<lambda>_. st)) (db_cycles d)\<rparr>)))"

definition insert_obligation :: "uuid \<Rightarrow> uuid \<Rightarrow> uuid \<Rightarrow> rat \<Rightarrow> rat \<Rightarrow> rat \<Rightarrow> uuid ccp" where
  "insert_obligation cycle m inst qty amount samount =
     bind_tx fresh_uuid (\<lambda>oid.
     bind_tx (numeric qty) (\<lambda>q.
     bind_tx (numeric amount) (\<lambda>x.
     bind_tx (numeric samount) (\<lambda>s.
     bind_tx (foreign_key ''net_obligations_netting_cycle_id_fkey'' (has_cycle cycle)) (\<lambda>_.
     bind_tx (foreign_key ''net_obligations_member_id_fkey'' (has_member m)) (\<lambda>_.
     bind_tx (foreign_key ''net_obligations_instrument_id_fkey'' (has_instrument inst)) (\<lambda>_.
     bind_tx (modify_tx (\<lambda>d. d\<lparr>db_obligations := db_obligations d @
        [\<lparr>no_id = oid, no_netting_cycle_id = cycle, no_member_id = m, no_instrument_id = inst,
          no_net_quantity = q, no_net_amount = x, no_settlement_amount = s\<rparr>]\<rparr>)) (\<lambda>_.
     return_tx oid))))))))"

subsection \<open>Settlement instructions\<close>

text \<open>The only insert of the services names neither \<open>chain_id\<close> nor \<open>tx_hash\<close>: both are NULL.\<close>

definition insert_instruction ::
    "uuid \<Rightarrow> uuid \<Rightarrow> uuid \<Rightarrow> uuid \<Rightarrow> rat \<Rightarrow> rat \<Rightarrow> string \<Rightarrow> string \<Rightarrow> uuid ccp" where
  "insert_instruction cycle from_m to_m inst qty amount stype status =
     bind_tx fresh_uuid (\<lambda>sid.
     bind_tx (numeric qty) (\<lambda>q.
     bind_tx (numeric amount) (\<lambda>x.
     bind_tx (check_vocab ''chk_settlement_type'' chk_settlement_type stype) (\<lambda>_.
     bind_tx (check_vocab ''chk_settlement_status'' chk_settlement_status status) (\<lambda>_.
     bind_tx (foreign_key ''settlement_instructions_netting_cycle_id_fkey'' (has_cycle cycle)) (\<lambda>_.
     bind_tx (foreign_key ''settlement_instructions_from_member_id_fkey'' (has_member from_m)) (\<lambda>_.
     bind_tx (foreign_key ''settlement_instructions_to_member_id_fkey'' (has_member to_m)) (\<lambda>_.
     bind_tx (foreign_key ''settlement_instructions_instrument_id_fkey'' (has_instrument inst)) (\<lambda>_.
     bind_tx (modify_tx (\<lambda>d. d\<lparr>db_instructions := db_instructions d @
        [\<lparr>si_id = sid, si_settlement_type = stype, si_netting_cycle_id = cycle,
          si_from_member_id = from_m, si_to_member_id = to_m, si_instrument_id = inst,
          si_quantity = q, si_amount = x, si_chain_id = None, si_tx_hash = None,
          si_status = status, si_block_number = None, si_confirmations = 0\<rparr>]\<rparr>)) (\<lambda>_.
     return_tx sid))))))))))"

definition has_instruction :: "uuid \<Rightarrow> db \<Rightarrow> bool" where
  "has_instruction s d \<longleftrightarrow> (\<exists>r \<in> set (db_instructions d). si_id r = s)"

definition update_instruction_status :: "uuid \<Rightarrow> string \<Rightarrow> unit ccp" where
  "update_instruction_status s st =
     bind_tx (gets_tx (\<lambda>d. has_instruction s d \<longrightarrow> st \<in> set (chk_settlement_status (db_schema d)))) (\<lambda>ok.
     bind_tx (guard_tx ok (CheckViolation ''chk_settlement_status'')) (\<lambda>_.
     modify_tx (\<lambda>d. d\<lparr>db_instructions :=
        update_where (\<lambda>r. si_id r = s) (si_status_update (\<lambda>_. st)) (db_instructions d)\<rparr>)))"

definition update_instruction_tx_hash :: "uuid \<Rightarrow> string \<Rightarrow> unit ccp" where
  "update_instruction_tx_hash s h =
     modify_tx (\<lambda>d. d\<lparr>db_instructions :=
        update_where (\<lambda>r. si_id r = s) (si_tx_hash_update (\<lambda>_. Some h)) (db_instructions d)\<rparr>)"

definition update_instruction_block :: "uuid \<Rightarrow> nat option \<Rightarrow> nat \<Rightarrow> unit ccp" where
  "update_instruction_block s b c =
     modify_tx (\<lambda>d. d\<lparr>db_instructions :=
        update_where (\<lambda>r. si_id r = s)
          (\<lambda>r. r\<lparr>si_block_number := b, si_confirmations := c\<rparr>) (db_instructions d)\<rparr>)"

subsection \<open>Outbox, audit trail, prices, default waterfall, deduplication\<close>

definition insert_outbox_row ::
    "string \<Rightarrow> uuid \<Rightarrow> string \<Rightarrow> string \<Rightarrow> payload \<Rightarrow> uuid option \<Rightarrow> unit ccp" where
  "insert_outbox_row atype aid etype topic p tid =
     bind_tx fresh_uuid (\<lambda>oid.
     modify_tx (\<lambda>d. d\<lparr>db_outbox := db_outbox d @
        [\<lparr>ob_id = oid, ob_aggregate_type = atype, ob_aggregate_id = aid, ob_event_type = etype,
          ob_topic = topic, ob_payload = p, ob_trace_id = tid, ob_created_at = db_now d,
          ob_published_at = None\<rparr>]\<rparr>))"

definition insert_transition :: "transition_row \<Rightarrow> unit ccp" where
  "insert_transition r = modify_tx (\<lambda>d. d\<lparr>db_transitions := db_transitions d @ [r]\<rparr>)"

definition insert_price :: "uuid \<Rightarrow> rat \<Rightarrow> string \<Rightarrow> unit ccp" where
  "insert_price inst price source =
     bind_tx (numeric price) (\<lambda>p.
     bind_tx (foreign_key ''price_feeds_instrument_id_fkey'' (has_instrument inst)) (\<lambda>_.
     modify_tx (\<lambda>d. d\<lparr>db_prices := db_prices d @
        [\<lparr>pf_instrument_id = inst, pf_price = p, pf_source = source, pf_received_at = db_now d\<rparr>]\<rparr>)))"

definition insert_default :: "uuid \<Rightarrow> pval \<Rightarrow> rat \<Rightarrow> string \<Rightarrow> uuid ccp" where
  "insert_default m reason exposure status =
     bind_tx fresh_uuid (\<lambda>eid.
     bind_tx (numeric exposure) (\<lambda>x.
     bind_tx (check_vocab ''chk_default_event_status'' chk_default_status status) (\<lambda>_.
     bind_tx (foreign_key ''default_events_member_id_fkey'' (has_member m)) (\<lambda>_.
     bind_tx (modify_tx (\<lambda>d. d\<lparr>db_defaults := db_defaults d @
        [\<lparr>de_id = eid, de_member_id = m, de_trigger_reason = reason, de_total_exposure = x,
          de_status = status, de_resolved = False\<rparr>]\<rparr>)) (\<lambda>_.
     return_tx eid)))))"

definition resolve_default :: "uuid \<Rightarrow> string \<Rightarrow> unit ccp" where
  "resolve_default e st =
     bind_tx (gets_tx (\<lambda>d. has_default e d \<longrightarrow> st \<in> set (chk_default_status (db_schema d)))) (\<lambda>ok.
     bind_tx (guard_tx ok (CheckViolation ''chk_default_event_status'')) (\<lambda>_.
     modify_tx (\<lambda>d. d\<lparr>db_defaults :=
        update_where (\<lambda>r. de_id r = e) (\<lambda>r. r\<lparr>de_status := st, de_resolved := True\<rparr>)
          (db_defaults d)\<rparr>)))"

definition insert_step ::
    "uuid \<Rightarrow> nat \<Rightarrow> string \<Rightarrow> rat \<Rightarrow> rat \<Rightarrow> rat \<Rightarrow> uuid option \<Rightarrow> unit ccp" where
  "insert_step ev order stype avail applied remaining jid =
     bind_tx fresh_uuid (\<lambda>wid.
     bind_tx (numeric avail) (\<lambda>av.
     bind_tx (numeric applied) (\<lambda>ap.
     bind_tx (numeric remaining) (\<lambda>rm.
     bind_tx (check_vocab ''chk_waterfall_step_type'' chk_step_type stype) (\<lambda>_.
     bind_tx (foreign_key ''waterfall_steps_default_event_id_fkey'' (has_default ev)) (\<lambda>_.
     bind_tx (foreign_key ''waterfall_steps_journal_id_fkey''
        (\<lambda>d. case jid of None \<Rightarrow> True | Some j \<Rightarrow> has_journal j d)) (\<lambda>_.
     modify_tx (\<lambda>d. d\<lparr>db_steps := db_steps d @
        [\<lparr>ws_id = wid, ws_default_event_id = ev, ws_step_order = order, ws_step_type = stype,
          ws_available_amount = av, ws_applied_amount = ap, ws_remaining_loss = rm,
          ws_journal_id = jid\<rparr>]\<rparr>))))))))"

text \<open>\<open>INSERT INTO processed_events ... ON CONFLICT DO NOTHING\<close>; the result is \<open>rowcount\<close>.\<close>

definition insert_processed :: "string \<Rightarrow> uuid \<Rightarrow> uuid option \<Rightarrow> nat ccp" where
  "insert_processed service event ref =
     bind_tx (gets_tx (\<lambda>d. \<exists>r \<in> set (db_processed d).
        pe_service_name r = service \<and> pe_event_id r = event)) (\<lambda>dup.
     if dup then return_tx 0
     else bind_tx (modify_tx (\<lambda>d. d\<lparr>db_processed := db_processed d @
            [\<lparr>pe_service_name = service, pe_event_id = event, pe_reference_id = ref\<rparr>]\<rparr>)) (\<lambda>_.
          return_tx 1))"

lemmas store_defs = fresh_uuid_def check_vocab_def foreign_key_def numeric_def
  insert_journal_def insert_entry_def insert_trade_def update_trade_status_def
  insert_novated_def update_novated_status_def upsert_requirement_def add_posted_amount_def
  insert_call_def insert_cycle_def update_cycle_status_def insert_obligation_def
  insert_instruction_def update_instruction_status_def update_instruction_tx_hash_def
  update_instruction_block_def insert_outbox_row_def insert_transition_def insert_price_def
  insert_default_def resolve_default_def insert_step_def insert_processed_def
  update_member_status_def

end
