(* ===== verification/Ledger.thy ===== *)
theory Ledger
  imports Store
begin

section \<open>What no statement can break: ledger integrity and append-only history\<close>

text \<open>
  \<open>ledger_wf\<close> is the integrity of the double-entry ledger: the row constraints of
  \<open>journal_entries\<close> (migration 004), and that a journal whose entries do not balance is in the
  queue of the deferred trigger (migration 014), which refuses it at the commit. \<open>ids_wf\<close> is
  what the primary keys give. \<open>evolves\<close> relates two states of one run: the tables with an
  immutability trigger (migrations 013 and 021) and the other insert-only tables only grow,
  the economic terms of trades and legs never change, and the invariants are kept, also the
  CHECK vocabularies (\<open>checked\<close>) and the foreign keys (\<open>linked\<close>). It is
  reflexive and transitive, so one lemma per statement carries over to every service.
\<close>

subsection \<open>Integrity of the ledger\<close>

definition entry_valid :: "entry_row \<Rightarrow> bool" where
  "entry_valid e \<longleftrightarrow> num_valued (je_debit e) \<and> num_valued (je_credit e) \<and>
     ((0 < je_debit e \<and> je_credit e = 0) \<or> (je_debit e = 0 \<and> 0 < je_credit e))"

definition ledger_wf :: "db \<Rightarrow> bool" where
  "ledger_wf d \<longleftrightarrow>
     (\<forall>e \<in> set (db_entries d). entry_valid e \<and> has_journal (je_journal_id e) d \<and>
        has_account (je_account_id e) d) \<and>
     (\<forall>j. \<not> journal_balanced d j \<longrightarrow> j \<in> set (db_deferred d))"

text \<open>The state after a commit: nothing deferred, so every journal balances.\<close>

definition ledger_committed :: "db \<Rightarrow> bool" where
  "ledger_committed d \<longleftrightarrow> ledger_wf d \<and> db_deferred d = []"

definition trial_balance :: "db \<Rightarrow> rat" where
  "trial_balance d = (\<Sum>e\<leftarrow>db_entries d. je_debit e - je_credit e)"

lemma sum_list_diff:
  fixes f :: "'a \<Rightarrow> 'b::ab_group_add"
  shows "(\<Sum>x\<leftarrow>xs. f x - g x) = (\<Sum>x\<leftarrow>xs. f x) - (\<Sum>x\<leftarrow>xs. g x)"
  by (induction xs) auto

lemma trial_balance_zero:
  assumes "\<And>j. journal_balanced d j"
  shows "trial_balance d = 0"
proof -
  have zero: "(\<Sum>e\<leftarrow>g. je_debit e - je_credit e) = 0"
    if "(j, g) \<in> set (group_by je_journal_id (db_entries d))" for j g
    using group_by_member [OF that] assms [of j]
    by (simp add: sum_list_diff journal_balanced_def journal_entries_of_def)
  have "trial_balance d = (\<Sum>(j, g)\<leftarrow>group_by je_journal_id (db_entries d).
      \<Sum>e\<leftarrow>g. je_debit e - je_credit e)"
    by (simp add: trial_balance_def group_by_sum)
  also have "\<dots> = (\<Sum>x\<leftarrow>group_by je_journal_id (db_entries d). 0)"
    using zero by (intro arg_cong [where f = sum_list] map_cong refl) auto
  finally show ?thesis by simp
qed

lemma committed_balanced: "ledger_committed d \<Longrightarrow> journal_balanced d j"
  by (auto simp: ledger_committed_def ledger_wf_def)

lemma sum_over_keys:
  fixes f :: "'r \<Rightarrow> 'b::comm_monoid_add"
  assumes "distinct ks" "\<And>r. r \<in> set rows \<Longrightarrow> key r \<in> set ks"
  shows "(\<Sum>k\<leftarrow>ks. \<Sum>r\<leftarrow>filter (\<lambda>r. key r = k) rows. f r) = (\<Sum>r\<leftarrow>rows. f r)"
  using assms(2)
proof (induction rows)
  case (Cons r rows)
  have one: "(\<Sum>k\<leftarrow>ks. if key r = k then f r else 0) = f r"
    using assms(1) Cons.prems by (simp add: sum_list_distinct_conv_sum_set)
  have "(\<Sum>k\<leftarrow>ks. \<Sum>q\<leftarrow>filter (\<lambda>q. key q = k) (r # rows). f q) =
      (\<Sum>k\<leftarrow>ks. (if key r = k then f r else 0) + (\<Sum>q\<leftarrow>filter (\<lambda>q. key q = k) rows. f q))"
    by (intro arg_cong [where f = sum_list] map_cong) auto
  then show ?case using Cons one by (simp add: sum_list_addf)
qed simp

lemma balances_sum_to_trial_balance:
  assumes "ledger_wf d" "distinct (map a_id (db_accounts d))"
  shows "(\<Sum>a\<leftarrow>db_accounts d. acct_balance d (a_id a)) = trial_balance d"
proof -
  have "je_account_id e \<in> set (map a_id (db_accounts d))" if "e \<in> set (db_entries d)" for e
    using assms(1) that by (force simp: ledger_wf_def has_account_def)
  then show ?thesis
    using sum_over_keys [OF assms(2), of "db_entries d" je_account_id "\<lambda>e. je_debit e - je_credit e"]
    by (simp add: acct_balance_def trial_balance_def comp_def)
qed

subsection \<open>Primary keys\<close>

definition fresh_ids :: "uuid \<Rightarrow> uuid list \<Rightarrow> bool" where
  "fresh_ids n ids \<longleftrightarrow> distinct ids \<and> (\<forall>i \<in> set ids. i < n)"

definition ids_wf :: "db \<Rightarrow> bool" where
  "ids_wf d \<longleftrightarrow>
     (let n = db_next_uuid d in
      fresh_ids n (map j_id (db_journals d)) \<and> fresh_ids n (map t_id (db_trades d)) \<and>
      fresh_ids n (map n_id (db_novated d)) \<and> fresh_ids n (map nc_id (db_cycles d)) \<and>
      fresh_ids n (map no_id (db_obligations d)) \<and> fresh_ids n (map si_id (db_instructions d)) \<and>
      fresh_ids n (map ob_id (db_outbox d)) \<and> fresh_ids n (map de_id (db_defaults d)) \<and>
      fresh_ids n (map mr_id (db_requirements d)))"

lemma fresh_ids_mono: "fresh_ids n ids \<Longrightarrow> n \<le> m \<Longrightarrow> fresh_ids m ids"
  by (auto simp: fresh_ids_def)

lemma fresh_ids_Suc [simp]: "fresh_ids n ids \<Longrightarrow> fresh_ids (Suc n) ids"
  by (auto simp: fresh_ids_def)

lemma fresh_ids_snoc [simp]: "fresh_ids n ids \<Longrightarrow> fresh_ids (Suc n) (ids @ [n])"
  by (auto simp: fresh_ids_def)

lemma fresh_ids_notin: "fresh_ids n ids \<Longrightarrow> n \<notin> set ids"
  by (auto simp: fresh_ids_def)

subsection \<open>The evolution relation\<close>

text \<open>A row without its mutable status.\<close>

definition trade_terms :: "trade_row \<Rightarrow> trade_row" where
  "trade_terms r = t_status_update (\<lambda>_. []) r"

definition leg_terms :: "novated_row \<Rightarrow> novated_row" where
  "leg_terms r = n_status_update (\<lambda>_. []) r"

definition instruction_terms :: "instruction_row \<Rightarrow> uuid \<times> uuid \<times> uuid \<times> uuid \<times> rat \<times> rat" where
  "instruction_terms r = (si_id r, si_from_member_id r, si_to_member_id r, si_instrument_id r,
     si_quantity r, si_amount r)"

definition grows :: "(db \<Rightarrow> 'r list) \<Rightarrow> db \<Rightarrow> db \<Rightarrow> bool" where
  "grows tab d d' \<longleftrightarrow> prefix (tab d) (tab d')"

text \<open>No service writes a journal that is not \<open>confirmed\<close>.\<close>

definition all_confirmed :: "db \<Rightarrow> bool" where
  "all_confirmed d \<longleftrightarrow> (\<forall>j \<in> set (db_journals d). j_status j = ''confirmed'')"

text \<open>Every row satisfies the \<open>CHECK\<close> vocabularies of the schema.\<close>

definition checked :: "db \<Rightarrow> bool" where
  "checked d \<longleftrightarrow> (let s = db_schema d in
     (\<forall>r \<in> set (db_members d). m_status r \<in> set (chk_member_status s)) \<and>
     (\<forall>r \<in> set (db_journals d). j_journal_type r \<in> set (chk_journal_type s) \<and>
        j_status r \<in> set (chk_journal_status s)) \<and>
     (\<forall>r \<in> set (db_trades d). t_status r \<in> set (chk_trade_status s)) \<and>
     (\<forall>r \<in> set (db_novated d). n_side r \<in> set (chk_novated_side s) \<and>
        n_status r \<in> set (chk_novated_status s)) \<and>
     (\<forall>r \<in> set (db_requirements d). mr_margin_type r \<in> set (chk_margin_type s)) \<and>
     (\<forall>r \<in> set (db_calls d). mc_status r \<in> set (chk_margin_call_status s)) \<and>
     (\<forall>r \<in> set (db_cycles d). nc_cycle_type r \<in> set (chk_cycle_type s) \<and>
        nc_status r \<in> set (chk_cycle_status s)) \<and>
     (\<forall>r \<in> set (db_instructions d). si_settlement_type r \<in> set (chk_settlement_type s) \<and>
        si_status r \<in> set (chk_settlement_status s)) \<and>
     (\<forall>r \<in> set (db_defaults d). de_status r \<in> set (chk_default_status s)) \<and>
     (\<forall>r \<in> set (db_steps d). ws_step_type r \<in> set (chk_step_type s)))"

text \<open>Every reference of a row of the trade, netting and default tables has its row.\<close>

definition linked :: "db \<Rightarrow> bool" where
  "linked d \<longleftrightarrow>
     (\<forall>r \<in> set (db_trades d). has_instrument (t_instrument_id r) d \<and>
        has_member (t_buyer_member_id r) d \<and> has_member (t_seller_member_id r) d) \<and>
     (\<forall>r \<in> set (db_novated d). has_trade (n_original_trade_id r) d \<and>
        has_member (n_member_id r) d \<and> has_instrument (n_instrument_id r) d) \<and>
     (\<forall>r \<in> set (db_obligations d). has_cycle (no_netting_cycle_id r) d) \<and>
     (\<forall>r \<in> set (db_instructions d). has_cycle (si_netting_cycle_id r) d \<and>
        has_member (si_from_member_id r) d \<and> has_member (si_to_member_id r) d) \<and>
     (\<forall>r \<in> set (db_steps d). has_default (ws_default_event_id r) d)"

definition evolves :: "db \<Rightarrow> db \<Rightarrow> bool" where
  "evolves d d' \<longleftrightarrow>
     db_schema d' = db_schema d \<and> db_accounts d' = db_accounts d \<and>
     db_instruments d' = db_instruments d \<and>
     map m_id (db_members d') = map m_id (db_members d) \<and>
     db_next_uuid d \<le> db_next_uuid d' \<and>
     grows db_journals d d' \<and> grows db_entries d d' \<and> grows db_transitions d d' \<and>
     grows db_obligations d d' \<and> grows db_prices d d' \<and> grows db_steps d d' \<and>
     grows db_processed d d' \<and> grows db_dead_letters d d' \<and>
     grows (\<lambda>d. map trade_terms (db_trades d)) d d' \<and>
     grows (\<lambda>d. map leg_terms (db_novated d)) d d' \<and>
     grows (\<lambda>d. map instruction_terms (db_instructions d)) d d' \<and>
     (ledger_wf d \<longrightarrow> ledger_wf d') \<and> (ids_wf d \<longrightarrow> ids_wf d') \<and>
     (all_confirmed d \<longrightarrow> all_confirmed d') \<and> (checked d \<longrightarrow> checked d') \<and>
     (linked d \<longrightarrow> linked d')"

interpretation ev: tx_relation evolves
proof
  show "evolves d d" for d by (simp add: evolves_def grows_def)
  show "evolves d e \<Longrightarrow> evolves e f \<Longrightarrow> evolves d f" for d e f
    unfolding evolves_def grows_def
    by (elim conjE, intro conjI; (blast intro: prefix_order.trans | simp))
qed

lemma prefix_refl_append [simp]: "prefix xs (xs @ ys)"
  by (simp add: prefix_def)

subsection \<open>Each statement evolves the database\<close>

lemma checked_frame [simp]:
  "checked (db_instruments_update f1 d) = checked d"
  "checked (db_accounts_update f2 d) = checked d"
  "checked (db_entries_update f3 d) = checked d"
  "checked (db_obligations_update f4 d) = checked d"
  "checked (db_outbox_update f5 d) = checked d"
  "checked (db_transitions_update f6 d) = checked d"
  "checked (db_prices_update f7 d) = checked d"
  "checked (db_latest_prices_update f8 d) = checked d"
  "checked (db_processed_update f9 d) = checked d"
  "checked (db_dead_letters_update f10 d) = checked d"
  "checked (db_deferred_update f11 d) = checked d"
  "checked (db_next_uuid_update f12 d) = checked d"
  "checked (db_now_update f13 d) = checked d"
  by (simp_all add: checked_def)

lemma linked_frame [simp]:
  "linked (db_journals_update f1 d) = linked d"
  "linked (db_accounts_update f2 d) = linked d"
  "linked (db_entries_update f3 d) = linked d"
  "linked (db_outbox_update f4 d) = linked d"
  "linked (db_transitions_update f5 d) = linked d"
  "linked (db_prices_update f6 d) = linked d"
  "linked (db_latest_prices_update f7 d) = linked d"
  "linked (db_processed_update f8 d) = linked d"
  "linked (db_dead_letters_update f9 d) = linked d"
  "linked (db_deferred_update f10 d) = linked d"
  "linked (db_next_uuid_update f11 d) = linked d"
  "linked (db_now_update f12 d) = linked d"
  "linked (db_requirements_update f13 d) = linked d"
  "linked (db_calls_update f14 d) = linked d"
  by (simp_all add: linked_def has_instrument_def has_member_def has_trade_def has_cycle_def has_default_def)

lemma ledger_wf_frame [simp]:
  "ledger_wf (db_schema_update f1 d) = ledger_wf d"
  "ledger_wf (db_members_update f2 d) = ledger_wf d"
  "ledger_wf (db_instruments_update f3 d) = ledger_wf d"
  "ledger_wf (db_trades_update f4 d) = ledger_wf d"
  "ledger_wf (db_novated_update f5 d) = ledger_wf d"
  "ledger_wf (db_requirements_update f6 d) = ledger_wf d"
  "ledger_wf (db_calls_update f7 d) = ledger_wf d"
  "ledger_wf (db_cycles_update f8 d) = ledger_wf d"
  "ledger_wf (db_obligations_update f9 d) = ledger_wf d"
  "ledger_wf (db_instructions_update f10 d) = ledger_wf d"
  "ledger_wf (db_outbox_update f11 d) = ledger_wf d"
  "ledger_wf (db_transitions_update f12 d) = ledger_wf d"
  "ledger_wf (db_prices_update f13 d) = ledger_wf d"
  "ledger_wf (db_latest_prices_update f14 d) = ledger_wf d"
  "ledger_wf (db_defaults_update f15 d) = ledger_wf d"
  "ledger_wf (db_steps_update f16 d) = ledger_wf d"
  "ledger_wf (db_processed_update f17 d) = ledger_wf d"
  "ledger_wf (db_dead_letters_update f18 d) = ledger_wf d"
  "ledger_wf (db_next_uuid_update f19 d) = ledger_wf d"
  "ledger_wf (db_now_update f20 d) = ledger_wf d"
  by (simp_all add: ledger_wf_def has_journal_def has_account_def journal_balanced_def
      journal_entries_of_def)

lemma ledger_wf_journals [simp]:
  "prefix (db_journals d) js \<Longrightarrow> ledger_wf d \<Longrightarrow> ledger_wf (d\<lparr>db_journals := js\<rparr>)"
  by (auto simp: ledger_wf_def has_journal_def has_account_def journal_balanced_def
      journal_entries_of_def prefix_def bex_Un)

text \<open>An entry joins a journal that is thereby queued for the trigger.\<close>

lemma ledger_wf_entry:
  assumes "ledger_wf d" "entry_valid e" "has_journal (je_journal_id e) d"
    "has_account (je_account_id e) d"
  shows "ledger_wf (d\<lparr>db_entries := db_entries d @ [e],
                      db_deferred := db_deferred d @ [je_journal_id e]\<rparr>)"
  using assms
  by (auto simp: ledger_wf_def has_journal_def has_account_def journal_balanced_def
      journal_entries_of_def)

lemma ledger_wf_commit:
  assumes "ledger_wf d" "\<And>j. j \<in> set (db_deferred d) \<Longrightarrow> journal_balanced d j"
  shows "ledger_wf (d\<lparr>db_deferred := []\<rparr>)" and "journal_balanced d j"
  using assms
  by (auto simp: ledger_wf_def has_journal_def has_account_def journal_balanced_def
      journal_entries_of_def)

lemma map_update_terms:
  "(\<And>r. f (g r) = f r) \<Longrightarrow> map f (update_where p g rows) = map f rows"
  by (simp add: map_update_where)

lemma terms_simps [simp]:
  "trade_terms (t_status_update f t) = trade_terms t"
  "leg_terms (n_status_update g n) = leg_terms n"
  "instruction_terms (si_status_update h i) = instruction_terms i"
  "instruction_terms (si_tx_hash_update k i) = instruction_terms i"
  "instruction_terms (si_block_number_update b i) = instruction_terms i"
  "instruction_terms (si_confirmations_update c i) = instruction_terms i"
  by (simp_all add: trade_terms_def leg_terms_def instruction_terms_def)

lemma bex_update_where:
  "(\<exists>r \<in> set (update_where p f rows). P r) \<longleftrightarrow> (\<exists>r \<in> set rows. if p r then P (f r) else P r)"
  by (induction rows) auto

lemma ball_update_where:
  "(\<forall>r \<in> set (update_where p f rows). P r) \<longleftrightarrow> (\<forall>r \<in> set rows. if p r then P (f r) else P r)"
  by (induction rows) auto

lemmas evolve_simps = evolves_def grows_def ids_wf_def all_confirmed_def checked_def linked_def tx_simps store_defs
  Let_def map_update_terms ball_update_where bex_update_where has_member_def has_trade_def has_cycle_def
  has_default_def has_instruction_def has_instrument_def

lemma ev_fresh_uuid: "across evolves fresh_uuid"
  by (rule acrossI) (auto simp: evolve_simps split: if_splits)

lemma ev_insert_journal: "across evolves (insert_journal jt rt rid ''confirmed'')"
  by (rule acrossI) (auto simp: evolve_simps split: if_splits)

lemma ev_insert_trade: "across evolves (insert_trade ext i b s q p st)"
  by (rule acrossI) (auto simp: evolve_simps split: if_splits)

lemma ev_update_trade_status: "across evolves (update_trade_status t st)"
  by (rule acrossI) (auto simp: evolve_simps split: if_splits)

lemma ev_insert_novated: "across evolves (insert_novated t m i sd q p)"
  by (rule acrossI) (auto simp: evolve_simps split: if_splits)

lemma ev_update_novated_status: "across evolves (update_novated_status p st)"
  by (rule acrossI) (auto simp: evolve_simps filter_empty_conv split: if_splits)

lemma ev_upsert_requirement: "across evolves (upsert_requirement m i mt x)"
  by (rule acrossI) (auto simp: evolve_simps split: if_splits)

lemma ev_add_posted_amount: "across evolves (add_posted_amount m mt x)"
  by (rule acrossI) (auto simp: evolve_simps split: if_splits)

lemma ev_insert_call: "across evolves (insert_call m r x dl)"
  by (rule acrossI) (auto simp: evolve_simps split: if_splits)

lemma ev_insert_cycle: "across evolves (insert_cycle ct st co)"
  by (rule acrossI) (auto simp: evolve_simps split: if_splits)

lemma ev_update_cycle_status: "across evolves (update_cycle_status c st)"
  by (rule acrossI) (auto simp: evolve_simps split: if_splits)

lemma ev_insert_obligation: "across evolves (insert_obligation c m i q x s)"
  by (rule acrossI) (auto simp: evolve_simps split: if_splits)

lemma ev_insert_instruction: "across evolves (insert_instruction c f t i q x ty st)"
  by (rule acrossI) (auto simp: evolve_simps split: if_splits)

lemma ev_update_instruction_status: "across evolves (update_instruction_status s st)"
  by (rule acrossI) (auto simp: evolve_simps split: if_splits)

lemma ev_update_instruction_tx_hash: "across evolves (update_instruction_tx_hash s h)"
  by (rule acrossI) (auto simp: evolve_simps split: if_splits)

lemma ev_update_instruction_block: "across evolves (update_instruction_block s b c)"
  by (rule acrossI) (auto simp: evolve_simps split: if_splits)

lemma ev_insert_outbox_row: "across evolves (insert_outbox_row aty aid et tp p tid)"
  by (rule acrossI) (auto simp: evolve_simps split: if_splits)

lemma ev_insert_transition: "across evolves (insert_transition r)"
  by (rule acrossI) (auto simp: evolve_simps split: if_splits)

lemma ev_insert_price: "across evolves (insert_price i p src)"
  by (rule acrossI) (auto simp: evolve_simps split: if_splits)

lemma ev_insert_default: "across evolves (insert_default m r x st)"
  by (rule acrossI) (auto simp: evolve_simps split: if_splits)

lemma ev_resolve_default: "across evolves (resolve_default e st)"
  by (rule acrossI) (auto simp: evolve_simps split: if_splits)

lemma ev_insert_step: "across evolves (insert_step ev n st a b c j)"
  by (rule acrossI) (auto simp: evolve_simps split: if_splits)

lemma ev_insert_processed: "across evolves (insert_processed sv e r)"
  by (rule acrossI) (auto simp: evolve_simps split: if_splits)

lemma ev_update_member_status: "across evolves (update_member_status m st)"
  by (rule acrossI) (auto simp: evolve_simps split: if_splits)

lemma insert_entry_Inr:
  "insert_entry jid a dr cr d = Inr (u, d') \<longleftrightarrow>
     num_fits (num_round dr) \<and> num_fits (num_round cr) \<and>
     ((0 < num_round dr \<and> num_round cr = 0) \<or> (num_round dr = 0 \<and> 0 < num_round cr)) \<and>
     has_journal jid d \<and> has_account a d \<and>
     d' = d\<lparr>db_entries := db_entries d @ [\<lparr>je_journal_id = jid, je_account_id = a,
        je_debit = num_round dr, je_credit = num_round cr\<rparr>],
        db_deferred := db_deferred d @ [jid]\<rparr>"
  by (auto simp: insert_entry_def numeric_def foreign_key_def tx_simps split: if_splits)

lemma ev_insert_entry: "across evolves (insert_entry jid a dr cr)"
proof (rule acrossI)
  fix d x d'
  assume "insert_entry jid a dr cr d = Inr (x, d')"
  then have fits: "num_fits (num_round dr)" "num_fits (num_round cr)"
    and sides: "(0 < num_round dr \<and> num_round cr = 0) \<or> (num_round dr = 0 \<and> 0 < num_round cr)"
    and refs: "has_journal jid d" "has_account a d"
    and d': "d' = d\<lparr>db_entries := db_entries d @ [\<lparr>je_journal_id = jid, je_account_id = a,
        je_debit = num_round dr, je_credit = num_round cr\<rparr>],
        db_deferred := db_deferred d @ [jid]\<rparr>"
    by (auto simp: insert_entry_def numeric_def foreign_key_def tx_simps split: if_splits)
  have "entry_valid \<lparr>je_journal_id = jid, je_account_id = a,
      je_debit = num_round dr, je_credit = num_round cr\<rparr>"
    using fits sides by (auto simp: entry_valid_def num_valued_def num_round_idem)
  from ledger_wf_entry [of d, OF _ this] refs have "ledger_wf d \<longrightarrow> ledger_wf d'"
    by (simp add: d')
  then show "evolves d d'" by (simp add: d' evolves_def grows_def ids_wf_def all_confirmed_def)
qed

lemma commit_Inr:
  "commit d = Inr ((), d') \<longleftrightarrow>
     (\<forall>j \<in> set (db_deferred d). journal_balanced d j) \<and> d' = d\<lparr>db_deferred := []\<rparr>"
proof -
  have val: "validate_journal_balance j e = (if journal_balanced e j then Inr ((), e)
      else Inl (UnbalancedJournal j))" for j e
    by (simp add: validate_journal_balance_def run_simps)
  have run: "for_tx validate_journal_balance js e =
      (if \<forall>j \<in> set js. journal_balanced e j then Inr (replicate (length js) (), e)
       else Inl (UnbalancedJournal (hd (filter (\<lambda>j. \<not> journal_balanced e j) js))))" for js e
    by (induction js) (auto simp: val run_simps)
  show ?thesis by (auto simp: commit_def run tx_simps)
qed

lemma ev_commit: "across evolves commit"
  by (rule acrossI)
    (auto simp: commit_Inr evolves_def grows_def ids_wf_def all_confirmed_def dest: ledger_wf_commit(1))

theorem commit_balances:
  assumes "ledger_wf d" "commit d = Inr ((), d')"
  shows "ledger_committed d'"
  using assms ledger_wf_commit [of d] by (auto simp: commit_Inr ledger_committed_def)

lemmas ev_statements = ev_fresh_uuid ev_insert_journal ev_insert_entry ev_commit ev_insert_trade
  ev_update_trade_status ev_insert_novated ev_update_novated_status ev_upsert_requirement
  ev_add_posted_amount ev_insert_call ev_insert_cycle ev_update_cycle_status
  ev_insert_obligation ev_insert_instruction ev_update_instruction_status
  ev_update_instruction_tx_hash ev_update_instruction_block ev_insert_outbox_row
  ev_insert_transition ev_insert_price ev_insert_default ev_resolve_default ev_insert_step
  ev_insert_processed ev_update_member_status

text \<open>What the proofs for the services' operations use: \<open>auto intro!: evolving\<close>.\<close>

named_theorems evolving "operations that evolve the database"

lemmas ev_basics [evolving] = ev.across_rules ev_statements

subsection \<open>Two-legged postings\<close>

text \<open>
  The services write every journal of theirs as one debit and one credit of the same amount
  (two \<open>INSERT INTO journal_entries\<close>): \<open>post_pair\<close> is that pair of statements.
\<close>

definition post_pair :: "uuid \<Rightarrow> uuid \<Rightarrow> uuid \<Rightarrow> rat \<Rightarrow> unit ccp" where
  "post_pair jid debit_account credit_account amount =
     bind_tx (insert_entry jid debit_account amount 0) (\<lambda>_.
     insert_entry jid credit_account 0 amount)"

definition pair_entries :: "uuid \<Rightarrow> uuid \<Rightarrow> uuid \<Rightarrow> rat \<Rightarrow> entry_row list" where
  "pair_entries jid a b x =
     [\<lparr>je_journal_id = jid, je_account_id = a, je_debit = x, je_credit = 0\<rparr>,
      \<lparr>je_journal_id = jid, je_account_id = b, je_debit = 0, je_credit = x\<rparr>]"

lemma post_pair_Inr:
  "post_pair jid a b x d = Inr ((), d') \<longleftrightarrow>
     num_fits (num_round x) \<and> 0 < num_round x \<and> has_journal jid d \<and> has_account a d \<and>
     has_account b d \<and>
     d' = d\<lparr>db_entries := db_entries d @ pair_entries jid a b (num_round x),
            db_deferred := db_deferred d @ [jid, jid]\<rparr>"
  by (auto simp: post_pair_def pair_entries_def insert_entry_def numeric_def foreign_key_def
      tx_simps num_fits_def has_journal_def has_account_def split: if_splits)

lemma ev_post_pair [evolving]: "across evolves (post_pair jid a b x)"
  unfolding post_pair_def by (auto intro!: evolving)

lemma balance_post_pair:
  assumes "post_pair jid a b x d = Inr ((), d')" "a \<noteq> b"
  shows "acct_balance d' a = acct_balance d a + num_round x"
    and "acct_balance d' b = acct_balance d b - num_round x"
    and "c \<noteq> a \<Longrightarrow> c \<noteq> b \<Longrightarrow> acct_balance d' c = acct_balance d c"
  using assms by (auto simp: post_pair_Inr acct_balance_def pair_entries_def)

text \<open>A pair leaves every journal that balanced balanced.\<close>

lemma balanced_post_pair:
  assumes "post_pair jid a b x d = Inr ((), d')"
  shows "journal_balanced d' j = journal_balanced d j"
  using assms
  by (auto simp: post_pair_Inr journal_balanced_def journal_entries_of_def pair_entries_def)

subsection \<open>Connections\<close>

text \<open>
  \<open>with psycopg.connect(dsn) as conn: body; conn.commit()\<close>: an exception of the body or of
  the deferred trigger rolls everything back and propagates.
\<close>

definition with_connection :: "'a ccp \<Rightarrow> 'a ccp" where
  "with_connection body = bind_tx body (\<lambda>x. bind_tx commit (\<lambda>_. return_tx x))"

text \<open>The state after the caller has logged the exception and gone on.\<close>

definition state_after :: "'a ccp \<Rightarrow> db \<Rightarrow> db" where
  "state_after m d = (case m d of Inl _ \<Rightarrow> d | Inr (_, d') \<Rightarrow> d')"

lemma ev_with_connection [evolving]: "across evolves m \<Longrightarrow> across evolves (with_connection m)"
  unfolding with_connection_def by (auto intro!: evolving)

lemma ev_state_after: "across evolves m \<Longrightarrow> evolves d (state_after m d)"
  by (auto simp: state_after_def dest: acrossD split: sum.splits prod.splits)

lemma with_connection_committed:
  assumes "across evolves m" "ledger_wf d" "with_connection m d = Inr (x, d')"
  shows "ledger_committed d'"
proof -
  from assms(3) obtain e where e: "m d = Inr (x, e)" "commit e = Inr ((), d')"
    by (auto simp: with_connection_def tx_simps)
  from acrossD [OF assms(1) e(1)] assms(2) have "ledger_wf e" by (simp add: evolves_def)
  then show ?thesis using e(2) by (rule commit_balances)
qed

lemma state_after_committed:
  assumes "across evolves m" "ledger_committed d"
  shows "ledger_committed (state_after (with_connection m) d)"
  using assms with_connection_committed [OF assms(1), of d]
  by (auto simp: state_after_def ledger_committed_def split: sum.splits prod.splits)

end
