(* ===== verification/Shared.thy ===== *)
theory Shared
  imports Ledger
begin

section \<open>Shared library: trace contexts, transactional outbox, idempotent consumption\<close>

text \<open>
  \<open>ccp_shared/trace.py\<close>, \<open>kafka/outbox.py\<close> and \<open>idempotency.py\<close>. The locale \<open>dedup\<close> is the
  contract between the deduplication table and the consumers: an event is new exactly once. It
  is interpreted by \<open>process_if_new\<close>, and \<open>handle_once\<close>, the skeleton of every consumer's
  \<open>handle_message\<close>, inherits that a redelivered event changes nothing.
\<close>

subsection \<open>\<open>TraceContext\<close>\<close>

record trace_context =
  tr_trace_id :: uuid
  tr_actor :: string
  tr_parent_event_id :: "uuid option"

text \<open>The default argument \<open>str(uuid.uuid4())\<close> is evaluated whether it is used or not.\<close>

definition from_request :: "payload \<Rightarrow> trace_context ccp" where
  "from_request headers =
     bind_tx fresh_uuid (\<lambda>u. return_tx
       \<lparr>tr_trace_id = (case pget_id headers ''x-trace-id'' of Some t \<Rightarrow> t | None \<Rightarrow> u),
        tr_actor = (case pget_str headers ''x-actor'' of Some a \<Rightarrow> a | None \<Rightarrow> ''anonymous''),
        tr_parent_event_id = None\<rparr>)"

definition from_kafka_payload :: "payload \<Rightarrow> trace_context ccp" where
  "from_kafka_payload p =
     bind_tx fresh_uuid (\<lambda>u. return_tx
       \<lparr>tr_trace_id = (case pget_id p ''trace_id'' of Some t \<Rightarrow> t | None \<Rightarrow> u),
        tr_actor = (case pget_str p ''actor'' of Some a \<Rightarrow> a | None \<Rightarrow> ''system''),
        tr_parent_event_id = pget_id p ''event_id''\<rparr>)"

definition new_system :: "string \<Rightarrow> trace_context ccp" where
  "new_system service =
     bind_tx fresh_uuid (\<lambda>u. return_tx
       \<lparr>tr_trace_id = u, tr_actor = ''system:'' @ service, tr_parent_event_id = None\<rparr>)"

definition trace_to_dict :: "trace_context \<Rightarrow> payload" where
  "trace_to_dict t =
     [(''trace_id'', PId (tr_trace_id t)), (''actor'', PStr (tr_actor t)),
      (''parent_event_id'',
         case tr_parent_event_id t of None \<Rightarrow> PNone | Some e \<Rightarrow> PId e)]"

lemma trace_evolves [evolving]:
  "across evolves (from_request h)" "across evolves (from_kafka_payload p)"
  "across evolves (new_system s)"
  unfolding from_request_def from_kafka_payload_def new_system_def by (auto intro!: evolving)

lemma new_system_Inr:
  "new_system s d = Inr (t, d') \<longleftrightarrow> d' = d\<lparr>db_next_uuid := Suc (db_next_uuid d)\<rparr> \<and>
     t = \<lparr>tr_trace_id = db_next_uuid d, tr_actor = ''system:'' @ s, tr_parent_event_id = None\<rparr>"
  by (auto simp: new_system_def fresh_uuid_def tx_simps)

lemma trace_case_Inr:
  "(case tr of None \<Rightarrow> new_system s | Some t \<Rightarrow> return_tx t) d = Inr (t, d') \<Longrightarrow>
   \<exists>n. d' = d\<lparr>db_next_uuid := n\<rparr>"
  by (cases tr) (auto simp: new_system_Inr tx_simps intro: exI [of _ "db_next_uuid d"])

text \<open>
  A consumer that puts \<open>to_dict\<close> of its context in a payload hands the next consumer the same
  trace and actor.
\<close>

lemma trace_roundtrip:
  "\<exists>d'. from_kafka_payload (trace_to_dict t) d =
     Inr (\<lparr>tr_trace_id = tr_trace_id t, tr_actor = tr_actor t, tr_parent_event_id = None\<rparr>, d')"
  by (auto simp: from_kafka_payload_def trace_to_dict_def pget_id_def pget_str_def pget_def
      fresh_uuid_def bind_tx_def return_tx_def)

subsection \<open>The transactional outbox\<close>

definition outbox_payload :: "payload \<Rightarrow> uuid \<Rightarrow> uuid option \<Rightarrow> payload" where
  "outbox_payload p eid tid =
     (let p' = pset ''event_id'' (PId eid) p in
      case tid of None \<Rightarrow> p' | Some t \<Rightarrow> pset ''trace_id'' (PId t) p')"

definition insert_outbox_event ::
    "string \<Rightarrow> uuid \<Rightarrow> string \<Rightarrow> string \<Rightarrow> payload \<Rightarrow> uuid option \<Rightarrow> uuid ccp" where
  "insert_outbox_event atype aid etype topic p tid =
     bind_tx fresh_uuid (\<lambda>eid.
     bind_tx (insert_outbox_row atype aid etype topic (outbox_payload p eid tid) tid) (\<lambda>_.
     return_tx eid))"

lemma ev_insert_outbox_event [evolving]:
  "across evolves (insert_outbox_event at' aid et tp p tid)"
  unfolding insert_outbox_event_def by (auto intro!: evolving)

text \<open>An outbox insert never fails: it has no constraint, and the caller's data is not checked.\<close>

lemma insert_outbox_event_eq:
  "insert_outbox_event atype aid etype topic p tid d =
     Inr (db_next_uuid d,
       d\<lparr>db_next_uuid := Suc (Suc (db_next_uuid d)),
         db_outbox := db_outbox d @
          [\<lparr>ob_id = Suc (db_next_uuid d), ob_aggregate_type = atype, ob_aggregate_id = aid,
            ob_event_type = etype, ob_topic = topic,
            ob_payload = outbox_payload p (db_next_uuid d) tid, ob_trace_id = tid,
            ob_created_at = db_now d, ob_published_at = None\<rparr>]\<rparr>)"
  by (simp add: insert_outbox_event_def insert_outbox_row_def fresh_uuid_def run_simps)

lemma outbox_payload_get:
  "pget (outbox_payload p eid tid) k =
     (if k = ''trace_id'' \<and> tid \<noteq> None then Some (PId (the tid))
      else if k = ''event_id'' then Some (PId eid) else pget p k)"
  by (auto simp: outbox_payload_def Let_def split: option.splits)

subsection \<open>State transitions\<close>

text \<open>
  The \<open>_insert_state_transition\<close> helpers of the services differ in the name of the service
  and in whether they have a \<open>reason\<close> column.
\<close>

definition service_transition ::
    "string \<Rightarrow> string \<Rightarrow> uuid \<Rightarrow> string option \<Rightarrow> string \<Rightarrow> pval option \<Rightarrow> trace_context \<Rightarrow> unit ccp" where
  "service_transition service etype eid from_st to_st reason t =
     insert_transition
       \<lparr>st_entity_type = etype, st_entity_id = eid, st_from_status = from_st,
        st_to_status = to_st, st_reason = reason,
        st_transitioned_by = service @ '':'' @ tr_actor t,
        st_trace_id = Some (tr_trace_id t), st_actor = Some (tr_actor t)\<rparr>"

lemma ev_service_transition [evolving]:
  "across evolves (service_transition s et e f t' r t)"
  unfolding service_transition_def by (auto intro!: evolving)

subsection \<open>Idempotent consumption\<close>

definition process_if_new :: "string \<Rightarrow> uuid \<Rightarrow> bool ccp" where
  "process_if_new service event =
     bind_tx (insert_processed service event None) (\<lambda>n. return_tx (0 < n))"

definition processed :: "string \<Rightarrow> uuid \<Rightarrow> db \<Rightarrow> bool" where
  "processed service event d \<longleftrightarrow>
     (\<exists>r \<in> set (db_processed d). pe_service_name r = service \<and> pe_event_id r = event)"

locale dedup =
  fixes mark :: "'e \<Rightarrow> ('s, 'x, bool) tx"
    and seen :: "'e \<Rightarrow> 's \<Rightarrow> bool"
  assumes mark_new: "\<not> seen e s \<Longrightarrow> \<exists>t. mark e s = Inr (True, t) \<and> seen e t"
    and mark_seen: "seen e s \<Longrightarrow> mark e s = Inr (False, s)"
begin

lemma mark_total: "\<exists>t. mark e s = Inr (\<not> seen e s, t) \<and> seen e t"
proof (cases "seen e s")
  case True
  with mark_seen [OF True] show ?thesis by simp
next
  case False
  with mark_new [OF False] show ?thesis by simp
qed

text \<open>Whatever is done to an event that is new, its second delivery takes the other branch.\<close>

lemma second_delivery:
  assumes "bind_tx (mark e) (\<lambda>new. if new then body else skip) s = Inr (x, t)"
    and "\<And>s x t. seen e s \<Longrightarrow> body s = Inr (x, t) \<Longrightarrow> seen e t"
    and "\<And>s x t. seen e s \<Longrightarrow> skip s = Inr (x, t) \<Longrightarrow> seen e t"
  shows "bind_tx (mark e) (\<lambda>new. if new then body' else skip') t = skip' t"
proof -
  from mark_total [of e s] obtain u where u: "mark e s = Inr (\<not> seen e s, u)" "seen e u"
    by (elim exE conjE)
  with assms(1) have "(if \<not> seen e s then body else skip) u = Inr (x, t)"
    by (simp add: bind_tx_def)
  with assms(2) [OF u(2)] assms(3) [OF u(2)] have "seen e t" by (cases "seen e s") simp_all
  then show ?thesis by (simp add: mark_seen bind_tx_def)
qed

end

lemma process_if_new_eq:
  "process_if_new service event d =
     (if processed service event d then Inr (False, d)
      else Inr (True, d\<lparr>db_processed := db_processed d @
        [\<lparr>pe_service_name = service, pe_event_id = event, pe_reference_id = None\<rparr>]\<rparr>))"
  by (simp add: process_if_new_def insert_processed_def processed_def run_simps)

interpretation pe: dedup "process_if_new service" "processed service" for service
  by unfold_locales (simp_all add: process_if_new_eq processed_def)

lemma ev_process_if_new [evolving]: "across evolves (process_if_new s e)"
  unfolding process_if_new_def by (auto intro!: evolving)

lemma processed_evolves: "processed s e d \<Longrightarrow> evolves d d' \<Longrightarrow> processed s e d'"
  by (auto simp: processed_def evolves_def grows_def prefix_def bex_Un)

text \<open>
  The body of the consumers' \<open>handle_message\<close>: a message without an event id is processed
  every time it is delivered.
\<close>

definition handle_once :: "string \<Rightarrow> uuid option \<Rightarrow> unit ccp \<Rightarrow> unit ccp" where
  "handle_once service event body =
     (case event of
        None \<Rightarrow> bind_tx body (\<lambda>_. commit)
      | Some e \<Rightarrow> bind_tx (process_if_new service e) (\<lambda>new.
          if new then bind_tx body (\<lambda>_. commit) else commit))"

lemma ev_handle_once [evolving]: "across evolves m \<Longrightarrow> across evolves (handle_once s e m)"
  unfolding handle_once_def by (cases e) (auto intro!: evolving)

lemma handle_once_committed:
  assumes "across evolves m" "ledger_wf d" "handle_once s e m d = Inr (x, d')"
  shows "ledger_committed d'"
proof -
  have "\<exists>c. evolves d c \<and> commit c = Inr ((), d')"
  proof (cases e)
    case None
    with assms(3) obtain c where "m d = Inr ((), c)" "commit c = Inr ((), d')"
      by (auto simp: handle_once_def tx_simps)
    then show ?thesis using acrossD [OF assms(1)] by blast
  next
    case (Some ev)
    obtain b c where c: "process_if_new s ev d = Inr (b, c)"
      using pe.mark_total [of s ev d] by blast
    have "evolves d c" using acrossD [OF ev_process_if_new c] .
    moreover have "\<exists>c'. evolves c c' \<and> commit c' = Inr ((), d')"
    proof (cases b)
      case True
      with assms(3) Some c obtain c' where "m c = Inr ((), c')" "commit c' = Inr ((), d')"
        by (auto simp: handle_once_def tx_simps)
      then show ?thesis using acrossD [OF assms(1)] by blast
    next
      case False
      with assms(3) Some c have "commit c = Inr ((), d')"
        by (simp add: handle_once_def bind_tx_def)
      then show ?thesis using ev.refl by blast
    qed
    ultimately show ?thesis by (meson ev.trans)
  qed
  then obtain c where "evolves d c" "commit c = Inr ((), d')" by blast
  then show ?thesis using assms(2) commit_balances by (auto simp: evolves_def)
qed

text \<open>A redelivery of a handled event is a bare commit, in every later state.\<close>

lemma handle_once_marks:
  assumes "across evolves m" "handle_once s (Some e) m d = Inr (x, d')"
  shows "processed s e d'"
proof -
  obtain b c where c: "process_if_new s e d = Inr (b, c)" "processed s e c"
    using pe.mark_total [of s e d] by blast
  with assms(2) have "(if b then bind_tx m (\<lambda>_. commit) else commit) c = Inr (x, d')"
    by (simp add: handle_once_def bind_tx_def)
  moreover have "across evolves (if b then bind_tx m (\<lambda>_. commit) else commit)"
    using assms(1) by (auto intro!: evolving)
  ultimately have "evolves c d'" by (metis acrossD)
  then show ?thesis using c(2) by (rule processed_evolves [rotated])
qed

lemma handle_once_redelivery:
  assumes "processed s e d" "db_deferred d = []"
  shows "handle_once s (Some e) m d = Inr ((), d)"
  using assms commit_Inr [of d d] by (simp add: handle_once_def bind_tx_def process_if_new_eq)

end
