(* ===== verification/Novation.thy ===== *)
theory Novation
  imports Shared
begin

section \<open>Trade ingestion: validation, novation, rejection\<close>

text \<open>
  \<open>services/trade-ingestion/src/trade_ingestion/novation.py\<close> and \<open>consumer.py\<close>. A submitted
  trade is validated and replaced by two legs against the clearing house; any failure of that
  rejects it. A payload value that is not of the type the gateway writes is treated as missing
  (an id) or as not a number (an amount).
\<close>

subsection \<open>Reading a payload\<close>

definition need_id :: "payload \<Rightarrow> string \<Rightarrow> uuid ccp" where
  "need_id p k = (case pget_id p k of Some u \<Rightarrow> return_tx u | None \<Rightarrow> raise_tx (KeyError k))"

text \<open>\<open>Decimal(str(p[k]))\<close>: any finite decimal, not rounded.\<close>

definition need_dec :: "payload \<Rightarrow> string \<Rightarrow> rat ccp" where
  "need_dec p k =
     (case pget p k of
        None \<Rightarrow> raise_tx (KeyError k)
      | Some (PDec x) \<Rightarrow> return_tx x
      | Some _ \<Rightarrow> raise_tx InvalidOperation)"

lemma ev_need [evolving]: "across evolves (need_id p k)" "across evolves (need_dec p k)"
  unfolding need_id_def need_dec_def by (auto intro!: evolving split: option.split pval.split)

subsection \<open>Validation\<close>

definition verify_member_active :: "uuid \<Rightarrow> string \<Rightarrow> unit ccp" where
  "verify_member_active m role =
     bind_tx (gets_tx (\<lambda>d. fetchone (\<lambda>r. m_id r = m) (db_members d))) (\<lambda>row.
     case row of
       None \<Rightarrow> raise_tx (ValidationError [PStr ''Member'', PStr role, PId m, PStr ''not found''])
     | Some r \<Rightarrow> guard_tx (m_status r = ''active'')
         (ValidationError [PStr ''Member'', PStr role, PId m, PStr ''status is'', PStr (m_status r),
           PStr ''expected active'']))"

definition verify_instrument_active :: "uuid \<Rightarrow> unit ccp" where
  "verify_instrument_active i =
     bind_tx (gets_tx (\<lambda>d. fetchone (\<lambda>r. i_id r = i) (db_instruments d))) (\<lambda>row.
     case row of
       None \<Rightarrow> raise_tx (ValidationError [PStr ''Instrument'', PId i, PStr ''not found''])
     | Some r \<Rightarrow> guard_tx (i_is_active r)
         (ValidationError [PStr ''Instrument'', PId i, PStr ''is not active'']))"

definition validate_trade :: "payload \<Rightarrow> unit ccp" where
  "validate_trade p =
     bind_tx (need_id p ''buyer_member_id'') (\<lambda>buyer.
     bind_tx (need_id p ''seller_member_id'') (\<lambda>seller.
     bind_tx (guard_tx (buyer \<noteq> seller)
        (ValidationError [PStr ''Buyer and seller must be different members''])) (\<lambda>_.
     bind_tx (need_dec p ''quantity'') (\<lambda>quantity.
     bind_tx (need_dec p ''price'') (\<lambda>price.
     bind_tx (guard_tx (0 < quantity)
        (ValidationError [PStr ''Quantity must be positive, got'', PDec quantity])) (\<lambda>_.
     bind_tx (guard_tx (0 < price)
        (ValidationError [PStr ''Price must be positive, got'', PDec price])) (\<lambda>_.
     bind_tx (verify_member_active buyer ''buyer'') (\<lambda>_.
     bind_tx (verify_member_active seller ''seller'') (\<lambda>_.
     bind_tx (need_id p ''instrument_id'') (\<lambda>inst.
     verify_instrument_active inst))))))))))"

subsection \<open>Novation\<close>

definition create_novated_trade :: "uuid \<Rightarrow> payload \<Rightarrow> string \<Rightarrow> uuid \<Rightarrow> uuid ccp" where
  "create_novated_trade tid p side m =
     bind_tx (need_id p ''instrument_id'') (\<lambda>inst.
     bind_tx (need_dec p ''quantity'') (\<lambda>quantity.
     bind_tx (need_dec p ''price'') (\<lambda>price.
     insert_novated tid m inst side quantity price)))"

definition fetch_margin_rate :: "uuid \<Rightarrow> rat ccp" where
  "fetch_margin_rate i =
     bind_tx (gets_tx (\<lambda>d. fetchone (\<lambda>r. i_id r = i) (db_instruments d))) (\<lambda>row.
     case row of None \<Rightarrow> raise_tx (TypeError ''NoneType'')
     | Some r \<Rightarrow> return_tx (i_margin_rate_im r))"

definition find_account_or_fail :: "uuid \<Rightarrow> string \<Rightarrow> string \<Rightarrow> uuid ccp" where
  "find_account_or_fail m ty pool =
     bind_tx (gets_tx (find_account m ty pool)) (\<lambda>row.
     case row of None \<Rightarrow> raise_tx (ValidationError
         [PStr ''No'', PStr ty, PStr pool, PStr ''account for member'', PId m])
     | Some a \<Rightarrow> return_tx (a_id a))"

definition lock_margin :: "uuid \<Rightarrow> uuid \<Rightarrow> rat \<Rightarrow> unit ccp" where
  "lock_margin m nid amount =
     bind_tx (find_account_or_fail m ''MARGIN_IM'' ''AVAILABLE'') (\<lambda>available.
     bind_tx (find_account_or_fail m ''MARGIN_IM'' ''LOCKED'') (\<lambda>locked.
     bind_tx (insert_journal ''MARGIN_CALL'' ''novated_trade'' nid ''confirmed'') (\<lambda>jid.
     post_pair jid available locked amount)))"

definition trade_transition ::
    "string \<Rightarrow> uuid \<Rightarrow> string option \<Rightarrow> string \<Rightarrow> trace_context \<Rightarrow> unit ccp" where
  "trade_transition etype eid from_st to_st trace =
     service_transition ''trade-ingestion'' etype eid from_st to_st None trace"

definition verify_trade_submitted :: "uuid \<Rightarrow> unit ccp" where
  "verify_trade_submitted tid =
     bind_tx (gets_tx (\<lambda>d. fetchone (\<lambda>r. t_id r = tid) (db_trades d))) (\<lambda>row.
     case row of
       None \<Rightarrow> raise_tx (ValidationError [PStr ''Trade'', PId tid, PStr ''not found''])
     | Some r \<Rightarrow> guard_tx (t_status r = ''submitted'')
         (ValidationError [PStr ''Trade'', PId tid, PStr ''cannot be novated: status is'',
            PStr (t_status r), PStr ''expected submitted'']))"

definition novate_trade :: "uuid \<Rightarrow> payload \<Rightarrow> trace_context \<Rightarrow> (uuid \<times> uuid) ccp" where
  "novate_trade tid p trace =
     bind_tx (verify_trade_submitted tid) (\<lambda>_.
     bind_tx (update_trade_status tid ''novated'') (\<lambda>_.
     bind_tx (need_id p ''buyer_member_id'') (\<lambda>buyer.
     bind_tx (create_novated_trade tid p ''BUY'' buyer) (\<lambda>buyer_nov.
     bind_tx (need_id p ''seller_member_id'') (\<lambda>seller.
     bind_tx (create_novated_trade tid p ''SELL'' seller) (\<lambda>seller_nov.
     bind_tx (need_id p ''instrument_id'') (\<lambda>inst.
     bind_tx (fetch_margin_rate inst) (\<lambda>rate.
     bind_tx (need_dec p ''quantity'') (\<lambda>quantity.
     bind_tx (need_dec p ''price'') (\<lambda>price.
     let margin_amount = dmul (dmul quantity price) rate in
     bind_tx (lock_margin buyer buyer_nov margin_amount) (\<lambda>_.
     bind_tx (lock_margin seller seller_nov margin_amount) (\<lambda>_.
     bind_tx (trade_transition ''trade'' tid (Some ''submitted'') ''novated'' trace) (\<lambda>_.
     bind_tx (trade_transition ''novated_trade'' buyer_nov None ''open'' trace) (\<lambda>_.
     bind_tx (trade_transition ''novated_trade'' seller_nov None ''open'' trace) (\<lambda>_.
     bind_tx (insert_outbox_event ''trade'' tid ''trade.novated'' ''trades.novated''
        [(''trade_id'', PId tid), (''buyer_novated_id'', PId buyer_nov),
         (''seller_novated_id'', PId seller_nov), (''actor'', PStr (tr_actor trace))]
        (Some (tr_trace_id trace))) (\<lambda>_.
     return_tx (buyer_nov, seller_nov)))))))))))))))))"

definition reject_trade :: "uuid \<Rightarrow> pval \<Rightarrow> trace_context \<Rightarrow> unit ccp" where
  "reject_trade tid reason trace =
     bind_tx (update_trade_status tid ''rejected'') (\<lambda>_.
     bind_tx (trade_transition ''trade'' tid (Some ''submitted'') ''rejected'' trace) (\<lambda>_.
     bind_tx (insert_outbox_event ''trade'' tid ''trade.rejected'' ''trades.rejected''
        [(''trade_id'', PId tid), (''reason'', reason)] (Some (tr_trace_id trace))) (\<lambda>_.
     return_tx ())))"

text \<open>
  The handler catches every exception. Validation only reads and the novation runs in a
  savepoint, so the rejection starts from the state before both.
\<close>

definition process_trade :: "payload \<Rightarrow> trace_context option \<Rightarrow> unit ccp" where
  "process_trade p tr =
     bind_tx (case tr of None \<Rightarrow> new_system ''trade-ingestion'' | Some t \<Rightarrow> return_tx t) (\<lambda>trace.
     bind_tx (need_id p ''trade_id'') (\<lambda>tid.
     catch_tx
       (bind_tx (validate_trade p) (\<lambda>_.
        bind_tx (novate_trade tid p trace) (\<lambda>_.
        return_tx ())))
       (\<lambda>exc. reject_trade tid (exn_str exc) trace)))"

subsection \<open>The consumer of \<open>trades.submitted\<close>\<close>

definition handle_trade_message :: "payload \<Rightarrow> unit ccp" where
  "handle_trade_message value =
     bind_tx (from_kafka_payload value) (\<lambda>trace.
     handle_once ''trade-ingestion'' (pget_id value ''event_id'') (process_trade value (Some trace)))"

subsection \<open>Preservation\<close>

lemma ev_novation_parts [evolving]:
  "across evolves (verify_member_active m role)" "across evolves (verify_instrument_active i)"
  "across evolves (create_novated_trade tid p side m)" "across evolves (fetch_margin_rate i)"
  "across evolves (find_account_or_fail m ty pool)"
  "across evolves (trade_transition et eid f t tr)" "across evolves (verify_trade_submitted tid)"
  unfolding verify_trade_submitted_def verify_member_active_def verify_instrument_active_def create_novated_trade_def
    fetch_margin_rate_def find_account_or_fail_def trade_transition_def
  by (auto intro!: evolving)

lemma ev_validate_trade [evolving]: "across evolves (validate_trade p)"
  unfolding validate_trade_def by (auto intro!: evolving)

lemma ev_lock_margin [evolving]: "across evolves (lock_margin m nid x)"
  unfolding lock_margin_def by (auto intro!: evolving)

lemma ev_novate_trade [evolving]: "across evolves (novate_trade tid p tr)"
  unfolding novate_trade_def Let_def by (auto intro!: evolving)

lemma ev_reject_trade [evolving]: "across evolves (reject_trade tid r tr)"
  unfolding reject_trade_def by (auto intro!: evolving)

lemma ev_process_trade [evolving]: "across evolves (process_trade p tr)"
  unfolding process_trade_def by (auto intro!: evolving)

lemma ev_handle_trade_message [evolving]: "across evolves (handle_trade_message v)"
  unfolding handle_trade_message_def by (auto intro!: evolving)

subsection \<open>The specification of an ingestion\<close>

text \<open>
  When a submitted trade is novated, and the state the novation leads to. The plan collects
  what the code looks up: the parties, the rounded terms, the margin and the four accounts.
\<close>

record novation_plan =
  np_buyer :: uuid
  np_seller :: uuid
  np_instrument :: uuid
  np_quantity :: rat
  np_price :: rat
  np_margin :: rat
  np_buyer_available :: uuid
  np_buyer_locked :: uuid
  np_seller_available :: uuid
  np_seller_locked :: uuid

definition active_member :: "uuid \<Rightarrow> db \<Rightarrow> bool" where
  "active_member m d \<longleftrightarrow>
     (\<exists>r. fetchone (\<lambda>r. m_id r = m) (db_members d) = Some r \<and> m_status r = ''active'')"

definition active_instrument :: "uuid \<Rightarrow> rat \<Rightarrow> db \<Rightarrow> bool" where
  "active_instrument i rate d \<longleftrightarrow>
     (\<exists>r. fetchone (\<lambda>r. i_id r = i) (db_instruments d) = Some r \<and> i_is_active r \<and>
          i_margin_rate_im r = rate)"

definition trade_has_status :: "uuid \<Rightarrow> string \<Rightarrow> db \<Rightarrow> bool" where
  "trade_has_status tid st d \<longleftrightarrow>
     (\<exists>r. fetchone (\<lambda>r. t_id r = tid) (db_trades d) = Some r \<and> t_status r = st)"

definition account_is :: "uuid \<Rightarrow> string \<Rightarrow> string \<Rightarrow> uuid \<Rightarrow> db \<Rightarrow> bool" where
  "account_is m ty pool a d \<longleftrightarrow> (\<exists>r. find_account m ty pool d = Some r \<and> a_id r = a)"

definition amount_ok :: "rat \<Rightarrow> bool" where
  "amount_ok x \<longleftrightarrow> num_fits (num_round x) \<and> 0 < num_round x"

text \<open>The values novation writes into the columns with a \<open>CHECK\<close>.\<close>

definition novation_vocab :: "schema \<Rightarrow> bool" where
  "novation_vocab s \<longleftrightarrow> ''novated'' \<in> set (chk_trade_status s) \<and>
     ''BUY'' \<in> set (chk_novated_side s) \<and> ''SELL'' \<in> set (chk_novated_side s) \<and>
     ''open'' \<in> set (chk_novated_status s) \<and> ''MARGIN_CALL'' \<in> set (chk_journal_type s) \<and>
     ''confirmed'' \<in> set (chk_journal_status s)"

definition valid_trade :: "payload \<Rightarrow> db \<Rightarrow> bool" where
  "valid_trade p d \<longleftrightarrow>
     (\<exists>b s i q x rate. pget_id p ''buyer_member_id'' = Some b \<and>
        pget_id p ''seller_member_id'' = Some s \<and> pget_id p ''instrument_id'' = Some i \<and>
        pget_dec p ''quantity'' = Some q \<and> pget_dec p ''price'' = Some x \<and>
        b \<noteq> s \<and> 0 < q \<and> 0 < x \<and> active_member b d \<and> active_member s d \<and>
        active_instrument i rate d)"

definition can_novate :: "payload \<Rightarrow> uuid \<Rightarrow> db \<Rightarrow> novation_plan \<Rightarrow> bool" where
  "can_novate p tid d np \<longleftrightarrow>
     pget_id p ''buyer_member_id'' = Some (np_buyer np) \<and>
     pget_id p ''seller_member_id'' = Some (np_seller np) \<and>
     pget_id p ''instrument_id'' = Some (np_instrument np) \<and>
     pget_dec p ''quantity'' = Some (np_quantity np) \<and>
     pget_dec p ''price'' = Some (np_price np) \<and>
     np_buyer np \<noteq> np_seller np \<and> 0 < np_quantity np \<and> 0 < np_price np \<and>
     active_member (np_buyer np) d \<and> active_member (np_seller np) d \<and>
     (\<exists>rate. active_instrument (np_instrument np) rate d \<and>
        np_margin np = dmul (dmul (np_quantity np) (np_price np)) rate) \<and>
     trade_has_status tid ''submitted'' d \<and> novation_vocab (db_schema d) \<and>
     num_fits (num_round (np_quantity np)) \<and> num_fits (num_round (np_price np)) \<and>
     amount_ok (np_margin np) \<and>
     account_is (np_buyer np) ''MARGIN_IM'' ''AVAILABLE'' (np_buyer_available np) d \<and>
     account_is (np_buyer np) ''MARGIN_IM'' ''LOCKED'' (np_buyer_locked np) d \<and>
     account_is (np_seller np) ''MARGIN_IM'' ''AVAILABLE'' (np_seller_available np) d \<and>
     account_is (np_seller np) ''MARGIN_IM'' ''LOCKED'' (np_seller_locked np) d"

definition plan_leg :: "novation_plan \<Rightarrow> uuid \<Rightarrow> int \<Rightarrow> uuid \<Rightarrow> string \<Rightarrow> uuid \<Rightarrow> novated_row" where
  "plan_leg np tid now nid side m =
     \<lparr>n_id = nid, n_original_trade_id = tid, n_member_id = m,
      n_instrument_id = np_instrument np, n_side = side,
      n_quantity = num_round (np_quantity np), n_price = num_round (np_price np),
      n_status = ''open'', n_novated_at = now\<rparr>"

definition margin_journal :: "uuid \<Rightarrow> uuid \<Rightarrow> journal_row" where
  "margin_journal jid nid = \<lparr>j_id = jid, j_journal_type = ''MARGIN_CALL'',
     j_reference_type = ''novated_trade'', j_reference_id = Some nid, j_status = ''confirmed''\<rparr>"

definition ingestion_transition ::
    "string \<Rightarrow> uuid \<Rightarrow> string option \<Rightarrow> string \<Rightarrow> trace_context \<Rightarrow> transition_row" where
  "ingestion_transition et eid from_st to_st tr =
     \<lparr>st_entity_type = et, st_entity_id = eid, st_from_status = from_st, st_to_status = to_st,
      st_reason = None, st_transitioned_by = ''trade-ingestion:'' @ tr_actor tr,
      st_trace_id = Some (tr_trace_id tr), st_actor = Some (tr_actor tr)\<rparr>"

definition trade_event ::
    "uuid \<Rightarrow> uuid \<Rightarrow> string \<Rightarrow> string \<Rightarrow> payload \<Rightarrow> trace_context \<Rightarrow> int \<Rightarrow> outbox_row" where
  "trade_event eid tid etype topic p tr now =
     \<lparr>ob_id = Suc eid, ob_aggregate_type = ''trade'', ob_aggregate_id = tid,
      ob_event_type = etype, ob_topic = topic,
      ob_payload = outbox_payload p eid (Some (tr_trace_id tr)),
      ob_trace_id = Some (tr_trace_id tr), ob_created_at = now, ob_published_at = None\<rparr>"

definition set_trade_status :: "uuid \<Rightarrow> string \<Rightarrow> trade_row list \<Rightarrow> trade_row list" where
  "set_trade_status tid st = update_where (\<lambda>r. t_id r = tid) (t_status_update (\<lambda>_. st))"

text \<open>
  The novated state: the trade is \<open>novated\<close>; two open legs against the clearing house with the
  trade's terms, a \<open>BUY\<close> of the buyer and a \<open>SELL\<close> of the seller; one confirmed journal per leg
  with the margin as debit and credit; three transitions; one \<open>trade.novated\<close> event.
\<close>

definition novated_db :: "uuid \<Rightarrow> trace_context \<Rightarrow> novation_plan \<Rightarrow> db \<Rightarrow> db" where
  "novated_db tid tr np d =
     (let n = db_next_uuid d; m = num_round (np_margin np) in
      d\<lparr>db_trades := set_trade_status tid ''novated'' (db_trades d),
        db_novated := db_novated d @
          [plan_leg np tid (db_now d) n ''BUY'' (np_buyer np),
           plan_leg np tid (db_now d) (n + 1) ''SELL'' (np_seller np)],
        db_journals := db_journals d @ [margin_journal (n + 2) n, margin_journal (n + 3) (n + 1)],
        db_entries := db_entries d @
          pair_entries (n + 2) (np_buyer_available np) (np_buyer_locked np) m @
          pair_entries (n + 3) (np_seller_available np) (np_seller_locked np) m,
        db_deferred := db_deferred d @ [n + 2, n + 2, n + 3, n + 3],
        db_transitions := db_transitions d @
          [ingestion_transition ''trade'' tid (Some ''submitted'') ''novated'' tr,
           ingestion_transition ''novated_trade'' n None ''open'' tr,
           ingestion_transition ''novated_trade'' (n + 1) None ''open'' tr],
        db_outbox := db_outbox d @
          [trade_event (n + 4) tid ''trade.novated'' ''trades.novated''
             [(''trade_id'', PId tid), (''buyer_novated_id'', PId n),
              (''seller_novated_id'', PId (n + 1)), (''actor'', PStr (tr_actor tr))] tr (db_now d)],
        db_next_uuid := n + 6\<rparr>)"

definition rejected_db :: "uuid \<Rightarrow> pval \<Rightarrow> trace_context \<Rightarrow> db \<Rightarrow> db" where
  "rejected_db tid reason tr d =
     d\<lparr>db_trades := set_trade_status tid ''rejected'' (db_trades d),
       db_transitions := db_transitions d @
         [ingestion_transition ''trade'' tid (Some ''submitted'') ''rejected'' tr],
       db_outbox := db_outbox d @
         [trade_event (db_next_uuid d) tid ''trade.rejected'' ''trades.rejected''
            [(''trade_id'', PId tid), (''reason'', reason)] tr (db_now d)],
       db_next_uuid := db_next_uuid d + 2\<rparr>"

subsection \<open>The code meets the specification\<close>

lemma need_id_Inr: "need_id p k d = Inr (u, d') \<longleftrightarrow> pget_id p k = Some u \<and> d' = d"
  by (auto simp: need_id_def tx_simps split: option.splits)

lemma need_dec_Inr: "need_dec p k d = Inr (x, d') \<longleftrightarrow> pget_dec p k = Some x \<and> d' = d"
  by (auto simp: need_dec_def pget_dec_def tx_simps split: option.splits pval.splits)

lemma verify_member_active_Inr:
  "verify_member_active m role d = Inr (u, d') \<longleftrightarrow> active_member m d \<and> d' = d"
  by (auto simp: verify_member_active_def active_member_def tx_simps split: option.splits)

lemma verify_instrument_active_Inr:
  "verify_instrument_active i d = Inr (u, d') \<longleftrightarrow> (\<exists>rate. active_instrument i rate d) \<and> d' = d"
  by (auto simp: verify_instrument_active_def active_instrument_def tx_simps split: option.splits)

lemma validate_trade_Inr: "validate_trade p d = Inr (u, d') \<longleftrightarrow> valid_trade p d \<and> d' = d"
  by (auto simp: validate_trade_def valid_trade_def tx_simps need_id_Inr need_dec_Inr
      verify_member_active_Inr verify_instrument_active_Inr)

lemma active_member_has: "active_member m d \<Longrightarrow> has_member m d"
  by (auto simp: active_member_def has_member_def dest: fetchone_Some)

lemma active_instrument_has: "active_instrument i r d \<Longrightarrow> has_instrument i d"
  by (auto simp: active_instrument_def has_instrument_def dest: fetchone_Some)

lemma account_is_has: "account_is m ty pool a d \<Longrightarrow> has_account a d"
  by (auto simp: account_is_def find_account_def has_account_def dest: fetchone_Some)

lemma trade_has_status_has: "trade_has_status tid st d \<Longrightarrow> has_trade tid d"
  by (auto simp: trade_has_status_def has_trade_def dest: fetchone_Some)

lemma insert_novated_Inr:
  "insert_novated tid m i side q x d = Inr (nid, d') \<longleftrightarrow>
     nid = db_next_uuid d \<and> num_fits (num_round q) \<and> num_fits (num_round x) \<and>
     side \<in> set (chk_novated_side (db_schema d)) \<and>
     ''open'' \<in> set (chk_novated_status (db_schema d)) \<and>
     has_trade tid d \<and> has_member m d \<and> has_instrument i d \<and>
     d' = d\<lparr>db_next_uuid := Suc (db_next_uuid d),
       db_novated := db_novated d @
        [\<lparr>n_id = db_next_uuid d, n_original_trade_id = tid, n_member_id = m,
          n_instrument_id = i, n_side = side, n_quantity = num_round q, n_price = num_round x,
          n_status = ''open'', n_novated_at = db_now d\<rparr>]\<rparr>"
  by (auto simp: insert_novated_def fresh_uuid_def numeric_def check_vocab_def foreign_key_def
      has_trade_def has_member_def has_instrument_def tx_simps split: if_splits)

lemma insert_journal_Inr:
  "insert_journal jt rt rid st d = Inr (jid, d') \<longleftrightarrow>
     jid = db_next_uuid d \<and> jt \<in> set (chk_journal_type (db_schema d)) \<and>
     st \<in> set (chk_journal_status (db_schema d)) \<and>
     d' = d\<lparr>db_next_uuid := Suc (db_next_uuid d),
       db_journals := db_journals d @ [\<lparr>j_id = jid, j_journal_type = jt,
          j_reference_type = rt, j_reference_id = Some rid, j_status = st\<rparr>]\<rparr>"
  by (auto simp: insert_journal_def fresh_uuid_def check_vocab_def tx_simps)

lemma find_account_or_fail_Inr:
  "find_account_or_fail m ty pool d = Inr (a, d') \<longleftrightarrow> account_is m ty pool a d \<and> d' = d"
  by (auto simp: find_account_or_fail_def account_is_def tx_simps split: option.splits)

lemma update_trade_status_Inr:
  "update_trade_status tid st d = Inr (u, d') \<longleftrightarrow>
     (has_trade tid d \<longrightarrow> st \<in> set (chk_trade_status (db_schema d))) \<and>
     d' = d\<lparr>db_trades := set_trade_status tid st (db_trades d)\<rparr>"
  by (auto simp: update_trade_status_def set_trade_status_def tx_simps)

lemma lock_margin_Inr:
  "lock_margin m nid x d = Inr (u, d') \<longleftrightarrow>
     (\<exists>a l. account_is m ''MARGIN_IM'' ''AVAILABLE'' a d \<and> account_is m ''MARGIN_IM'' ''LOCKED'' l d \<and>
        ''MARGIN_CALL'' \<in> set (chk_journal_type (db_schema d)) \<and>
        ''confirmed'' \<in> set (chk_journal_status (db_schema d)) \<and> amount_ok x \<and>
        d' = d\<lparr>db_next_uuid := Suc (db_next_uuid d),
          db_journals := db_journals d @ [margin_journal (db_next_uuid d) nid],
          db_entries := db_entries d @ pair_entries (db_next_uuid d) a l (num_round x),
          db_deferred := db_deferred d @ [db_next_uuid d, db_next_uuid d]\<rparr>)"
  by (auto simp: lock_margin_def tx_simps find_account_or_fail_Inr insert_journal_Inr
      post_pair_Inr has_journal_def has_account_def margin_journal_def amount_ok_def)
    (blast dest: account_is_has [unfolded has_account_def])

lemma frame_plan:
  "account_is m ty pool a (db_trades_update f1 d) = account_is m ty pool a d"
  "account_is m ty pool a (db_novated_update f2 d) = account_is m ty pool a d"
  "account_is m ty pool a (db_journals_update f3 d) = account_is m ty pool a d"
  "account_is m ty pool a (db_entries_update f4 d) = account_is m ty pool a d"
  "account_is m ty pool a (db_deferred_update f5 d) = account_is m ty pool a d"
  "account_is m ty pool a (db_next_uuid_update f6 d) = account_is m ty pool a d"
  "has_member m (db_trades_update f1 d) = has_member m d"
  "has_member m (db_novated_update f2 d) = has_member m d"
  "has_member m (db_next_uuid_update f6 d) = has_member m d"
  "has_instrument m (db_trades_update f1 d) = has_instrument m d"
  "has_instrument m (db_novated_update f2 d) = has_instrument m d"
  "has_instrument m (db_next_uuid_update f6 d) = has_instrument m d"
  "has_trade m (db_novated_update f2 d) = has_trade m d"
  "has_trade m (db_next_uuid_update f6 d) = has_trade m d"
  by (auto simp: account_is_def find_account_def has_defs)

lemma has_trade_set_status:
  "has_trade m (d\<lparr>db_trades := set_trade_status tid st (db_trades d)\<rparr>) = has_trade m d"
proof -
  have "has_trade m e \<longleftrightarrow> m \<in> set (map t_id (db_trades e))" for e
    by (auto simp: has_trade_def)
  then show ?thesis by (simp add: set_trade_status_def map_update_where del: set_map)
qed

lemma fetch_margin_rate_Inr:
  "fetch_margin_rate i d = Inr (x, d') \<longleftrightarrow> 
    (\<exists>r. fetchone (\<lambda>r. i_id r = i) (db_instruments d) = Some r \<and> x = i_margin_rate_im r) \<and> d' = d"
  by (auto simp: fetch_margin_rate_def tx_simps split: option.splits)

lemma verify_trade_submitted_Inr:
  "verify_trade_submitted tid d = Inr (u, d') \<longleftrightarrow> trade_has_status tid ''submitted'' d \<and> d' = d"
  by (auto simp: verify_trade_submitted_def trade_has_status_def tx_simps split: option.splits)

lemma trade_transition_Inr:
  "trade_transition et eid f t tr d = Inr (u, d') \<longleftrightarrow>
    d' = d\<lparr>db_transitions := db_transitions d @ [ingestion_transition et eid f t tr]\<rparr>"
  by (auto simp: trade_transition_def service_transition_def insert_transition_def tx_simps ingestion_transition_def)

lemmas novation_steps = verify_trade_submitted_Inr need_id_Inr need_dec_Inr insert_novated_Inr update_trade_status_Inr
  fetch_margin_rate_Inr lock_margin_Inr trade_transition_Inr insert_outbox_event_eq

lemma novate_trade_run:
  assumes "can_novate p tid d np"
  shows "novate_trade tid p tr d = Inr ((db_next_uuid d, db_next_uuid d + 1), novated_db tid tr np d)"
proof -
  note c = assms [unfolded can_novate_def novation_vocab_def]
  from c obtain r where r: "fetchone (\<lambda>r. i_id r = np_instrument np) (db_instruments d) = Some r"
    "np_margin np = dmul (dmul (np_quantity np) (np_price np)) (i_margin_rate_im r)"
    by (auto simp: active_instrument_def)
  from c have h: "has_member (np_buyer np) d" "has_member (np_seller np) d" "has_instrument (np_instrument np) d"
    "has_trade tid d"
    by (auto dest: active_member_has active_instrument_has trade_has_status_has)
  have acc: "account_is (np_buyer np) ''MARGIN_IM'' ''AVAILABLE'' x d \<longleftrightarrow> x = np_buyer_available np"
    "account_is (np_buyer np) ''MARGIN_IM'' ''LOCKED'' x d \<longleftrightarrow> x = np_buyer_locked np"
    "account_is (np_seller np) ''MARGIN_IM'' ''AVAILABLE'' x d \<longleftrightarrow> x = np_seller_available np"
    "account_is (np_seller np) ''MARGIN_IM'' ''LOCKED'' x d \<longleftrightarrow> x = np_seller_locked np" for x
    using c by (auto simp: account_is_def)
  show ?thesis
    unfolding novate_trade_def Let_def create_novated_trade_def
    unfolding tx_simps novation_steps
    using c h r
    by (simp add: frame_plan has_trade_set_status acc)
      (intro db.equality;
        simp add: novated_db_def Let_def plan_leg_def trade_event_def numeral_eq_Suc)
qed

lemma novate_trade_needs_plan:
  assumes "novate_trade tid p tr d = Inr (r, d')" "valid_trade p d"
  shows "\<exists>np. can_novate p tid d np"
proof -
  from assms(2) obtain b s i q x rate where v:
     "pget_id p ''buyer_member_id'' = Some b" 
        "pget_id p ''seller_member_id'' = Some s" "pget_id p ''instrument_id'' = Some i" 
        "pget_dec p ''quantity'' = Some q" "pget_dec p ''price'' = Some x"
        "b \<noteq> s" "0 < q" "0 < x" "active_member b d" "active_member s d"
        "active_instrument i rate d"
    by (auto simp: valid_trade_def)
  from v(11) obtain r where r: "fetchone (\<lambda>r. i_id r = i) (db_instruments d) = Some r" "rate = (i_margin_rate_im r)"
    by (auto simp: active_instrument_def)
  have h: "has_trade tid d" if "trade_has_status tid st d" for st
    using that by (auto dest: active_member_has active_instrument_has trade_has_status_has)
  have "\<exists>a l a' l'. can_novate p tid d (novation_plan.make b s i q x (dmul (dmul q x) rate) a l a' l')"
    using assms(1) v r h
    unfolding novate_trade_def Let_def create_novated_trade_def can_novate_def
      novation_vocab_def
    unfolding tx_simps novation_steps
    by (clarsimp simp add: frame_plan has_trade_set_status novation_plan.defs cong: conj_cong) blast
  then show ?thesis by blast
qed

lemma can_novate_valid: "can_novate p tid d np \<Longrightarrow> valid_trade p d"
  by (auto simp: can_novate_def valid_trade_def)

lemma reject_trade_run:
  "''rejected'' \<in> set (chk_trade_status (db_schema d)) \<Longrightarrow>
   reject_trade tid reason tr d = Inr ((), rejected_db tid reason tr d)"
  unfolding reject_trade_def tx_simps trade_transition_Inr update_trade_status_Inr
    insert_outbox_event_eq
  by (auto intro!: db.equality simp: rejected_db_def trade_event_def)

lemma reject_trade_Inr:
  "reject_trade tid reason tr d = Inr (u, d') \<Longrightarrow> d' = rejected_db tid reason tr d"
  unfolding reject_trade_def tx_simps trade_transition_Inr update_trade_status_Inr
    insert_outbox_event_eq
  by (auto intro!: db.equality simp: rejected_db_def trade_event_def)

lemma process_trade_novates:
  assumes "pget_id p ''trade_id'' = Some tid" "can_novate p tid d np"
  shows "process_trade p (Some tr) d = Inr ((), novated_db tid tr np d)"
proof -
  from can_novate_valid [OF assms(2)] have "validate_trade p d = Inr ((), d)"
    by (simp add: validate_trade_Inr)
  with assms show ?thesis
    by (simp add: process_trade_def need_id_def catch_tx_def bind_tx_def return_tx_def
        novate_trade_run)
qed

text \<open>Both outcomes of an ingestion, with the condition that selects one.\<close>

lemma process_trade_cases:
  assumes "pget_id p ''trade_id'' = Some tid"
  shows "if \<exists>np. can_novate p tid d np
         then \<exists>np. can_novate p tid d np \<and>
                process_trade p (Some tr) d = Inr ((), novated_db tid tr np d)
         else \<exists>reason. process_trade p (Some tr) d = reject_trade tid reason tr d"
proof (cases "\<exists>np. can_novate p tid d np")
  case True
  then obtain np where np: "can_novate p tid d np" by blast
  from process_trade_novates [OF assms np] have
    "process_trade p (Some tr) d = Inr ((), novated_db tid tr np d)" .
  with np True show ?thesis by auto
next
  case False
  have "\<exists>exc. bind_tx (validate_trade p) (\<lambda>_. bind_tx (novate_trade tid p tr) (\<lambda>_. return_tx ())) d
      = Inl exc"
  proof (rule ccontr)
    assume "\<nexists>exc. bind_tx (validate_trade p)
        (\<lambda>_. bind_tx (novate_trade tid p tr) (\<lambda>_. return_tx ())) d = Inl exc"
    then obtain y where "bind_tx (validate_trade p)
        (\<lambda>_. bind_tx (novate_trade tid p tr) (\<lambda>_. return_tx ())) d = Inr y"
      by (metis old.sum.exhaust)
    then obtain r d' where "valid_trade p d" "novate_trade tid p tr d = Inr (r, d')"
      by (auto simp: tx_simps validate_trade_Inr)
    with False show False using novate_trade_needs_plan by blast
  qed
  then have "\<exists>reason. process_trade p (Some tr) d = reject_trade tid reason tr d"
    using assms by (auto simp: process_trade_def need_id_def catch_tx_def)
  then show ?thesis using False by simp
qed

lemma process_trade_Inr:
  assumes "process_trade p (Some tr) d = Inr (u, d')"
  obtains tid np where "pget_id p ''trade_id'' = Some tid" "can_novate p tid d np"
      "d' = novated_db tid tr np d"
    | tid reason where "pget_id p ''trade_id'' = Some tid" "\<nexists>np. can_novate p tid d np"
      "d' = rejected_db tid reason tr d"
proof -
  from assms obtain tid where tid: "pget_id p ''trade_id'' = Some tid"
    by (auto simp: process_trade_def tx_simps need_id_Inr)
  from process_trade_cases [OF tid, of d tr] assms tid that show thesis
    by (auto split: if_splits dest: reject_trade_Inr [OF sym])
qed

lemma fetchone_set_status:
  "fetchone (\<lambda>r. t_id r = tid) (update_where (\<lambda>r. t_id r = tid) (t_status_update f) rows) =
   map_option (t_status_update f) (fetchone (\<lambda>r. t_id r = tid) rows)"
  by (induction rows) auto

subsection \<open>The matched book\<close>

text \<open>
  The signed quantity of a leg from the member's side. The book of the clearing house is
  matched when, per instrument, status and novation time, the signed quantities cancel: every
  \<open>BUY\<close> leg has its \<open>SELL\<close>.
\<close>

definition leg_signed :: "novated_row \<Rightarrow> rat" where
  "leg_signed l = (if n_side l = ''BUY'' then n_quantity l else - n_quantity l)"

definition leg_slot :: "novated_row \<Rightarrow> uuid \<times> string \<times> int" where
  "leg_slot l = (n_instrument_id l, n_status l, n_novated_at l)"

definition book_matched :: "db \<Rightarrow> bool" where
  "book_matched d \<longleftrightarrow>
     (\<forall>slot. (\<Sum>l\<leftarrow>filter (\<lambda>l. leg_slot l = slot) (db_novated d). leg_signed l) = 0)"

lemma novated_db_matched: "book_matched d \<Longrightarrow> book_matched (novated_db tid tr np d)"
  by (auto simp: book_matched_def novated_db_def Let_def plan_leg_def leg_slot_def leg_signed_def)

lemma rejected_db_matched: "book_matched d \<Longrightarrow> book_matched (rejected_db tid reason tr d)"
  by (simp add: book_matched_def rejected_db_def)

lemma novated_db_balanced:
  "journal_balanced (novated_db tid tr np d) j = journal_balanced d j"
  by (simp add: journal_balanced_def journal_entries_of_def novated_db_def Let_def
      pair_entries_def)

lemma rejected_db_balanced: "journal_balanced (rejected_db tid reason tr d) j = journal_balanced d j"
  by (simp add: journal_balanced_def journal_entries_of_def rejected_db_def)

lemma book_matched_frame: "db_novated d' = db_novated d \<Longrightarrow> book_matched d' = book_matched d"
  by (simp add: book_matched_def)

subsection \<open>Properties\<close>

text \<open>A clearing house with two active members, one instrument and one submitted trade.\<close>

definition example_accounts :: "uuid \<Rightarrow> uuid \<Rightarrow> account_row list" where
  "example_accounts a m =
     [\<lparr>a_id = a, a_member_id = m, a_account_type = ''MARGIN_IM'', a_currency = ''USD'',
       a_pool = ''AVAILABLE''\<rparr>,
      \<lparr>a_id = a + 1, a_member_id = m, a_account_type = ''MARGIN_IM'', a_currency = ''USD'',
       a_pool = ''LOCKED''\<rparr>]"

definition example_db :: db where
  "example_db = (empty_db migrated_schema)\<lparr>
     db_members :=
       [\<lparr>m_id = 0, m_lei = ccp_lei, m_name = ''CCP'', m_status = ''active'', m_credit_limit = 0\<rparr>,
        \<lparr>m_id = 1, m_lei = ''A'', m_name = ''A'', m_status = ''active'', m_credit_limit = 0\<rparr>,
        \<lparr>m_id = 2, m_lei = ''B'', m_name = ''B'', m_status = ''active'', m_credit_limit = 0\<rparr>],
     db_instruments :=
       [\<lparr>i_id = 3, i_symbol = ''BTC'', i_asset_class = ''crypto_future'',
         i_settlement_type = ''cash'', i_margin_rate_im = 1 / 10, i_margin_rate_vm = 1 / 20,
         i_chain_id = None, i_contract_address = None, i_is_active = True\<rparr>],
     db_accounts := example_accounts 4 1 @ example_accounts 6 2,
     db_trades :=
       [\<lparr>t_id = 8, t_external_trade_id = ''X'', t_instrument_id = 3, t_buyer_member_id = 1,
         t_seller_member_id = 2, t_quantity = 10, t_price = 100, t_status = ''submitted'',
         t_submitted_at = 0\<rparr>],
     db_next_uuid := 9\<rparr>"

definition example_trade :: payload where
  "example_trade = [(''trade_id'', PId 8), (''buyer_member_id'', PId 1),
     (''seller_member_id'', PId 2), (''instrument_id'', PId 3),
     (''quantity'', PDec 10), (''price'', PDec 100), (''event_id'', PId 100)]"

definition example_plan :: novation_plan where
  "example_plan = \<lparr>np_buyer = 1, np_seller = 2, np_instrument = 3, np_quantity = 10,
     np_price = 100, np_margin = 100, np_buyer_available = 4, np_buyer_locked = 5,
     np_seller_available = 6, np_seller_locked = 7\<rparr>"

definition example_trace :: trace_context where
  "example_trace = \<lparr>tr_trace_id = 200, tr_actor = ''demo'', tr_parent_event_id = None\<rparr>"

lemmas example_defs = example_db_def empty_db_def example_accounts_def example_trade_def
  example_plan_def example_trace_def

lemma example_can_novate: "can_novate example_trade 8 example_db example_plan"
proof -
  have "active_instrument 3 (1 / 10) example_db"
    by (simp add: active_instrument_def example_defs)
  moreover have "np_margin example_plan =
      dmul (dmul (np_quantity example_plan) (np_price example_plan)) (1 / 10)"
    by (simp add: dmul_def whole_eval example_plan_def)
  ultimately have "\<exists>rate. active_instrument (np_instrument example_plan) rate example_db \<and>
      np_margin example_plan =
        dmul (dmul (np_quantity example_plan) (np_price example_plan)) rate"
    by (auto simp: example_plan_def)
  then show ?thesis
    by (simp add: can_novate_def active_member_def trade_has_status_def
        account_is_def find_account_def novation_vocab_def amount_ok_def num_fits_def
        pget_id_def pget_dec_def pget_def whole_eval example_defs schema_defs)
qed

lemma example_trade_id: "pget_id example_trade ''trade_id'' = Some 8"
  by (simp add: example_trade_def pget_id_def pget_def)



text \<open>C14. The book stays matched: whatever a message does, per instrument, status and novation
  time the signed quantities of the legs cancel if they did before.\<close>

theorem process_trade_matched:
  assumes "book_matched d" "process_trade p (Some tr) d = Inr (u, d')"
  shows "book_matched d'"
  using assms(2) by (cases rule: process_trade_Inr)
    (use assms(1) novated_db_matched rejected_db_matched in auto)

theorem process_trade_matched_witness:
  "book_matched (novated_db 8 example_trace example_plan example_db)"
proof (rule process_trade_matched)
  show "book_matched example_db" by (simp add: book_matched_def example_defs)
  show "process_trade example_trade (Some example_trace) example_db =
      Inr ((), novated_db 8 example_trace example_plan example_db)"
    by (rule process_trade_novates [OF example_trade_id example_can_novate])
qed

text \<open>C37. What a novation does to the ledger: per party the \<open>AVAILABLE\<close> account is debited and
  the \<open>LOCKED\<close> account credited with the margin, rounded to the ledger's eight decimals, and no
  other balance changes. A balance is debits minus credits, so the available margin grows and
  the locked margin falls, whatever was available before.\<close>

theorem novation_margin_moves:
  assumes "pget_id p ''trade_id'' = Some tid" "can_novate p tid d np"
    and "process_trade p (Some tr) d = Inr (u, d')"
  shows "acct_balance d' c = acct_balance d c + num_round (np_margin np) *
           (of_bool (c = np_buyer_available np) + of_bool (c = np_seller_available np)
            - of_bool (c = np_buyer_locked np) - of_bool (c = np_seller_locked np))"
proof -
  from process_trade_novates [OF assms(1,2), of tr] assms(3)
  have "d' = novated_db tid tr np d" by simp
  then show ?thesis
    by (auto simp: novated_db_def Let_def acct_balance_def pair_entries_def)
qed

theorem novation_margin_moves_witness:
  "acct_balance (novated_db 8 example_trace example_plan example_db) 5 = - 100"
  using novation_margin_moves
      [OF example_trade_id example_can_novate
        process_trade_novates [OF example_trade_id example_can_novate, of example_trace], of 5]
  by (simp add: example_plan_def example_db_def empty_db_def acct_balance_def whole_eval)

text \<open>A second message for a trade that was novated before does not undo the novation, but
  it still marks the trade rejected and announces the rejection, while both legs stay in the
  book.\<close>

theorem replayed_trade_is_rejected:
  assumes "pget_id p ''trade_id'' = Some tid" "trade_has_status tid ''novated'' d"
    and "process_trade p (Some tr) d = Inr (u, d')"
  shows "trade_has_status tid ''rejected'' d' \<and> db_novated d' = db_novated d \<and>
         ob_event_type (last (db_outbox d')) = ''trade.rejected''"
  using assms(3)
proof (cases rule: process_trade_Inr)
  case (1 tid' np)
  with assms(1,2) show ?thesis by (auto simp: can_novate_def trade_has_status_def)
next
  case (2 tid' reason)
  with assms(1) have d': "d' = rejected_db tid reason tr d" by simp
  from assms(2) have "trade_has_status tid ''rejected'' d'"
    by (auto simp: d' rejected_db_def trade_has_status_def set_trade_status_def
        fetchone_set_status)
  then show ?thesis by (simp add: d' rejected_db_def trade_event_def)
qed

theorem replayed_trade_is_rejected_witness:
  "\<exists>d'. process_trade example_trade (Some example_trace)
      (novated_db 8 example_trace example_plan example_db) = Inr ((), d') \<and>
     trade_has_status 8 ''rejected'' d'"
proof -
  let ?d = "novated_db 8 example_trace example_plan example_db"
  have st: "trade_has_status 8 ''novated'' ?d"
    by (simp add: trade_has_status_def novated_db_def Let_def set_trade_status_def example_db_def)
  then have "\<nexists>np. can_novate example_trade 8 ?d np"
    by (auto simp: can_novate_def trade_has_status_def)
  with process_trade_cases [OF example_trade_id, of ?d example_trace] obtain reason where
    run: "process_trade example_trade (Some example_trace) ?d =
      reject_trade 8 reason example_trace ?d" by auto
  also have "\<dots> = Inr ((), rejected_db 8 reason example_trace ?d)"
    by (rule reject_trade_run) (simp add: novated_db_def Let_def example_defs schema_defs)
  finally show ?thesis
    using replayed_trade_is_rejected [OF example_trade_id st] by blast
qed

lemma trade_message_run:
  assumes "pget_id v ''trade_id'' = Some tid"
    and "''rejected'' \<in> set (chk_trade_status (db_schema d))" "ledger_committed d"
  shows "\<exists>d'. handle_trade_message v d = Inr ((), d') \<and> ledger_committed d'"
proof -
  obtain tr d0 where kafka: "from_kafka_payload v d = Inr (tr, d0)"
    "db_schema d0 = db_schema d" "ledger_committed d0"
    using assms(3) by (simp add: from_kafka_payload_def fresh_uuid_def run_simps
        ledger_committed_def)
  have body: "\<exists>d1. bind_tx (process_trade v (Some tr)) (\<lambda>_. commit) e = Inr ((), d1)"
    if "db_schema e = db_schema d" "ledger_committed e" for e
  proof -
    have "\<exists>d1. process_trade v (Some tr) e = Inr ((), d1) \<and> (\<forall>j. journal_balanced d1 j)"
      using process_trade_cases [OF assms(1), of e tr] assms(2) that
        reject_trade_run [of e tid _ tr] novated_db_balanced rejected_db_balanced
        committed_balanced [OF that(2)]
      by (auto split: if_splits)
    then show ?thesis by (auto simp: bind_tx_def commit_Inr split: sum.splits)
  qed
  have "\<exists>d1. handle_once ''trade-ingestion'' (pget_id v ''event_id'') (process_trade v (Some tr)) d0
      = Inr ((), d1)"
    using body [of d0] body [of "d0\<lparr>db_processed := p\<rparr>" for p] kafka commit_Inr [of d0]
    by (auto simp: handle_once_def bind_tx_def process_if_new_eq ledger_committed_def
        split: option.split)
  then obtain d1 where d1: "handle_once ''trade-ingestion'' (pget_id v ''event_id'')
      (process_trade v (Some tr)) d0 = Inr ((), d1)" by blast
  moreover have "ledger_committed d1"
    using handle_once_committed [OF ev_process_trade _ d1] kafka(3)
    by (simp add: ledger_committed_def)
  ultimately show ?thesis using kafka(1) by (simp add: handle_trade_message_def bind_tx_def)
qed

lemma example_committed: "ledger_committed example_db"
  by (simp add: ledger_committed_def ledger_wf_def example_defs journal_balanced_def
      journal_entries_of_def)

text \<open>The consumer of submitted trades never fails: on a committed ledger every message that
  names a trade ends in a commit, and the ledger is balanced again.\<close>

theorem trade_message_total:
  assumes "pget_id v ''trade_id'' = Some tid"
    and "''rejected'' \<in> set (chk_trade_status (db_schema d))" "ledger_committed d"
  shows "\<exists>d'. handle_trade_message v d = Inr ((), d') \<and> ledger_committed d'"
  using assms by (rule trade_message_run)

theorem trade_message_total_witness:
  "\<exists>d'. handle_trade_message example_trade example_db = Inr ((), d') \<and> ledger_committed d'"
  by (rule trade_message_total [OF example_trade_id _ example_committed])
    (simp add: example_defs schema_defs)

text \<open>Exactly once: when a message with an event id was handled, a redelivery in any later
  state changes nothing (the fresh default of the trace context is drawn and dropped).\<close>

theorem trade_redelivery:
  assumes "pget_id v ''event_id'' = Some e" "handle_trade_message v d = Inr (u, d1)"
    and "evolves d1 d2" "db_deferred d2 = []"
  shows "handle_trade_message v d2 = Inr ((), d2\<lparr>db_next_uuid := Suc (db_next_uuid d2)\<rparr>)"
proof -
  from assms(1,2) obtain tr c where
    "handle_once ''trade-ingestion'' (Some e) (process_trade v (Some tr)) c = Inr (u, d1)"
    by (auto simp: handle_trade_message_def tx_simps)
  then have "processed ''trade-ingestion'' e d1" by (rule handle_once_marks [OF ev_process_trade])
  then have "processed ''trade-ingestion'' e (d2\<lparr>db_next_uuid := Suc (db_next_uuid d2)\<rparr>)"
    using processed_evolves [OF _ assms(3)] by (simp add: processed_def)
  from handle_once_redelivery [OF this] assms(4) show ?thesis
    by (simp add: handle_trade_message_def from_kafka_payload_def fresh_uuid_def run_simps assms(1))
qed

theorem trade_redelivery_witness:
  "\<exists>d1. handle_trade_message example_trade example_db = Inr ((), d1) \<and>
     handle_trade_message example_trade d1 = Inr ((), d1\<lparr>db_next_uuid := Suc (db_next_uuid d1)\<rparr>)"
proof -
  have schema: "''rejected'' \<in> set (chk_trade_status (db_schema example_db))"
    by (simp add: example_defs schema_defs)
  from trade_message_run [OF example_trade_id schema example_committed] obtain d1 where
    d1: "handle_trade_message example_trade example_db = Inr ((), d1)" "ledger_committed d1"
    by blast
  have "pget_id example_trade ''event_id'' = Some 100"
    by (simp add: example_trade_def pget_id_def pget_def)
  from trade_redelivery [OF this d1(1) ev.refl] d1 show ?thesis
    by (simp add: ledger_committed_def)
qed

end
