(* ===== verification/Waterfall.thy ===== *)
theory Waterfall
  imports Novation
begin

section \<open>The liquidation engine: the default waterfall\<close>

text \<open>
  \<open>services/liquidation-engine/src/liquidation_engine/waterfall.py\<close> and the dispatch of
  \<open>consumer.py\<close>. A loss is carried in up to five steps: the defaulter's margin, its default
  fund contribution, the equity of the clearing house, the default funds of the surviving
  members, and an allocation to the surviving members. The pure part of each step (how much is
  applied) is a definition of its own, and \<open>waterfall_plan\<close> composes them over the balances
  the waterfall starts from.
\<close>

subsection \<open>What a step applies\<close>

record waterfall_step =
  wr_step_order :: nat
  wr_step_type :: string
  wr_available :: rat
  wr_applied :: rat
  wr_remaining :: rat

definition fund_contribution :: "rat \<Rightarrow> rat \<Rightarrow> rat \<Rightarrow> rat" where
  "fund_contribution total_fund remaining bal =
     (let share = dmul (ddiv bal total_fund) remaining in min share bal)"

definition loss_share :: "rat \<Rightarrow> rat \<Rightarrow> rat \<Rightarrow> rat" where
  "loss_share total_limits remaining limit =
     (let share = dmul (ddiv limit total_limits) remaining;
          cap = dmul limit (1 / 10)
      in min share cap)"

subsection \<open>Reading balances\<close>

definition get_member_margin_balance :: "uuid \<Rightarrow> db \<Rightarrow> rat" where
  "get_member_margin_balance m d =
     (\<Sum>a\<leftarrow>filter (\<lambda>a. a_member_id a = m \<and> a_account_type a \<in> {''MARGIN_IM'', ''MARGIN_VM''} \<and>
        0 < acct_balance d (a_id a)) (db_accounts d). acct_balance d (a_id a))"

definition get_account_balance :: "uuid \<Rightarrow> string \<Rightarrow> string \<Rightarrow> db \<Rightarrow> rat" where
  "get_account_balance m ty pool d =
     (case find_account m ty pool d of None \<Rightarrow> 0 | Some a \<Rightarrow> acct_balance d (a_id a))"

text \<open>\<open>members JOIN accounts LEFT JOIN account_balances\<close>, one row per account.\<close>

definition fund_survivors :: "uuid \<Rightarrow> db \<Rightarrow> (uuid \<times> rat) list" where
  "fund_survivors defaulter d =
     [(m_id m, acct_balance d (a_id a)).
        m \<leftarrow> db_members d, m_status m = ''active'' \<and> m_id m \<noteq> defaulter,
        a \<leftarrow> db_accounts d, a_member_id a = m_id m \<and> a_account_type a = ''DEFAULT_FUND'' \<and>
          a_pool a = ''AVAILABLE'' \<and> 0 < acct_balance d (a_id a)]"

definition limit_survivors :: "uuid \<Rightarrow> db \<Rightarrow> (uuid \<times> rat) list" where
  "limit_survivors defaulter d =
     map (\<lambda>m. (m_id m, m_credit_limit m))
       (filter (\<lambda>m. m_status m = ''active'' \<and> m_id m \<noteq> defaulter) (db_members d))"

text \<open>\<open>sum(Decimal(str(s[1])) for s in survivors if s[1])\<close>.\<close>

definition sum_nonzero :: "(uuid \<times> rat) list \<Rightarrow> rat" where
  "sum_nonzero survivors = dsum (filter (\<lambda>x. x \<noteq> 0) (map snd survivors))"

subsection \<open>Writing a step\<close>

definition create_waterfall_journal :: "uuid \<Rightarrow> uuid \<Rightarrow> rat \<Rightarrow> string \<Rightarrow> uuid ccp" where
  "create_waterfall_journal ev m amount source_type =
     bind_tx (gets_tx (find_account m source_type ''AVAILABLE'')) (\<lambda>member_acct.
     bind_tx (gets_tx find_ccp) (\<lambda>ccp.
     bind_tx (gets_tx (\<lambda>d. case ccp of None \<Rightarrow> None
        | Some c \<Rightarrow> find_account (m_id c) ''SETTLEMENT'' ''AVAILABLE'' d)) (\<lambda>ccp_acct.
     bind_tx (insert_journal ''DEFAULT_WATERFALL_STEP'' ''default_event'' ev ''confirmed'') (\<lambda>jid.
     bind_tx (case member_acct of None \<Rightarrow> return_tx ()
        | Some a \<Rightarrow> insert_entry jid (a_id a) 0 amount) (\<lambda>_.
     bind_tx (case ccp_acct of None \<Rightarrow> return_tx ()
        | Some a \<Rightarrow> insert_entry jid (a_id a) amount 0) (\<lambda>_.
     bind_tx (insert_outbox_event ''default_event'' ev ''waterfall.step.executed''
        ''waterfall.step.executed''
        [(''default_event_id'', PId ev), (''member_id'', PId m), (''amount'', PDec amount),
         (''source'', PStr source_type), (''journal_id'', PId jid)] None) (\<lambda>_.
     return_tx jid)))))))"

definition record_step ::
    "uuid \<Rightarrow> nat \<Rightarrow> string \<Rightarrow> rat \<Rightarrow> rat \<Rightarrow> rat \<Rightarrow> uuid option \<Rightarrow> waterfall_step ccp" where
  "record_step ev order stype available applied remaining jid =
     bind_tx (insert_step ev order stype available applied remaining jid) (\<lambda>_.
     return_tx \<lparr>wr_step_order = order, wr_step_type = stype, wr_available = available,
       wr_applied = applied, wr_remaining = remaining\<rparr>)"

definition update_event_status :: "uuid \<Rightarrow> string \<Rightarrow> trace_context option \<Rightarrow> unit ccp" where
  "update_event_status ev status trace =
     insert_transition
       \<lparr>st_entity_type = ''default_event'', st_entity_id = ev, st_from_status = None,
        st_to_status = status, st_reason = Some (PStr ''Waterfall step completed''),
        st_transitioned_by = (case trace of Some t \<Rightarrow> ''liquidation-engine:'' @ tr_actor t
           | None \<Rightarrow> ''liquidation-engine''),
        st_trace_id = map_option tr_trace_id trace, st_actor = map_option tr_actor trace\<rparr>"

subsection \<open>The five steps\<close>

definition step_defaulter_margin ::
    "uuid \<Rightarrow> uuid \<Rightarrow> rat \<Rightarrow> nat \<Rightarrow> (rat \<times> waterfall_step) ccp" where
  "step_defaulter_margin ev m remaining order =
     bind_tx (gets_tx (get_member_margin_balance m)) (\<lambda>available.
     let applied = min available remaining; new_remaining = dsub remaining applied in
     bind_tx (if 0 < applied
        then bind_tx (create_waterfall_journal ev m applied ''MARGIN_IM'') (\<lambda>j. return_tx (Some j))
        else return_tx None) (\<lambda>jid.
     bind_tx (record_step ev order ''defaulter_margin'' available applied new_remaining jid) (\<lambda>step.
     return_tx (new_remaining, step))))"

definition step_defaulter_default_fund ::
    "uuid \<Rightarrow> uuid \<Rightarrow> rat \<Rightarrow> nat \<Rightarrow> (rat \<times> waterfall_step) ccp" where
  "step_defaulter_default_fund ev m remaining order =
     bind_tx (gets_tx (get_account_balance m ''DEFAULT_FUND'' ''AVAILABLE'')) (\<lambda>available.
     let applied = min available remaining; new_remaining = dsub remaining applied in
     bind_tx (if 0 < applied
        then bind_tx (create_waterfall_journal ev m applied ''DEFAULT_FUND'') (\<lambda>j. return_tx (Some j))
        else return_tx None) (\<lambda>jid.
     bind_tx (record_step ev order ''defaulter_default_fund'' available applied new_remaining jid)
       (\<lambda>step.
     return_tx (new_remaining, step))))"

definition step_ccp_equity :: "uuid \<Rightarrow> rat \<Rightarrow> nat \<Rightarrow> (rat \<times> waterfall_step) ccp" where
  "step_ccp_equity ev remaining order =
     bind_tx (gets_tx find_ccp) (\<lambda>ccp.
     bind_tx (gets_tx (\<lambda>d. case ccp of None \<Rightarrow> 0
        | Some c \<Rightarrow> get_account_balance (m_id c) ''CCP_EQUITY'' ''AVAILABLE'' d)) (\<lambda>available.
     let applied = min available remaining; new_remaining = dsub remaining applied in
     bind_tx (case ccp of
          Some c \<Rightarrow> if 0 < applied
            then bind_tx (create_waterfall_journal ev (m_id c) applied ''CCP_EQUITY'')
                   (\<lambda>j. return_tx (Some j))
            else return_tx None
        | None \<Rightarrow> return_tx None) (\<lambda>jid.
     bind_tx (record_step ev order ''ccp_equity'' available applied new_remaining jid) (\<lambda>step.
     return_tx (new_remaining, step)))))"

definition mutualize :: "uuid \<Rightarrow> rat \<Rightarrow> rat \<Rightarrow> uuid \<times> rat \<Rightarrow> rat \<Rightarrow> rat ccp" where
  "mutualize ev total_fund remaining s total_applied = (case s of (survivor, bal) \<Rightarrow>
     if bal \<le> 0 then return_tx total_applied
     else let contribution = fund_contribution total_fund remaining bal in
       if 0 < contribution
       then bind_tx (create_waterfall_journal ev survivor contribution ''DEFAULT_FUND'') (\<lambda>_.
            return_tx (dadd total_applied contribution))
       else return_tx total_applied)"

definition step_surviving_default_fund ::
    "uuid \<Rightarrow> uuid \<Rightarrow> rat \<Rightarrow> nat \<Rightarrow> (rat \<times> waterfall_step) ccp" where
  "step_surviving_default_fund ev defaulter remaining order =
     bind_tx (gets_tx (fund_survivors defaulter)) (\<lambda>survivors.
     let total_fund = sum_nonzero survivors in
     bind_tx (if 0 < total_fund
        then fold_tx (mutualize ev total_fund remaining) survivors 0 else return_tx 0)
       (\<lambda>total_applied.
     let new_remaining = dsub remaining total_applied in
     bind_tx (record_step ev order ''surviving_members_default_fund'' total_fund total_applied
        new_remaining None) (\<lambda>step.
     return_tx (new_remaining, step))))"

definition allocate_loss :: "uuid \<Rightarrow> rat \<Rightarrow> rat \<Rightarrow> uuid \<times> rat \<Rightarrow> rat \<Rightarrow> rat ccp" where
  "allocate_loss ev total_limits remaining s total_applied = (case s of (survivor, limit) \<Rightarrow>
     if limit \<le> 0 then return_tx total_applied
     else let allocation = loss_share total_limits remaining limit in
       if 0 < allocation
       then bind_tx (create_waterfall_journal ev survivor allocation ''SETTLEMENT'') (\<lambda>_.
            return_tx (dadd total_applied allocation))
       else return_tx total_applied)"

definition step_loss_allocation ::
    "uuid \<Rightarrow> uuid \<Rightarrow> rat \<Rightarrow> nat \<Rightarrow> (rat \<times> waterfall_step) ccp" where
  "step_loss_allocation ev defaulter remaining order =
     bind_tx (gets_tx (limit_survivors defaulter)) (\<lambda>survivors.
     let total_limits = sum_nonzero survivors in
     bind_tx (if 0 < total_limits
        then fold_tx (allocate_loss ev total_limits remaining) survivors 0 else return_tx 0)
       (\<lambda>total_applied.
     let new_remaining = dsub remaining total_applied in
     bind_tx (record_step ev order ''loss_allocation'' total_limits total_applied
        new_remaining None) (\<lambda>step.
     return_tx (new_remaining, step))))"

subsection \<open>The waterfall\<close>

record waterfall_result =
  wf_default_event_id :: uuid
  wf_status :: string
  wf_steps :: "waterfall_step list"
  wf_remaining_loss :: rat

text \<open>\<open>if remaining > Decimal("0"): remaining, step = ...; steps.append(step); ...\<close>\<close>

definition step_if_remaining ::
    "(rat \<Rightarrow> (rat \<times> waterfall_step) ccp) \<Rightarrow> unit ccp \<Rightarrow> rat \<times> waterfall_step list \<Rightarrow>
     (rat \<times> waterfall_step list) ccp" where
  "step_if_remaining step note_status acc = (case acc of (remaining, steps) \<Rightarrow>
     if 0 < remaining
     then bind_tx (step remaining) (\<lambda>rs. case rs of (remaining', s) \<Rightarrow>
          bind_tx note_status (\<lambda>_. return_tx (remaining', steps @ [s])))
     else return_tx acc)"

definition execute_waterfall ::
    "uuid \<Rightarrow> pval \<Rightarrow> rat \<Rightarrow> trace_context option \<Rightarrow> waterfall_result ccp" where
  "execute_waterfall m reason total_exposure tr =
     bind_tx (case tr of None \<Rightarrow> new_system ''liquidation-engine'' | Some t \<Rightarrow> return_tx t) (\<lambda>trace.
     bind_tx (insert_default m reason total_exposure ''detected'') (\<lambda>ev.
     bind_tx (update_member_status m ''defaulted'') (\<lambda>_.
     bind_tx (insert_outbox_event ''default_event'' ev ''default.declared'' ''default.declared''
        [(''default_event_id'', PId ev), (''member_id'', PId m), (''trigger_reason'', reason),
         (''total_exposure'', PDec total_exposure)] (Some (tr_trace_id trace))) (\<lambda>_.
     bind_tx (step_defaulter_margin ev m total_exposure 1) (\<lambda>rs. case rs of (r1, s1) \<Rightarrow>
     bind_tx (update_event_status ev ''margin_liquidated'' (Some trace)) (\<lambda>_.
     bind_tx (step_if_remaining (\<lambda>r. step_defaulter_default_fund ev m r 2)
        (update_event_status ev ''default_fund_applied'' (Some trace)) (r1, [s1])) (\<lambda>a2.
     bind_tx (step_if_remaining (\<lambda>r. step_ccp_equity ev r 3)
        (update_event_status ev ''ccp_equity_applied'' (Some trace)) a2) (\<lambda>a3.
     bind_tx (step_if_remaining (\<lambda>r. step_surviving_default_fund ev m r 4)
        (update_event_status ev ''mutualized'' (Some trace)) a3) (\<lambda>a4.
     bind_tx (step_if_remaining (\<lambda>r. step_loss_allocation ev m r 5) (return_tx ()) a4)
        (\<lambda>a5. case a5 of (remaining, steps) \<Rightarrow>
     let final_status = (if remaining = 0 then ''resolved'' else ''partially_resolved'') in
     bind_tx (resolve_default ev final_status) (\<lambda>_.
     bind_tx (insert_outbox_event ''default_event'' ev ''default.resolved'' ''default.resolved''
        [(''default_event_id'', PId ev), (''status'', PStr final_status),
         (''remaining_loss'', PDec remaining)] (Some (tr_trace_id trace))) (\<lambda>_.
     return_tx \<lparr>wf_default_event_id = ev, wf_status = final_status, wf_steps = steps,
        wf_remaining_loss = remaining\<rparr>))))))))))))"

subsection \<open>The consumer\<close>

text \<open>\<open>Decimal(event.get(key, "0"))\<close>.\<close>

definition get_exposure :: "payload \<Rightarrow> string \<Rightarrow> rat ccp" where
  "get_exposure event k =
     (case pget event k of None \<Rightarrow> return_tx 0 | Some (PDec x) \<Rightarrow> return_tx x
      | Some _ \<Rightarrow> raise_tx InvalidOperation)"

definition get_or :: "payload \<Rightarrow> string \<Rightarrow> pval \<Rightarrow> pval" where
  "get_or event k dflt = (case pget event k of None \<Rightarrow> dflt | Some v \<Rightarrow> v)"

text \<open>\<open>event.get("from_member_id", event.get("member_id", ""))\<close>, when it is not empty.\<close>

definition settlement_defaulter :: "payload \<Rightarrow> uuid option" where
  "settlement_defaulter event =
     (case get_or event ''from_member_id'' (get_or event ''member_id'' (PStr [])) of
        PId m \<Rightarrow> Some m | _ \<Rightarrow> None)"

definition handle_default_event :: "string \<Rightarrow> payload \<Rightarrow> trace_context \<Rightarrow> unit ccp" where
  "handle_default_event event_type event trace =
     (if event_type = ''margin.call.breached'' then
        bind_tx (need_id event ''member_id'') (\<lambda>m.
        bind_tx (get_exposure event ''call_amount'') (\<lambda>exposure.
        bind_tx (execute_waterfall m
          (PMsg [PStr ''Margin call breached:'', get_or event ''margin_call_id'' (PStr ''unknown'')])
          exposure (Some trace)) (\<lambda>_. return_tx ())))
      else if event_type = ''settlement.failed'' then
        bind_tx (get_exposure event ''amount'') (\<lambda>exposure.
        case settlement_defaulter event of
          Some m \<Rightarrow> bind_tx (execute_waterfall m
            (PMsg [PStr ''Settlement failed:'', get_or event ''instruction_id'' (PStr ''unknown'')])
            exposure (Some trace)) (\<lambda>_. return_tx ())
        | None \<Rightarrow> return_tx ())
      else return_tx ())"

definition consume_default_event :: "payload \<Rightarrow> unit ccp" where
  "consume_default_event event =
     bind_tx (from_kafka_payload event) (\<lambda>trace.
     handle_once ''liquidation-engine'' (pget_id event ''event_id'')
       (handle_default_event (case pget_str event ''event_type'' of Some t \<Rightarrow> t | None \<Rightarrow> [])
          event trace))"

subsection \<open>Preservation\<close>

lemma ev_waterfall_parts [evolving]:
  "across evolves (create_waterfall_journal ev m x src)"
  "across evolves (record_step ev n st a b c j)" "across evolves (update_event_status ev st tr)"
  unfolding create_waterfall_journal_def record_step_def update_event_status_def
  by (auto intro!: evolving)

lemma ev_waterfall_steps [evolving]:
  "across evolves (step_defaulter_margin ev m r n)"
  "across evolves (step_defaulter_default_fund ev m r n)"
  "across evolves (step_ccp_equity ev r n)"
  unfolding step_defaulter_margin_def step_defaulter_default_fund_def step_ccp_equity_def Let_def
  by (auto intro!: evolving)

lemma ev_shares [evolving]:
  "across evolves (mutualize ev t r s acc)" "across evolves (allocate_loss ev t r s acc)"
  unfolding mutualize_def allocate_loss_def Let_def by (auto intro!: evolving split: prod.split)

lemma ev_waterfall_late_steps [evolving]:
  "across evolves (step_surviving_default_fund ev m r n)"
  "across evolves (step_loss_allocation ev m r n)"
  unfolding step_surviving_default_fund_def step_loss_allocation_def Let_def
  by (auto intro!: evolving)

lemma ev_step_if_remaining [evolving]:
  "(\<And>r. across evolves (f r)) \<Longrightarrow> across evolves g \<Longrightarrow> across evolves (step_if_remaining f g acc)"
  unfolding step_if_remaining_def by (auto intro!: evolving split: prod.split)

lemma ev_execute_waterfall [evolving]: "across evolves (execute_waterfall m reason x tr)"
  unfolding execute_waterfall_def Let_def
  by (auto intro!: evolving)

lemma ev_get_exposure [evolving]: "across evolves (get_exposure e k)"
  unfolding get_exposure_def by (auto intro!: evolving split: option.split pval.split)

lemma ev_handle_default_event [evolving]: "across evolves (handle_default_event t e tr)"
  unfolding handle_default_event_def by (intro evolving)

lemma ev_consume_default_event [evolving]: "across evolves (consume_default_event e)"
  unfolding consume_default_event_def by (auto intro!: evolving)

subsection \<open>Which accounts a step touches\<close>

definition touches :: "(account_row \<Rightarrow> bool) \<Rightarrow> db \<Rightarrow> db \<Rightarrow> bool" where
  "touches Q d d' \<longleftrightarrow> db_accounts d' = db_accounts d \<and> db_members d' = db_members d \<and>
     db_schema d' = db_schema d \<and> (\<exists>es. db_entries d' = db_entries d @ es \<and>
        (\<forall>e \<in> set es. \<exists>a \<in> set (db_accounts d). a_id a = je_account_id e \<and> Q a))"

interpretation tc: tx_relation "touches Q" for Q
proof
  show "touches Q d d" for d by (simp add: touches_def)
  show "touches Q d f" if "touches Q d e" "touches Q e f" for d e f
    using that by (fastforce simp: touches_def)
qed

lemma touches_mono: "touches Q d d' \<Longrightarrow> (\<And>a. Q a \<Longrightarrow> Q' a) \<Longrightarrow> touches Q' d d'"
  by (fastforce simp: touches_def)

lemma touches_balance:
  assumes "touches Q d d'" "distinct (map a_id (db_accounts d))" "a \<in> set (db_accounts d)" "\<not> Q a"
  shows "acct_balance d' (a_id a) = acct_balance d (a_id a)"
proof -
  from assms(1) obtain es where es: "db_entries d' = db_entries d @ es"
    "\<And>e. e \<in> set es \<Longrightarrow> \<exists>a \<in> set (db_accounts d). a_id a = je_account_id e \<and> Q a"
    by (auto simp: touches_def)
  have "je_account_id e \<noteq> a_id a" if "e \<in> set es" for e
    using es(2) [OF that] assms(2-4) by (metis distinct_map inj_on_eq_iff)
  then have "filter (\<lambda>e. je_account_id e = a_id a) es = []" by (auto simp: filter_empty_conv)
  then show ?thesis by (simp add: acct_balance_def es(1))
qed

definition waterfall_accounts :: "uuid \<Rightarrow> string \<Rightarrow> account_row \<Rightarrow> bool" where
  "waterfall_accounts m src a \<longleftrightarrow>
     (a_member_id a = m \<and> a_account_type a = src) \<or> a_account_type a = ''SETTLEMENT''"

lemma find_account_Some:
  "find_account m ty pool d = Some a \<Longrightarrow>
     a \<in> set (db_accounts d) \<and> a_member_id a = m \<and> a_account_type a = ty \<and> a_pool a = pool"
  by (auto simp: find_account_def dest: fetchone_Some)

lemma touches_create_waterfall_journal:
  "across (touches (waterfall_accounts m src)) (create_waterfall_journal ev m x src)"
proof (rule acrossI)
  fix d j d'
  assume "create_waterfall_journal ev m x src d = Inr (j, d')"
  then show "touches (waterfall_accounts m src) d d'"
    by (auto simp: create_waterfall_journal_def tx_simps insert_journal_Inr insert_entry_Inr
        insert_outbox_event_eq touches_def waterfall_accounts_def
        dest!: find_account_Some split: option.splits)
qed

lemma touches_record_step: "across (touches Q) (record_step ev n st a b c j)"
  by (rule acrossI)
    (auto simp: record_step_def insert_step_def fresh_uuid_def numeric_def check_vocab_def
      foreign_key_def tx_simps touches_def split: if_splits)

lemma touches_update_event_status: "across (touches Q) (update_event_status ev st tr)"
  by (rule acrossI) (auto simp: update_event_status_def insert_transition_def tx_simps touches_def)


subsection \<open>The plan of a waterfall\<close>

text \<open>
  The waterfall as a function of the balances it starts from: \<open>take_fund\<close> is a step that takes
  what a fund has (steps 1 to 3), \<open>take_shares\<close> one that collects shares (steps 4 and 5), and
  \<open>cascade\<close> goes on as long as some loss remains.
\<close>

definition take_fund :: "nat \<Rightarrow> string \<Rightarrow> rat \<Rightarrow> rat \<Rightarrow> waterfall_step" where
  "take_fund order ty available r =
     \<lparr>wr_step_order = order, wr_step_type = ty, wr_available = available,
      wr_applied = min available r, wr_remaining = dsub r (min available r)\<rparr>"

definition collect :: "(rat \<Rightarrow> rat) \<Rightarrow> rat \<Rightarrow> uuid \<times> rat \<Rightarrow> rat" where
  "collect share acc s = (if snd s \<le> 0 then acc
     else if 0 < share (snd s) then dadd acc (share (snd s)) else acc)"

definition collected :: "(rat \<Rightarrow> rat \<Rightarrow> rat \<Rightarrow> rat) \<Rightarrow> (uuid \<times> rat) list \<Rightarrow> rat \<Rightarrow> rat" where
  "collected share survivors r =
     (let total = sum_nonzero survivors in
      if 0 < total then foldl (collect (share total r)) 0 survivors else 0)"

definition take_shares ::
    "nat \<Rightarrow> string \<Rightarrow> (rat \<Rightarrow> rat \<Rightarrow> rat \<Rightarrow> rat) \<Rightarrow> (uuid \<times> rat) list \<Rightarrow> rat \<Rightarrow> waterfall_step" where
  "take_shares order ty share survivors r =
     \<lparr>wr_step_order = order, wr_step_type = ty, wr_available = sum_nonzero survivors,
      wr_applied = collected share survivors r,
      wr_remaining = dsub r (collected share survivors r)\<rparr>"

fun cascade :: "(rat \<Rightarrow> waterfall_step) list \<Rightarrow> rat \<Rightarrow> waterfall_step list" where
  "cascade [] r = []"
| "cascade (f # fs) r = (if 0 < r then f r # cascade fs (wr_remaining (f r)) else [])"

definition ccp_equity :: "db \<Rightarrow> rat" where
  "ccp_equity d = (case find_ccp d of None \<Rightarrow> 0
     | Some c \<Rightarrow> get_account_balance (m_id c) ''CCP_EQUITY'' ''AVAILABLE'' d)"

definition waterfall_plan :: "uuid \<Rightarrow> rat \<Rightarrow> db \<Rightarrow> waterfall_step list" where
  "waterfall_plan m loss d =
     (let s1 = take_fund 1 ''defaulter_margin'' (get_member_margin_balance m d) loss in
      s1 # cascade
        [take_fund 2 ''defaulter_default_fund''
           (get_account_balance m ''DEFAULT_FUND'' ''AVAILABLE'' d),
         take_fund 3 ''ccp_equity'' (ccp_equity d),
         take_shares 4 ''surviving_members_default_fund'' fund_contribution (fund_survivors m d),
         take_shares 5 ''loss_allocation'' loss_share (limit_survivors m d)]
        (wr_remaining s1))"

subsection \<open>Each step does what the plan says\<close>

definition step_row_of :: "uuid \<Rightarrow> uuid \<Rightarrow> uuid option \<Rightarrow> waterfall_step \<Rightarrow> step_row" where
  "step_row_of wid ev jid s =
     \<lparr>ws_id = wid, ws_default_event_id = ev, ws_step_order = wr_step_order s,
      ws_step_type = wr_step_type s, ws_available_amount = num_round (wr_available s),
      ws_applied_amount = num_round (wr_applied s),
      ws_remaining_loss = num_round (wr_remaining s), ws_journal_id = jid\<rparr>"

definition records :: "uuid \<Rightarrow> waterfall_step \<Rightarrow> db \<Rightarrow> db \<Rightarrow> bool" where
  "records ev s d d' \<longleftrightarrow> (\<exists>wid jid. db_steps d' = db_steps d @ [step_row_of wid ev jid s])"

lemma record_step_Inr:
  "record_step ev n st av ap rm jid d = Inr (s, d') \<Longrightarrow>
     s = \<lparr>wr_step_order = n, wr_step_type = st, wr_available = av, wr_applied = ap,
          wr_remaining = rm\<rparr> \<and> records ev s d d' \<and> st \<in> set (chk_step_type (db_schema d))"
  by (auto simp: record_step_def insert_step_def fresh_uuid_def numeric_def check_vocab_def
      foreign_key_def tx_simps records_def step_row_of_def split: if_splits)

definition same_steps :: "db \<Rightarrow> db \<Rightarrow> bool" where
  "same_steps d d' \<longleftrightarrow> db_steps d' = db_steps d"

interpretation ss: tx_relation same_steps
  by unfold_locales (auto simp: same_steps_def)

lemma steps_frame: "across same_steps (create_waterfall_journal ev m x src)"
  by (rule acrossI) (auto simp: create_waterfall_journal_def tx_simps insert_journal_Inr
      insert_entry_Inr insert_outbox_event_eq same_steps_def split: option.splits)

lemma mutualize_Inr:
  "mutualize ev t r s acc d = Inr (acc', d') \<Longrightarrow> acc' = collect (fund_contribution t r) acc s"
  by (auto simp: mutualize_def collect_def Let_def tx_simps split: if_splits prod.splits)

lemma allocate_loss_Inr:
  "allocate_loss ev t r s acc d = Inr (acc', d') \<Longrightarrow> acc' = collect (loss_share t r) acc s"
  by (auto simp: allocate_loss_def collect_def Let_def tx_simps split: if_splits prod.splits)

lemma steps_fold_frame:
  "across same_steps (fold_tx (mutualize ev t r) ss acc)"
  "across same_steps (fold_tx (allocate_loss ev t r) ss acc)"
  unfolding mutualize_def [abs_def] allocate_loss_def [abs_def] Let_def
  by (intro ss.across_rules steps_frame)+

lemma fold_mutualize:
  assumes "fold_tx (mutualize ev t r) ss acc d = Inr (x, d')"
  shows "x = foldl (collect (fund_contribution t r)) acc ss \<and> same_steps d d'"
proof
  show "x = foldl (collect (fund_contribution t r)) acc ss"
    using assms by (rule fold_tx_result [rotated]) (rule mutualize_Inr)
  show "same_steps d d'" using assms by (rule acrossD [OF steps_fold_frame(1)])
qed

lemma fold_allocate_loss:
  assumes "fold_tx (allocate_loss ev t r) ss acc d = Inr (x, d')"
  shows "x = foldl (collect (loss_share t r)) acc ss \<and> same_steps d d'"
proof
  show "x = foldl (collect (loss_share t r)) acc ss"
    using assms by (rule fold_tx_result [rotated]) (rule allocate_loss_Inr)
  show "same_steps d d'" using assms by (rule acrossD [OF steps_fold_frame(2)])
qed

subsection \<open>The accounts the steps touch\<close>

definition survivor_accounts :: "string \<Rightarrow> uuid list \<Rightarrow> account_row \<Rightarrow> bool" where
  "survivor_accounts src ms a \<longleftrightarrow>
     (a_member_id a \<in> set ms \<and> a_account_type a = src) \<or> a_account_type a = ''SETTLEMENT''"

lemma touches_weaken: "across (touches Q) m \<Longrightarrow> (\<And>a. Q a \<Longrightarrow> Q' a) \<Longrightarrow> across (touches Q') m"
  unfolding across_def using touches_mono by blast

lemmas touching = tc.across_rules touches_create_waterfall_journal touches_record_step
  touches_update_event_status

lemma touches_defaulter_margin:
  "across (touches (waterfall_accounts m ''MARGIN_IM'')) (step_defaulter_margin ev m r n)"
  unfolding step_defaulter_margin_def Let_def by (intro touching)

lemma touches_defaulter_default_fund:
  "across (touches (waterfall_accounts m ''DEFAULT_FUND'')) (step_defaulter_default_fund ev m r n)"
  unfolding step_defaulter_default_fund_def Let_def by (intro touching)

lemma touches_ccp_equity:
  "across (touches (\<lambda>a. a_account_type a \<in> {''CCP_EQUITY'', ''SETTLEMENT''}))
     (step_ccp_equity ev r n)"
proof -
  have "across (touches (\<lambda>a. a_account_type a \<in> {''CCP_EQUITY'', ''SETTLEMENT''}))
      (create_waterfall_journal ev m x ''CCP_EQUITY'')" for m x
    by (rule touches_weaken [OF touches_create_waterfall_journal])
      (auto simp: waterfall_accounts_def)
  then show ?thesis
    unfolding step_ccp_equity_def Let_def by (intro touching) simp
qed

lemma touches_surviving:
  "across (touches (\<lambda>_. True)) (step_surviving_default_fund ev m r n)"
  and touches_allocation:
  "across (touches (\<lambda>_. True)) (step_loss_allocation ev m r n)"
proof -
  have "across (touches (\<lambda>_. True)) (create_waterfall_journal ev m x src)" for m x src
    by (rule touches_weaken [OF touches_create_waterfall_journal]) simp
  note rules = this touching
  show "across (touches (\<lambda>_. True)) (step_surviving_default_fund ev m r n)"
    "across (touches (\<lambda>_. True)) (step_loss_allocation ev m r n)"
    unfolding step_surviving_default_fund_def step_loss_allocation_def mutualize_def [abs_def]
      allocate_loss_def [abs_def] Let_def by (intro rules)+
qed

subsection \<open>The results of the steps\<close>

lemmas step_results = Let_def tx_simps take_fund_def take_shares_def collected_def records_def
  same_steps_def

lemma defaulter_margin_Inr:
  "step_defaulter_margin ev m r n d = Inr (rs, d') \<Longrightarrow>
     (let s = take_fund n ''defaulter_margin'' (get_member_margin_balance m d) r
      in rs = (wr_remaining s, s) \<and> records ev s d d')"
  by (auto simp: step_defaulter_margin_def step_results
      dest!: record_step_Inr acrossD [OF steps_frame] split: if_splits)

lemma defaulter_default_fund_Inr:
  "step_defaulter_default_fund ev m r n d = Inr (rs, d') \<Longrightarrow>
     (let s = take_fund n ''defaulter_default_fund''
        (get_account_balance m ''DEFAULT_FUND'' ''AVAILABLE'' d) r
      in rs = (wr_remaining s, s) \<and> records ev s d d')"
  by (auto simp: step_defaulter_default_fund_def step_results
      dest!: record_step_Inr acrossD [OF steps_frame] split: if_splits)

lemma ccp_equity_Inr:
  "step_ccp_equity ev r n d = Inr (rs, d') \<Longrightarrow>
     (let s = take_fund n ''ccp_equity'' (ccp_equity d) r
      in rs = (wr_remaining s, s) \<and> records ev s d d')"
  by (auto simp: step_ccp_equity_def ccp_equity_def step_results
      dest!: record_step_Inr acrossD [OF steps_frame] split: if_splits option.splits)

lemma surviving_default_fund_Inr:
  "step_surviving_default_fund ev m r n d = Inr (rs, d') \<Longrightarrow>
     (let s = take_shares n ''surviving_members_default_fund'' fund_contribution
        (fund_survivors m d) r
      in rs = (wr_remaining s, s) \<and> records ev s d d')"
  by (auto simp: step_surviving_default_fund_def step_results
      dest!: record_step_Inr fold_mutualize split: if_splits)

lemma loss_allocation_Inr:
  "step_loss_allocation ev m r n d = Inr (rs, d') \<Longrightarrow>
     (let s = take_shares n ''loss_allocation'' loss_share (limit_survivors m d) r
      in rs = (wr_remaining s, s) \<and> records ev s d d')"
  by (auto simp: step_loss_allocation_def step_results
      dest!: record_step_Inr fold_allocate_loss split: if_splits)

subsection \<open>The waterfall follows its plan\<close>

text \<open>The rows of a default event agree with the steps returned, up to rounding to the columns.\<close>

definition recorded :: "uuid \<Rightarrow> waterfall_step list \<Rightarrow> db \<Rightarrow> db \<Rightarrow> bool" where
  "recorded ev steps d d' \<longleftrightarrow> (\<exists>rows. db_steps d' = db_steps d @ rows \<and>
     list_all2 (\<lambda>s row. \<exists>wid jid. row = step_row_of wid ev jid s) steps rows)"

lemma recorded_Nil: "recorded ev [] d d"
  by (simp add: recorded_def)

lemma recorded_snoc: "recorded ev steps d e \<Longrightarrow> records ev s e f \<Longrightarrow> recorded ev (steps @ [s]) d f"
  unfolding recorded_def records_def by (fastforce intro: list_all2_appendI)

lemma recorded_same: "recorded ev steps d e \<Longrightarrow> same_steps e f \<Longrightarrow> recorded ev steps d f"
  by (simp add: recorded_def same_steps_def)

text \<open>One guarded step, given what the step and the note after it do.\<close>

definition follows :: "uuid \<Rightarrow> (account_row \<Rightarrow> bool) \<Rightarrow> db \<Rightarrow> rat \<times> waterfall_step list \<Rightarrow> db \<Rightarrow> bool" where
  "follows ev Q d acc e \<longleftrightarrow> touches Q d e \<and> recorded ev (snd acc) d e"

lemma step_if_remaining_follows:
  assumes "step_if_remaining f g (r, steps) e = Inr (acc, e')"
    and "follows ev Q d (r, steps) e"
    and "\<And>rs e1. f r e = Inr (rs, e1) \<Longrightarrow>
           rs = (wr_remaining (h r), h r) \<and> records ev (h r) e e1"
    and "across (touches Q') (f r)" "\<And>Q. across (touches Q) g" "across same_steps g"
    and "\<And>a. Q a \<or> Q' a \<Longrightarrow> Q2 a"
  shows "follows ev Q2 d acc e' \<and>
         acc = (if 0 < r then (wr_remaining (h r), steps @ [h r]) else (r, steps))"
proof (cases "0 < r")
  case True
  with assms(1) obtain rs e1 where f: "f r e = Inr (rs, e1)"
    and g: "g e1 = Inr ((), e')" and acc: "acc = (fst rs, steps @ [snd rs])"
    by (auto simp: step_if_remaining_def tx_simps split: prod.splits)
  from assms(3) [OF f] have rs: "rs = (wr_remaining (h r), h r)" "records ev (h r) e e1" by auto
  have "touches Q2 d e" using assms(2,7) by (auto simp: follows_def intro: touches_mono)
  moreover have "touches Q2 e e1" using acrossD [OF assms(4) f] assms(7) by (blast intro: touches_mono)
  moreover have "touches Q2 e1 e'" using assms(5) g by (rule acrossD)
  ultimately have "touches Q2 d e'" by (blast intro: tc.trans)
  moreover have "recorded ev (steps @ [h r]) d e'"
    using assms(2) rs(2) acrossD [OF assms(6) g]
    by (auto simp: follows_def intro: recorded_same recorded_snoc)
  ultimately show ?thesis using True rs(1) acc by (simp add: follows_def)
next
  case False
  with assms(1) have "acc = (r, steps)" "e' = e" by (auto simp: step_if_remaining_def tx_simps)
  with False assms(2,7) show ?thesis by (auto simp: follows_def intro: touches_mono)
qed

lemma frame_balances:
  assumes "touches Q d d'" "distinct (map a_id (db_accounts d))"
    "\<And>a. a \<in> set (db_accounts d) \<Longrightarrow> a_account_type a = ty \<Longrightarrow> a_member_id a = m \<Longrightarrow> \<not> Q a"
  shows "get_account_balance m ty pool d' = get_account_balance m ty pool d"
proof -
  have "find_account m ty pool d' = find_account m ty pool d"
    using assms(1) by (simp add: touches_def find_account_def)
  then show ?thesis
    using touches_balance [OF assms(1,2)] assms(3)
    by (auto simp: get_account_balance_def dest!: find_account_Some split: option.split)
qed

lemma frame_ccp_equity:
  assumes "touches Q d d'" "distinct (map a_id (db_accounts d))"
    "\<And>a. a \<in> set (db_accounts d) \<Longrightarrow> a_account_type a = ''CCP_EQUITY'' \<Longrightarrow> \<not> Q a"
  shows "ccp_equity d' = ccp_equity d"
proof -
  have "find_ccp d' = find_ccp d" using assms(1) by (simp add: touches_def find_ccp_def)
  then show ?thesis
    using frame_balances [OF assms(1,2)] assms(3) by (simp add: ccp_equity_def split: option.split)
qed

lemma frame_fund_survivors:
  assumes "touches Q d d'" "distinct (map a_id (db_accounts d))"
    "\<And>a. a \<in> set (db_accounts d) \<Longrightarrow> a_account_type a = ''DEFAULT_FUND'' \<Longrightarrow>
       a_member_id a \<noteq> m \<Longrightarrow> \<not> Q a"
  shows "fund_survivors m d' = fund_survivors m d"
proof -
  have eq: "db_members d' = db_members d" "db_accounts d' = db_accounts d"
    using assms(1) by (auto simp: touches_def)
  show ?thesis
    unfolding fund_survivors_def eq
    by (intro arg_cong [where f = concat] map_cong refl)
      (auto simp: touches_balance [OF assms(1,2)] assms(3) intro!: arg_cong [where f = concat] map_cong)
qed

lemma frame_limit_survivors: "touches Q d d' \<Longrightarrow> limit_survivors m d' = limit_survivors m d"
  by (simp add: touches_def limit_survivors_def)


lemma concat_skip_updated:
  assumes "\<And>r. P r \<Longrightarrow> \<not> q r" "\<And>r. q r \<Longrightarrow> \<not> P (f r)"
  shows "concat (map (\<lambda>m. if P m then g m else []) (update_where q f ms)) =
         concat (map (\<lambda>m. if P m then g m else []) ms)"
  using assms by (induction ms) auto

lemma filter_skip_updated:
  assumes "\<And>r. P r \<Longrightarrow> \<not> q r" "\<And>r. q r \<Longrightarrow> \<not> P (f r)"
  shows "filter P (update_where q f ms) = filter P ms"
  using assms by (induction ms) auto

text \<open>Declaring the default changes the status of the defaulter only, which no fund reads.\<close>

lemma declared_funds:
  assumes "db_accounts e = db_accounts d" "db_entries e = db_entries d"
    "db_members e = update_where (\<lambda>r. m_id r = m) (m_status_update (\<lambda>_. st)) (db_members d)"
  shows "get_member_margin_balance m e = get_member_margin_balance m d"
    "get_account_balance x ty pool e = get_account_balance x ty pool d"
    "ccp_equity e = ccp_equity d" "fund_survivors m e = fund_survivors m d"
    "limit_survivors m e = limit_survivors m d"
proof -
  have bal: "acct_balance e a = acct_balance d a" for a using assms(2) by (simp add: acct_balance_def)
  show "get_member_margin_balance m e = get_member_margin_balance m d"
    by (simp add: get_member_margin_balance_def bal assms(1))
  show acct: "get_account_balance x ty pool e = get_account_balance x ty pool d" for x ty pool
    unfolding get_account_balance_def find_account_def bal assms(1) ..
  have "map_option m_id (fetchone (\<lambda>r. m_lei r = ccp_lei) (update_where (\<lambda>r. m_id r = m)
      (m_status_update (\<lambda>_. st)) ms)) = map_option m_id (fetchone (\<lambda>r. m_lei r = ccp_lei) ms)" for ms
    by (induction ms) auto
  then have "map_option m_id (find_ccp e) = map_option m_id (find_ccp d)"
    unfolding find_ccp_def assms(3) .
  then show "ccp_equity e = ccp_equity d"
    using acct by (auto simp: ccp_equity_def split: option.splits)
  show "fund_survivors m e = fund_survivors m d"
    unfolding fund_survivors_def assms(1,3) bal by (rule concat_skip_updated) auto
  show "limit_survivors m e = limit_survivors m d"
    unfolding limit_survivors_def assms(3) by (subst filter_skip_updated) auto
qed


lemma same_steps_note: "across same_steps (update_event_status ev st tr)"
  by (rule acrossI) (auto simp: update_event_status_def insert_transition_def tx_simps same_steps_def)

text \<open>The accounts touched before step 2, 3 and 4.\<close>

definition touched_2 :: "account_row \<Rightarrow> bool" where
  "touched_2 a \<longleftrightarrow> a_account_type a \<in> {''MARGIN_IM'', ''SETTLEMENT''}"

definition touched_3 :: "uuid \<Rightarrow> account_row \<Rightarrow> bool" where
  "touched_3 m a \<longleftrightarrow> touched_2 a \<or> (a_account_type a = ''DEFAULT_FUND'' \<and> a_member_id a = m)"

definition touched_4 :: "uuid \<Rightarrow> account_row \<Rightarrow> bool" where
  "touched_4 m a \<longleftrightarrow> touched_3 m a \<or> a_account_type a = ''CCP_EQUITY''"

lemma declare_Inr:
  assumes "insert_default m reason x ''detected'' d0 = Inr (ev, d1)"
    and "update_member_status m ''defaulted'' d1 = Inr ((), d2)"
    and "insert_outbox_event a b c t p tid d2 = Inr (oid, d3)"
  shows "db_accounts d3 = db_accounts d0 \<and> db_entries d3 = db_entries d0 \<and>
     db_members d3 = update_where (\<lambda>r. m_id r = m) (m_status_update (\<lambda>_. ''defaulted'')) (db_members d0) \<and>
     db_steps d3 = db_steps d0 \<and> db_schema d3 = db_schema d0"
  using assms
  by (auto simp: insert_default_def update_member_status_def insert_outbox_event_eq fresh_uuid_def
      numeric_def check_vocab_def foreign_key_def tx_simps split: if_splits)

text \<open>The state after the default was declared, before the first step.\<close>

definition declared :: "uuid \<Rightarrow> db \<Rightarrow> db \<Rightarrow> bool" where
  "declared m d e \<longleftrightarrow> db_accounts e = db_accounts d \<and> db_entries e = db_entries d \<and>
     db_members e = update_where (\<lambda>r. m_id r = m) (m_status_update (\<lambda>_. ''defaulted'')) (db_members d) \<and>
     db_steps e = db_steps d \<and> distinct (map a_id (db_accounts e))"

lemma declared_frame:
  assumes "declared m d e"
  shows "get_member_margin_balance m e = get_member_margin_balance m d"
    "get_account_balance x ty pool e = get_account_balance x ty pool d"
    "ccp_equity e = ccp_equity d" "fund_survivors m e = fund_survivors m d"
    "limit_survivors m e = limit_survivors m d" "distinct (map a_id (db_accounts e))"
  using assms declared_funds [of e d m "''defaulted''"] by (auto simp: declared_def)

lemma follow_defaulter_margin:
  assumes "declared m d d3" "step_defaulter_margin ev m loss 1 d3 = Inr (rs, d4)"
    and "update_event_status ev st tr d4 = Inr ((), d5)"
  defines "s1 \<equiv> take_fund 1 ''defaulter_margin'' (get_member_margin_balance m d) loss"
  shows "rs = (wr_remaining s1, s1) \<and> follows ev touched_2 d3 (wr_remaining s1, [s1]) d5"
proof -
  have s1: "rs = (wr_remaining s1, s1)" "records ev s1 d3 d4"
    using defaulter_margin_Inr [OF assms(2)] declared_frame [OF assms(1)]
    by (auto simp: Let_def s1_def)
  have "touches touched_2 d3 d4"
    using acrossD [OF touches_defaulter_margin assms(2)]
    by (rule touches_mono) (auto simp: waterfall_accounts_def touched_2_def)
  then have "touches touched_2 d3 d5"
    using acrossD [OF touches_update_event_status assms(3)] by (rule tc.trans)
  moreover have "recorded ev [s1] d3 d5"
    using recorded_same [OF recorded_snoc [OF recorded_Nil s1(2)] acrossD [OF same_steps_note assms(3)]]
    by simp
  ultimately show ?thesis using s1(1) by (simp add: follows_def)
qed

lemma follow_default_fund:
  assumes "declared m d d3" "follows ev touched_2 d3 (r, steps) e"
    and "step_if_remaining (\<lambda>r. step_defaulter_default_fund ev m r 2)
        (update_event_status ev st tr) (r, steps) e = Inr (acc, e')"
  defines "h \<equiv> take_fund 2 ''defaulter_default_fund''
        (get_account_balance m ''DEFAULT_FUND'' ''AVAILABLE'' d)"
  shows "follows ev (touched_3 m) d3 acc e' \<and>
      acc = (if 0 < r then (wr_remaining (h r), steps @ [h r]) else (r, steps))"
  using assms(3,2)
proof (rule step_if_remaining_follows)
  fix rs e1 assume "step_defaulter_default_fund ev m r 2 e = Inr (rs, e1)"
  from defaulter_default_fund_Inr [OF this] show "rs = (wr_remaining (h r), h r) \<and> records ev (h r) e e1"
    using frame_balances [where Q = touched_2 and d = d3 and d' = e and m = m
        and ty = "''DEFAULT_FUND''" and pool = "''AVAILABLE''"] assms(2) declared_frame [OF assms(1)]
    by (simp add: follows_def touched_2_def Let_def h_def)
qed (rule touches_defaulter_default_fund touches_update_event_status same_steps_note
    | simp add: touched_3_def touched_2_def waterfall_accounts_def | blast)+

lemma follow_ccp_equity:
  assumes "declared m d d3" "follows ev (touched_3 m) d3 (r, steps) e"
    and "step_if_remaining (\<lambda>r. step_ccp_equity ev r 3)
        (update_event_status ev st tr) (r, steps) e = Inr (acc, e')"
  defines "h \<equiv> take_fund 3 ''ccp_equity'' (ccp_equity d)"
  shows "follows ev (touched_4 m) d3 acc e' \<and>
      acc = (if 0 < r then (wr_remaining (h r), steps @ [h r]) else (r, steps))"
  using assms(3,2)
proof (rule step_if_remaining_follows)
  fix rs e1 assume "step_ccp_equity ev r 3 e = Inr (rs, e1)"
  from ccp_equity_Inr [OF this] show "rs = (wr_remaining (h r), h r) \<and> records ev (h r) e e1"
    using frame_ccp_equity [where Q = "touched_3 m" and d = d3 and d' = e] assms(2)
      declared_frame [OF assms(1)]
    by (simp add: follows_def touched_3_def touched_2_def Let_def h_def)
qed (rule touches_ccp_equity touches_update_event_status same_steps_note
    | auto simp: touched_4_def touched_3_def touched_2_def)+

lemma follow_surviving:
  assumes "declared m d d3" "follows ev (touched_4 m) d3 (r, steps) e"
    and "step_if_remaining (\<lambda>r. step_surviving_default_fund ev m r 4)
        (update_event_status ev st tr) (r, steps) e = Inr (acc, e')"
  defines "h \<equiv> take_shares 4 ''surviving_members_default_fund'' fund_contribution (fund_survivors m d)"
  shows "follows ev (\<lambda>_. True) d3 acc e' \<and>
      acc = (if 0 < r then (wr_remaining (h r), steps @ [h r]) else (r, steps))"
  using assms(3,2)
proof (rule step_if_remaining_follows)
  fix rs e1 assume "step_surviving_default_fund ev m r 4 e = Inr (rs, e1)"
  from surviving_default_fund_Inr [OF this] show "rs = (wr_remaining (h r), h r) \<and> records ev (h r) e e1"
    using frame_fund_survivors [where Q = "touched_4 m" and d = d3 and d' = e and m = m] assms(2)
      declared_frame [OF assms(1)]
    by (simp add: follows_def touched_4_def touched_3_def touched_2_def Let_def h_def)
qed (rule touches_surviving touches_update_event_status same_steps_note | simp)+

lemma follow_allocation:
  assumes "declared m d d3" "follows ev (\<lambda>_. True) d3 (r, steps) e"
    and "step_if_remaining (\<lambda>r. step_loss_allocation ev m r 5) (return_tx ()) (r, steps) e
        = Inr (acc, e')"
  defines "h \<equiv> take_shares 5 ''loss_allocation'' loss_share (limit_survivors m d)"
  shows "follows ev (\<lambda>_. True) d3 acc e' \<and>
      acc = (if 0 < r then (wr_remaining (h r), steps @ [h r]) else (r, steps))"
  using assms(3,2)
proof (rule step_if_remaining_follows)
  fix rs e1 assume "step_loss_allocation ev m r 5 e = Inr (rs, e1)"
  from loss_allocation_Inr [OF this] show "rs = (wr_remaining (h r), h r) \<and> records ev (h r) e e1"
    using frame_limit_survivors [where Q = "\<lambda>_. True" and d = d3 and d' = e and m = m] assms(2)
      declared_frame [OF assms(1)]
    by (simp add: follows_def Let_def h_def)
qed (rule touches_allocation tc.across_return ss.across_return | simp)+

lemma execute_waterfall_plan:
  assumes "execute_waterfall m reason loss tr d = Inr (res, d')"
    and "distinct (map a_id (db_accounts d))"
  shows "wf_steps res = waterfall_plan m loss d \<and>
     wf_remaining_loss res = wr_remaining (last (wf_steps res)) \<and>
     wf_status res = (if wf_remaining_loss res = 0 then ''resolved'' else ''partially_resolved'') \<and>
     recorded (wf_default_event_id res) (wf_steps res) d d'"
proof -
  obtain trace d0 ev d1 d2 oid d3 r1 s1 d4 d5 acc2 d6 acc3 d7 acc4 d8 r5 ss d9 d10 oid' where
    0: "(case tr of None \<Rightarrow> new_system ''liquidation-engine'' | Some t \<Rightarrow> return_tx t) d = Inr (trace, d0)" and
    1: "insert_default m reason loss ''detected'' d0 = Inr (ev, d1)"
       "update_member_status m ''defaulted'' d1 = Inr ((), d2)"
       "insert_outbox_event ''default_event'' ev ''default.declared'' ''default.declared''
        [(''default_event_id'', PId ev), (''member_id'', PId m), (''trigger_reason'', reason),
         (''total_exposure'', PDec loss)] (Some (tr_trace_id trace)) d2 = Inr (oid, d3)" and
    2: "step_defaulter_margin ev m loss 1 d3 = Inr ((r1, s1), d4)"
       "update_event_status ev ''margin_liquidated'' (Some trace) d4 = Inr ((), d5)" and
    3: "step_if_remaining (\<lambda>r. step_defaulter_default_fund ev m r 2)
        (update_event_status ev ''default_fund_applied'' (Some trace)) (r1, [s1]) d5 = Inr (acc2, d6)" and
    4: "step_if_remaining (\<lambda>r. step_ccp_equity ev r 3)
        (update_event_status ev ''ccp_equity_applied'' (Some trace)) acc2 d6 = Inr (acc3, d7)" and
    5: "step_if_remaining (\<lambda>r. step_surviving_default_fund ev m r 4)
        (update_event_status ev ''mutualized'' (Some trace)) acc3 d7 = Inr (acc4, d8)" and
    6: "step_if_remaining (\<lambda>r. step_loss_allocation ev m r 5) (return_tx ()) acc4 d8
        = Inr ((r5, ss), d9)" and
    7: "resolve_default ev (if r5 = 0 then ''resolved'' else ''partially_resolved'') d9 = Inr ((), d10)"
       "db_steps d' = db_steps d10" and
    res: "res = \<lparr>wf_default_event_id = ev,
        wf_status = (if r5 = 0 then ''resolved'' else ''partially_resolved''), wf_steps = ss,
        wf_remaining_loss = r5\<rparr>"
    using assms(1) unfolding execute_waterfall_def Let_def
    by (auto simp: tx_simps insert_outbox_event_eq split: prod.splits)
  have "declared m d d3"
    using trace_case_Inr [OF 0] declare_Inr [OF 1] assms(2) by (auto simp: declared_def)
  note f1 = follow_defaulter_margin [OF this 2]
    and f2 = follow_default_fund [OF this _ 3] and f3 = follow_ccp_equity [OF this]
    and f4 = follow_surviving [OF this] and f5 = follow_allocation [OF this]
  obtain r2 st2 r3 st3 r4 st4 where acc: "acc2 = (r2, st2)" "acc3 = (r3, st3)" "acc4 = (r4, st4)"
    by (cases acc2, cases acc3, cases acc4)
  from f1 have s1: "follows ev touched_2 d3 (r1, [s1]) d5" by auto
  note f2 = f2 [OF s1]
  note f3 = f3 [OF f2 [THEN conjunct1, unfolded acc(1)] 4 [unfolded acc(1)]]
  note f4 = f4 [OF f3 [THEN conjunct1, unfolded acc(2)] 5 [unfolded acc(2)]]
  note f5 = f5 [OF f4 [THEN conjunct1, unfolded acc(3)] 6 [unfolded acc(3)]]
  have "recorded ev ss d3 d9" using f5 by (simp add: follows_def)
  moreover have "db_steps d' = db_steps d9" using 7 by (auto simp: resolve_default_def tx_simps)
  ultimately have "recorded ev ss d d'" using \<open>declared m d d3\<close> by (simp add: recorded_def declared_def)
  moreover have "ss = waterfall_plan m loss d \<and> r5 = wr_remaining (last ss)"
    using f1 f2 f3 f4 f5 unfolding acc by (auto simp: waterfall_plan_def Let_def split: if_splits)
  ultimately show ?thesis by (simp add: res)
qed

end
