(* ===== verification/Waterfall_Bounds.thy ===== *)
theory Waterfall_Bounds
  imports Waterfall
begin

section \<open>What the waterfall guarantees, and where it does not\<close>

text \<open>
  Bounds and outcomes of the default waterfall, from its plan: the losses of the steps descend,
  the resources before the survivors' are used up first, a survivor pays at most its fund. The
  concrete cases show the limits: rounded shares that add up to more than the loss, an equity
  account that is overdrawn, the vocabularies of the migrations that refuse the code's values.
\<close>


subsection \<open>Bounds on the plan\<close>

lemma dec_round_diff:
  assumes "num_valued x" "num_valued y" "\<bar>x - y\<bar> < 10 ^ 20"
  shows "num_valued (x - y)"
proof -
  from assms(1,2) obtain m n where "x = of_int m / 10 ^ 8" "y = of_int n / 10 ^ 8"
    by (auto simp: num_valued_def num_valued_iff)
  then have "x - y = of_int (m - n) / 10 ^ 8" by (simp add: diff_divide_distrib)
  with assms(3) show ?thesis unfolding num_valued_def num_valued_iff num_fits_def by blast
qed

lemma take_fund_exact:
  assumes "num_valued r" "num_valued a" "0 \<le> r" "0 \<le> a"
  shows "wr_remaining (take_fund n ty a r) = max (r - a) 0"
    and "num_valued (max (r - a) 0)"
proof -
  have "\<bar>r - a\<bar> < 10 ^ 20" using assms by (auto simp: num_valued_def num_fits_def)
  then have "num_valued (r - a)" using assms dec_round_diff by blast
  moreover have "num_valued 0" by (simp add: num_valued_def num_fits_def)
  ultimately show "num_valued (max (r - a) 0)" by (simp add: max_def)
  then show "wr_remaining (take_fund n ty a r) = max (r - a) 0"
    by (auto simp: take_fund_def dsub_def min_def max_def num_valued_dec)
qed

lemma foldl_dadd_ge:
  assumes "dec_round a = a" "\<And>x. x \<in> set xs \<Longrightarrow> 0 \<le> x"
  shows "a \<le> foldl dadd a xs"
  using assms
proof (induction xs arbitrary: a)
  case (Cons x xs)
  have "a \<le> dadd a x" unfolding dadd_def using Cons.prems by (intro dec.rd_above) auto
  moreover have "dadd a x \<le> foldl dadd (dadd a x) xs"
    using Cons.prems by (intro Cons.IH) (auto simp: dadd_def dec_round_idem)
  ultimately show ?case by simp
qed simp

lemma foldl_dadd_member:
  assumes "x \<in> set xs" "\<And>x. x \<in> set xs \<Longrightarrow> 0 \<le> x \<and> dec_round x = x" "0 \<le> a"
  shows "x \<le> foldl dadd a xs"
  using assms
proof (induction xs arbitrary: a)
  case (Cons y ys)
  show ?case
  proof (cases "x = y")
    case True
    have "x \<le> dadd a x" unfolding dadd_def using Cons.prems True by (intro dec.rd_above) auto
    also have "\<dots> \<le> foldl dadd (dadd a x) ys"
      using Cons.prems by (intro foldl_dadd_ge) (auto simp: dadd_def dec_round_idem)
    finally show ?thesis using True by simp
  next
    case False
    then show ?thesis using Cons by (auto intro!: Cons.IH dadd_nonneg)
  qed
qed simp

lemma sum_nonzero_member:
  assumes "(m, b) \<in> set ss" "\<And>m b. (m, b) \<in> set ss \<Longrightarrow> 0 \<le> b \<and> dec_round b = b"
  shows "b \<le> sum_nonzero ss"
proof (cases "b = 0")
  case True
  then show ?thesis using assms(2) by (auto simp: sum_nonzero_def intro!: dsum_nonneg)
next
  case False
  with assms show ?thesis
    unfolding sum_nonzero_def dsum_def by (intro foldl_dadd_member) force+
qed

lemma collect_ge: "dec_round acc = acc \<Longrightarrow> acc \<le> collect share acc s \<and> dec_round (collect share acc s) = collect share acc s"
  by (auto simp: collect_def dadd_def dec_round_idem intro: dec.rd_above)

lemma foldl_collect_nonneg:
  "dec_round acc = acc \<Longrightarrow> acc \<le> foldl (collect share) acc ss \<and>
     dec_round (foldl (collect share) acc ss) = foldl (collect share) acc ss"
proof (induction ss arbitrary: acc)
  case (Cons s ss)
  then show ?case
    using collect_ge [of acc share s] Cons.IH [of "collect share acc s"]
    by (auto intro: order_trans [of acc "collect share acc s"])
qed simp

lemma collected_nonneg: "0 \<le> collected share ss r"
  using foldl_collect_nonneg [of 0 "share (sum_nonzero ss) r" ss]
  by (simp add: collected_def Let_def)

lemma remaining_rounded:
  "dec_round (wr_remaining (take_fund n ty a r)) = wr_remaining (take_fund n ty a r)"
  "dec_round (wr_remaining (take_shares n ty sh ss r)) = wr_remaining (take_shares n ty sh ss r)"
  by (simp_all add: take_fund_def take_shares_def dsub_def dec_round_idem)

lemma take_fund_below:
  "dec_round r = r \<Longrightarrow> 0 \<le> a \<Longrightarrow> 0 \<le> r \<Longrightarrow> wr_remaining (take_fund n ty a r) \<le> r"
  by (auto simp: take_fund_def dsub_def intro!: dec.rd_below)

lemma take_shares_below: "dec_round r = r \<Longrightarrow> wr_remaining (take_shares n ty sh ss r) \<le> r"
  using collected_nonneg [of sh ss r] by (auto simp: take_shares_def dsub_def intro!: dec.rd_below)

lemma cascade_descends:
  assumes "dec_round r = r"
    and "\<And>f x. f \<in> set fs \<Longrightarrow> dec_round x = x \<Longrightarrow> 0 \<le> x \<Longrightarrow>
           wr_remaining (f x) \<le> x \<and> dec_round (wr_remaining (f x)) = wr_remaining (f x)"
  shows "sorted_wrt (\<lambda>x y. y \<le> x) (r # map wr_remaining (cascade fs r))"
  using assms
proof (induction fs arbitrary: r)
  case (Cons f fs)
  show ?case
  proof (cases "0 < r")
    case True
    with Cons.prems have f: "wr_remaining (f r) \<le> r"
      "dec_round (wr_remaining (f r)) = wr_remaining (f r)" by auto
    with Cons have "sorted_wrt (\<lambda>x y. y \<le> x) (wr_remaining (f r) # map wr_remaining
        (cascade fs (wr_remaining (f r))))" by auto
    with f True show ?thesis by auto
  qed simp
qed simp

lemma sorted_below:
  fixes r :: rat
  assumes "wr_remaining s \<le> r"
    "sorted_wrt (\<lambda>x y. y \<le> x) (wr_remaining s # map wr_remaining ss)"
  shows "sorted_wrt (\<lambda>x y. y \<le> x) (r # map wr_remaining (s # ss))"
  using assms by (auto intro: order_trans)

text \<open>A loss that the first three funds cover is gone after three steps.\<close>

lemma cascade_covered:
  assumes "wr_remaining s = r1" "wr_remaining (f r1) = r2" "wr_remaining (g r2) = 0"
    "0 \<le> r1" "0 \<le> r2"
  shows "wr_remaining (last (s # cascade (f # g # hs) (wr_remaining s))) = 0 \<and>
     length (s # cascade (f # g # hs) (wr_remaining s)) \<le> 3"
  using assms by (cases hs) auto

lemma margin_balance_nonneg: "0 \<le> get_member_margin_balance m d"
  unfolding get_member_margin_balance_def by (intro sum_list_nonneg) auto


subsection \<open>A concrete default\<close>

text \<open>
  Member 5 defaults with a margin of 60, a fund contribution of 30, and the clearing house has an
  equity of 20; the vocabularies are the widened ones.
\<close>

definition default_account :: "uuid \<Rightarrow> uuid \<Rightarrow> string \<Rightarrow> account_row" where
  "default_account a m ty = \<lparr>a_id = a, a_member_id = m, a_account_type = ty, a_currency = ''USD'',
     a_pool = ''AVAILABLE''\<rparr>"

definition default_db :: db where
  "default_db = (empty_db widened_schema)\<lparr>
     db_members :=
       [\<lparr>m_id = 0, m_lei = ccp_lei, m_name = ''CCP'', m_status = ''active'', m_credit_limit = 0\<rparr>,
        \<lparr>m_id = 5, m_lei = ''A'', m_name = ''A'', m_status = ''active'', m_credit_limit = 0\<rparr>],
     db_accounts := [default_account 10 5 ''MARGIN_IM'', default_account 11 5 ''DEFAULT_FUND'',
        default_account 12 0 ''CCP_EQUITY'', default_account 13 0 ''SETTLEMENT''],
     db_journals := [\<lparr>j_id = 20, j_journal_type = ''ADJUSTMENT'', j_reference_type = ''seed'',
        j_reference_id = Some 0, j_status = ''confirmed''\<rparr>],
     db_entries := [\<lparr>je_journal_id = 20, je_account_id = 10, je_debit = 60, je_credit = 0\<rparr>,
        \<lparr>je_journal_id = 20, je_account_id = 11, je_debit = 30, je_credit = 0\<rparr>,
        \<lparr>je_journal_id = 20, je_account_id = 12, je_debit = 20, je_credit = 0\<rparr>,
        \<lparr>je_journal_id = 20, je_account_id = 13, je_debit = 0, je_credit = 110\<rparr>],
     db_next_uuid := 30\<rparr>"

lemmas default_defs = default_db_def default_account_def empty_db_def

lemma default_balances:
  "get_member_margin_balance 5 default_db = 60"
  "get_account_balance 5 ''DEFAULT_FUND'' ''AVAILABLE'' default_db = 30"
  "ccp_equity default_db = 20"
  by (simp_all add: get_member_margin_balance_def get_account_balance_def ccp_equity_def find_ccp_def
      find_account_def acct_balance_def default_defs ccp_lei_def)

lemma default_distinct: "distinct (map a_id (db_accounts default_db))"
  by (simp add: default_defs)


subsection \<open>When the waterfall runs to its end\<close>

text \<open>The vocabularies the steps write, and the default event they belong to.\<close>

definition wf_vocab :: "schema \<Rightarrow> bool" where
  "wf_vocab s \<longleftrightarrow> ''DEFAULT_WATERFALL_STEP'' \<in> set (chk_journal_type s) \<and>
     ''confirmed'' \<in> set (chk_journal_status s) \<and>
     {''defaulter_margin'', ''defaulter_default_fund'', ''ccp_equity''} \<subseteq> set (chk_step_type s) \<and>
     {''detected'', ''resolved''} \<subseteq> set (chk_default_status s) \<and>
     ''defaulted'' \<in> set (chk_member_status s)"

definition wf_ready :: "uuid \<Rightarrow> db \<Rightarrow> bool" where
  "wf_ready ev d \<longleftrightarrow> wf_vocab (db_schema d) \<and> has_default ev d"

definition ready_kept :: "db \<Rightarrow> db \<Rightarrow> bool" where
  "ready_kept d d' \<longleftrightarrow> db_schema d' = db_schema d \<and> db_defaults d' = db_defaults d"

interpretation rk: tx_relation ready_kept
  by unfold_locales (auto simp: ready_kept_def)

lemma ready_kept_ready: "ready_kept d d' \<Longrightarrow> wf_ready ev d \<Longrightarrow> wf_ready ev d'"
  by (simp add: ready_kept_def wf_ready_def has_default_def)

lemma ready_kept_parts:
  "across ready_kept (create_waterfall_journal ev m x src)"
  "across ready_kept (record_step ev n st a b c j)"
  "across ready_kept (update_event_status ev st tr)"
proof -
  show "across ready_kept (create_waterfall_journal ev m x src)"
    by (rule acrossI) (auto simp: create_waterfall_journal_def tx_simps insert_journal_Inr
        insert_entry_Inr insert_outbox_event_eq ready_kept_def split: option.splits)
  show "across ready_kept (record_step ev n st a b c j)"
    by (rule acrossI) (auto simp: record_step_def insert_step_def fresh_uuid_def numeric_def
        check_vocab_def foreign_key_def tx_simps ready_kept_def split: if_splits)
  show "across ready_kept (update_event_status ev st tr)"
    by (rule acrossI)
      (auto simp: update_event_status_def insert_transition_def tx_simps ready_kept_def)
qed

lemma ready_kept_steps:
  "across ready_kept (step_defaulter_margin ev m r n)"
  "across ready_kept (step_defaulter_default_fund ev m r n)"
  "across ready_kept (step_ccp_equity ev r n)"
  unfolding step_defaulter_margin_def step_defaulter_default_fund_def step_ccp_equity_def Let_def
  by (intro rk.across_rules ready_kept_parts)+

lemma find_account_has: "find_account m ty pool d = Some a \<Longrightarrow> has_account (a_id a) d"
  by (auto simp: has_account_def dest: find_account_Some)

lemma has_account_frame [simp]:
  "has_account a (db_entries_update f d) = has_account a d"
  "has_account a (db_deferred_update g d) = has_account a d"
  "has_account a (db_journals_update h d) = has_account a d"
  "has_account a (db_next_uuid_update k d) = has_account a d"
  by (simp_all add: has_account_def)

lemma has_journal_frame [simp]:
  "has_journal j (db_entries_update f d) = has_journal j d"
  "has_journal j (db_deferred_update g d) = has_journal j d"
  "has_journal j (db_outbox_update h d) = has_journal j d"
  "has_journal j (db_next_uuid_update k d) = has_journal j d"
  "has_journal j (d\<lparr>db_journals := js @ [r]\<rparr>) \<longleftrightarrow> has_journal j (d\<lparr>db_journals := js\<rparr>) \<or> j_id r = j"
  by (auto simp: has_journal_def)

lemma waterfall_journal_ok:
  assumes "wf_ready ev' d" "num_valued x" "0 < x"
  shows "\<exists>j d'. create_waterfall_journal ev m x src d = Inr (j, d') \<and> has_journal j d' \<and>
     wf_ready ev' d'"
proof -
  have x: "num_round x = x" "num_fits x" "num_fits 0" using assms(2)
    by (auto simp: num_valued_def num_fits_def)
  have "\<exists>j d'. create_waterfall_journal ev m x src d = Inr (j, d') \<and> has_journal j d'"
    using assms(1,3) x
    by (auto simp: create_waterfall_journal_def tx_simps insert_journal_Inr insert_entry_Inr
        insert_outbox_event_eq wf_ready_def wf_vocab_def find_account_has split: option.split)
  then show ?thesis using assms(1) acrossD [OF ready_kept_parts(1)] ready_kept_ready by blast
qed

lemma record_step_ok:
  assumes "wf_ready ev d" "st \<in> set (chk_step_type (db_schema d))"
    "num_valued av" "num_valued ap" "num_valued rm" "case j of None \<Rightarrow> True | Some j \<Rightarrow> has_journal j d"
  shows "\<exists>s d'. record_step ev n st av ap rm j d = Inr (s, d')"
  using assms
  by (auto simp: record_step_def insert_step_def fresh_uuid_def numeric_def check_vocab_def
      foreign_key_def tx_simps wf_ready_def has_default_def num_valued_def split: option.splits)

text \<open>A step that takes from one fund: journal when something is applied, then the row.\<close>

lemma take_step_ok:
  assumes "wf_ready ev d" "st \<in> set (chk_step_type (db_schema d))"
    "num_valued r" "num_valued a" "0 \<le> r" "0 \<le> a"
  shows "\<exists>rs d'. bind_tx (if 0 < min a r
        then bind_tx (create_waterfall_journal ev m (min a r) src) (\<lambda>j. return_tx (Some j))
        else return_tx None) (\<lambda>jid.
     bind_tx (record_step ev n st a (min a r) (dsub r (min a r)) jid) (\<lambda>step.
     return_tx (dsub r (min a r), step))) d = Inr (rs, d')"
proof -
  have app: "num_valued (min a r)" using assms(3,4) by (simp add: min_def)
  have rem: "num_valued (dsub r (min a r))"
    using take_fund_exact [OF assms(3-6)] by (simp add: take_fund_def)
  show ?thesis
  proof (cases "0 < min a r")
    case True
    from waterfall_journal_ok [OF assms(1) app True] obtain j e where
      j: "create_waterfall_journal ev m (min a r) src d = Inr (j, e)" "has_journal j e"
        "wf_ready ev e" by blast
    have "db_schema e = db_schema d"
      using acrossD [OF ready_kept_parts(1) j(1)] by (simp add: ready_kept_def)
    then obtain s e' where "record_step ev n st a (min a r) (dsub r (min a r)) (Some j) e = Inr (s, e')"
      using record_step_ok [OF j(3) _ assms(4) app rem, of st "Some j" n] assms(2) j(2) by auto
    then have "bind_tx (bind_tx (create_waterfall_journal ev m (min a r) src) (\<lambda>j. return_tx (Some j)))
        (\<lambda>jid. bind_tx (record_step ev n st a (min a r) (dsub r (min a r)) jid) (\<lambda>step.
         return_tx (dsub r (min a r), step))) d = Inr ((dsub r (min a r), s), e')"
      unfolding bind_tx_def j(1) return_tx_def by simp
    with True show ?thesis by (simp only: if_True) blast
  next
    case False
    obtain s e' where "record_step ev n st a (min a r) (dsub r (min a r)) None d = Inr (s, e')"
      using record_step_ok [OF assms(1,2,4) app rem, of None n] by auto
    then have "bind_tx (return_tx None) (\<lambda>jid. bind_tx (record_step ev n st a (min a r)
        (dsub r (min a r)) jid) (\<lambda>step. return_tx (dsub r (min a r), step))) d =
        Inr ((dsub r (min a r), s), e')"
      unfolding bind_tx_def return_tx_def by simp
    with False show ?thesis by (simp only: if_False) blast
  qed
qed

lemma defaulter_margin_ok:
  assumes "wf_ready ev d" "num_valued r" "0 \<le> r" "num_valued (get_member_margin_balance m d)"
  shows "\<exists>rs d'. step_defaulter_margin ev m r 1 d = Inr (rs, d')"
  unfolding step_defaulter_margin_def Let_def bind_gets_tx
  using assms margin_balance_nonneg by (intro take_step_ok) (auto simp: wf_ready_def wf_vocab_def)

lemma default_fund_ok:
  assumes "wf_ready ev d" "num_valued r" "0 \<le> r"
    "num_valued (get_account_balance m ''DEFAULT_FUND'' ''AVAILABLE'' d)"
    "0 \<le> get_account_balance m ''DEFAULT_FUND'' ''AVAILABLE'' d"
  shows "\<exists>rs d'. step_defaulter_default_fund ev m r 2 d = Inr (rs, d')"
  unfolding step_defaulter_default_fund_def Let_def bind_gets_tx
  using assms by (intro take_step_ok) (auto simp: wf_ready_def wf_vocab_def)

lemma ccp_equity_ok:
  assumes "wf_ready ev d" "num_valued r" "0 \<le> r" "num_valued (ccp_equity d)" "0 \<le> ccp_equity d"
  shows "\<exists>rs d'. step_ccp_equity ev r 3 d = Inr (rs, d')"
proof (cases "find_ccp d")
  case None
  have z: "min 0 r = 0" using assms(3) by simp
  have e: "ccp_equity d = 0" using None by (simp add: ccp_equity_def)
  have "\<exists>rs d'. bind_tx (if 0 < min 0 r
        then bind_tx (create_waterfall_journal ev 0 (min 0 r) []) (\<lambda>j. return_tx (Some j))
        else return_tx None) (\<lambda>jid.
     bind_tx (record_step ev 3 ''ccp_equity'' 0 (min 0 r) (dsub r (min 0 r)) jid) (\<lambda>step.
     return_tx (dsub r (min 0 r), step))) d = Inr (rs, d')"
    using assms e by (intro take_step_ok) (auto simp: wf_ready_def wf_vocab_def)
  then show ?thesis by (simp add: step_ccp_equity_def Let_def None z)
next
  case (Some c)
  show ?thesis
    unfolding step_ccp_equity_def Let_def bind_gets_tx Some option.case
    using assms Some by (intro take_step_ok) (auto simp: wf_ready_def wf_vocab_def ccp_equity_def)
qed

lemma step_if_remaining_ok:
  assumes "0 < r \<Longrightarrow> \<exists>rs e'. f r e = Inr (rs, e')"
  shows "\<exists>acc e'. step_if_remaining f (update_event_status ev st tr) (r, steps) e = Inr (acc, e')"
  using assms
  by (cases "0 < r")
    (auto simp: step_if_remaining_def update_event_status_def insert_transition_def tx_simps
      split: prod.split)

lemma ready_kept_if:
  "(\<And>r. across ready_kept (f r)) \<Longrightarrow>
   across ready_kept (step_if_remaining f (update_event_status ev st tr) acc)"
  unfolding step_if_remaining_def by (intro rk.across_rules ready_kept_parts)

lemma step_if_done: "step_if_remaining f g (0, steps) e = Inr ((0, steps), e)"
  by (simp add: step_if_remaining_def return_tx_def)

text \<open>The own resources of a default: the defaulter's margin and fund and the equity of the
  clearing house, each kept in the columns and not overdrawn.\<close>

definition own_resources :: "uuid \<Rightarrow> db \<Rightarrow> rat" where
  "own_resources m d = get_member_margin_balance m d +
     get_account_balance m ''DEFAULT_FUND'' ''AVAILABLE'' d + ccp_equity d"

definition sound_funds :: "uuid \<Rightarrow> db \<Rightarrow> bool" where
  "sound_funds m d \<longleftrightarrow> num_valued (get_member_margin_balance m d) \<and>
     num_valued (get_account_balance m ''DEFAULT_FUND'' ''AVAILABLE'' d) \<and>
     num_valued (ccp_equity d) \<and> 0 \<le> get_account_balance m ''DEFAULT_FUND'' ''AVAILABLE'' d \<and>
     0 \<le> ccp_equity d"

lemma covered_plan:
  assumes "sound_funds m d" "num_valued loss" "0 \<le> loss" "loss \<le> own_resources m d"
  defines "r1 \<equiv> max (loss - get_member_margin_balance m d) 0"
  defines "r2 \<equiv> max (r1 - get_account_balance m ''DEFAULT_FUND'' ''AVAILABLE'' d) 0"
  shows "wr_remaining (take_fund n1 t1 (get_member_margin_balance m d) loss) = r1"
    and "wr_remaining (take_fund n2 t2 (get_account_balance m ''DEFAULT_FUND'' ''AVAILABLE'' d) r1) = r2"
    and "wr_remaining (take_fund n3 t3 (ccp_equity d) r2) = 0"
    and "num_valued r1" "num_valued r2" "0 \<le> r1" "0 \<le> r2"
    and "wr_remaining (last (waterfall_plan m loss d)) = 0" "length (waterfall_plan m loss d) \<le> 3"
proof -
  have f: "num_valued (get_member_margin_balance m d)"
     "num_valued (get_account_balance m ''DEFAULT_FUND'' ''AVAILABLE'' d)" "num_valued (ccp_equity d)"
     "0 \<le> get_account_balance m ''DEFAULT_FUND'' ''AVAILABLE'' d" "0 \<le> ccp_equity d"
    using assms(1) by (auto simp: sound_funds_def)
  show r: "0 \<le> r1" "0 \<le> r2" by (simp_all add: r1_def r2_def)
  note x1 = take_fund_exact [OF assms(2) f(1) assms(3) margin_balance_nonneg, folded r1_def]
  note x2 = take_fund_exact [OF x1(2) f(2) r(1) f(4), folded r2_def]
  note x3 = take_fund_exact [OF x2(2) f(3) r(2) f(5)]
  have "max (r2 - ccp_equity d) 0 = 0"
    using f(4,5) assms(4) margin_balance_nonneg [of m d]
    by (simp add: max_def r1_def r2_def own_resources_def)
  with x3(1) have x3: "wr_remaining (take_fund n ty (ccp_equity d) r2) = 0" for n ty by simp
  show "wr_remaining (take_fund n1 t1 (get_member_margin_balance m d) loss) = r1"
    "wr_remaining (take_fund n2 t2 (get_account_balance m ''DEFAULT_FUND'' ''AVAILABLE'' d) r1) = r2"
    "wr_remaining (take_fund n3 t3 (ccp_equity d) r2) = 0" "num_valued r1" "num_valued r2"
    by (rule x1 x2 x3)+
  have "wr_remaining (last (waterfall_plan m loss d)) = 0 \<and> length (waterfall_plan m loss d) \<le> 3"
    unfolding waterfall_plan_def Let_def by (rule cascade_covered) (rule x1(1) x2(1) x3 r)+
  then show "wr_remaining (last (waterfall_plan m loss d)) = 0" "length (waterfall_plan m loss d) \<le> 3"
    by auto
qed

lemma declare_ok:
  assumes "num_valued loss" "has_member m d" "wf_vocab (db_schema d)"
  shows "\<exists>ev d1 d2 oid d3. insert_default m reason loss ''detected'' d = Inr (ev, d1) \<and>
     update_member_status m ''defaulted'' d1 = Inr ((), d2) \<and>
     insert_outbox_event a ev c t (p ev) tid d2 = Inr (oid, d3) \<and> wf_ready ev d3"
  using assms
  by (auto simp: insert_default_def update_member_status_def insert_outbox_event_eq fresh_uuid_def
      numeric_def check_vocab_def foreign_key_def tx_simps num_valued_def wf_vocab_def wf_ready_def
      has_default_def has_member_def)

lemma execute_waterfall_covered:
  assumes "wf_vocab (db_schema d)" "has_member m d" "distinct (map a_id (db_accounts d))"
    "sound_funds m d" "num_valued loss" "0 \<le> loss" "loss \<le> own_resources m d"
  shows "\<exists>r. execute_waterfall m reason loss (Some tr) d = Inr r"
proof -
  let ?p = "\<lambda>ev. [(''default_event_id'', PId ev), (''member_id'', PId m), (''trigger_reason'', reason),
         (''total_exposure'', PDec loss)]"
  note plan = covered_plan [OF assms(4-7)]
  have funds: "num_valued (get_member_margin_balance m d)"
     "num_valued (get_account_balance m ''DEFAULT_FUND'' ''AVAILABLE'' d)" "num_valued (ccp_equity d)"
     "0 \<le> get_account_balance m ''DEFAULT_FUND'' ''AVAILABLE'' d" "0 \<le> ccp_equity d"
    using assms(4) by (auto simp: sound_funds_def)
  obtain ev d1 d2 oid d3 where 1: "insert_default m reason loss ''detected'' d = Inr (ev, d1)"
      "update_member_status m ''defaulted'' d1 = Inr ((), d2)"
      "insert_outbox_event ''default_event'' ev ''default.declared'' ''default.declared'' (?p ev)
         (Some (tr_trace_id tr)) d2 = Inr (oid, d3)" and ready: "wf_ready ev d3"
    using declare_ok [OF assms(5,2,1), where p = ?p] by blast
  have decl: "declared m d d3" using declare_Inr [OF 1] assms(3) by (simp add: declared_def)
  note same = declared_frame [OF decl]
  obtain rs d4 where 2: "step_defaulter_margin ev m loss 1 d3 = Inr (rs, d4)"
    using defaulter_margin_ok [OF ready assms(5,6), of m] funds(1) same by auto
  obtain d5 where 3: "update_event_status ev ''margin_liquidated'' (Some tr) d4 = Inr ((), d5)"
    by (simp add: update_event_status_def insert_transition_def modify_tx_def)
  let ?r1 = "max (loss - get_member_margin_balance m d) 0"
  let ?r2 = "max (?r1 - get_account_balance m ''DEFAULT_FUND'' ''AVAILABLE'' d) 0"
  define s1 where "s1 = take_fund 1 ''defaulter_margin'' (get_member_margin_balance m d) loss"
  have rs: "rs = (?r1, s1)" and fo1: "follows ev touched_2 d3 (?r1, [s1]) d5"
    using follow_defaulter_margin [OF decl 2 3] plan(1) by (simp_all add: s1_def)
  have r5: "wf_ready ev d5" using ready
    by (meson ready_kept_ready acrossD ready_kept_parts(3) ready_kept_steps(1) 2 3)
  have "get_account_balance m ''DEFAULT_FUND'' ''AVAILABLE'' d5 =
      get_account_balance m ''DEFAULT_FUND'' ''AVAILABLE'' d"
    using frame_balances [where Q = touched_2 and d = d3 and d' = d5 and m = m
        and ty = "''DEFAULT_FUND''" and pool = "''AVAILABLE''"] fo1 same
    by (simp add: follows_def touched_2_def)
  with default_fund_ok [OF r5 plan(4) plan(6), of m] funds(2,4)
  have "\<exists>rs e. step_defaulter_default_fund ev m ?r1 2 d5 = Inr (rs, e)" by simp
  then obtain acc2 d6 where 4: "step_if_remaining (\<lambda>r. step_defaulter_default_fund ev m r 2)
        (update_event_status ev ''default_fund_applied'' (Some tr)) (?r1, [s1]) d5 = Inr (acc2, d6)"
    using step_if_remaining_ok [where f = "\<lambda>r. step_defaulter_default_fund ev m r 2"] by blast
  note f2 = follow_default_fund [OF decl fo1 4]
  have "fst acc2 = ?r2"
    using f2 plan(2) funds(4) by (auto simp: max_def split: if_splits)
  then obtain ss2 where acc2: "acc2 = (?r2, ss2)" by (cases acc2) simp
  have r6: "wf_ready ev d6" using r5 acrossD [OF ready_kept_if 4] ready_kept_steps(2) ready_kept_ready by blast
  have "ccp_equity d6 = ccp_equity d"
    using frame_ccp_equity [where Q = "touched_3 m" and d = d3 and d' = d6] f2 same
    by (simp add: follows_def touched_3_def touched_2_def)
  with ccp_equity_ok [OF r6 plan(5) plan(7)] funds(3,5)
  have "\<exists>rs e. step_ccp_equity ev ?r2 3 d6 = Inr (rs, e)" by simp
  then obtain acc3 d7 where 5: "step_if_remaining (\<lambda>r. step_ccp_equity ev r 3)
        (update_event_status ev ''ccp_equity_applied'' (Some tr)) acc2 d6 = Inr (acc3, d7)"
    using step_if_remaining_ok [where f = "\<lambda>r. step_ccp_equity ev r 3"] unfolding acc2 by blast
  have "fst acc3 = 0"
    using follow_ccp_equity [OF decl f2 [THEN conjunct1, unfolded acc2] 5 [unfolded acc2]]
      plan(3) plan(7) by (auto split: if_splits)
  then obtain ss3 where acc3: "acc3 = (0, ss3)" by (cases acc3) simp
  have r7: "wf_ready ev d7" using r6 acrossD [OF ready_kept_if 5] ready_kept_steps(3) ready_kept_ready by blast
  then obtain d8 where 6: "resolve_default ev ''resolved'' d7 = Inr ((), d8)"
    by (simp add: resolve_default_def run_simps wf_ready_def wf_vocab_def)
  obtain oid' d9 where 7: "insert_outbox_event ''default_event'' ev ''default.resolved''
      ''default.resolved'' [(''default_event_id'', PId ev), (''status'', PStr ''resolved''),
         (''remaining_loss'', PDec 0)] (Some (tr_trace_id tr)) d8 = Inr (oid', d9)"
    by (simp add: insert_outbox_event_eq)
  show ?thesis
    by (simp only: execute_waterfall_def Let_def bind_tx_def return_tx_def option.case prod.case
        sum.case 1 2 3 4 5 [unfolded acc2] rs acc2 acc3 step_if_done [unfolded return_tx_def]
        if_True refl 6 7) blast
qed

lemma default_vocab: "wf_vocab (db_schema default_db)"
  by (simp add: wf_vocab_def default_defs widened_schema_def schema_defs JournalType_members_def
      DefaultEventStatus_members_def WaterfallStepType_members_def)

lemma default_sound: "sound_funds 5 default_db" "own_resources 5 default_db = 110"
  "has_member 5 default_db"
proof -
  show "sound_funds 5 default_db" "own_resources 5 default_db = 110"
    by (simp_all add: sound_funds_def own_resources_def default_balances num_valued_numeral)
  show "has_member 5 default_db" by (simp add: has_member_def default_db_def)
qed

lemma default_runs:
  "\<exists>r. execute_waterfall 5 PNone 100 (Some example_trace) default_db = Inr r"
  by (rule execute_waterfall_covered)
    (simp_all add: default_vocab default_sound default_distinct num_valued_numeral)

subsection \<open>Properties\<close>







text \<open>What a surviving member pays is bounded: its part of the mutualised loss is not
  negative and at most its fund and at most the loss.\<close>

theorem fund_contribution_bounded:
  assumes "dec_round loss = loss" "0 \<le> loss"
    and "\<And>s b. (s, b) \<in> set (fund_survivors m d) \<Longrightarrow> dec_round b = b"
    and "(s, b) \<in> set (fund_survivors m d)"
  defines "pays \<equiv> fund_contribution (sum_nonzero (fund_survivors m d)) loss b"
  shows "0 \<le> pays \<and> pays \<le> b \<and> pays \<le> loss"
proof -
  have pos: "0 < b" if "(s, b) \<in> set (fund_survivors m d)" for s b
    using that by (auto simp: fund_survivors_def split: if_splits)
  then have "b \<le> sum_nonzero (fund_survivors m d)"
    using assms(3,4) by (intro sum_nonzero_member) (auto intro: less_imp_le)
  with pos [OF assms(4)] dec.share_bounds [OF assms(1,2), of b "sum_nonzero (fund_survivors m d)"]
  show ?thesis by (auto simp: pays_def fund_contribution_def Let_def dmul_def ddiv_def min_def)
qed

theorem fund_contribution_bounded_witness:
  "let d = default_db\<lparr>db_members := map (m_status_update (\<lambda>_. ''active'')) (db_members default_db)\<rparr>;
     x = fund_contribution (sum_nonzero (fund_survivors 0 d)) 20 30
   in 0 \<le> x \<and> x \<le> 30 \<and> x \<le> 20"
proof -
  let ?d = "default_db\<lparr>db_members := map (m_status_update (\<lambda>_. ''active'')) (db_members default_db)\<rparr>"
  have s: "fund_survivors 0 ?d = [(5, 30)]"
    by (simp add: fund_survivors_def acct_balance_def default_defs)
  show ?thesis
    using fund_contribution_bounded [of 20 0 ?d 5 30] by (simp add: s whole_eval Let_def)
qed

subsection \<open>Shares that overshoot\<close>

definition ninth_share :: int where
  "ninth_share = 1285714285714285714285714286"

lemma fits_27: "\<bar>n\<bar> < 10 ^ 28 \<Longrightarrow> dec_round (of_int n / 10 ^ 27) = of_int n / 10 ^ 27"
  using dec_round_exact [of n "- 27"] by (simp add: power_int_minus field_simps)

lemma dadd_27:
  "\<bar>m + n\<bar> < 10 ^ 28 \<Longrightarrow> dadd (of_int m / 10 ^ 27) (of_int n / 10 ^ 27) = of_int (m + n) / 10 ^ 27"
  using fits_27 [of "m + n"] by (simp add: dadd_def add_divide_distrib)

lemma seventh: "dec_round (1 / 7) = 1428571428571428571428571429 / 10 ^ 28"
  by (simp add: dec_eval)

lemma nine_sevenths: "fund_contribution 700 9 100 = of_int ninth_share / 10 ^ 27"
proof -
  have "dec_round (12857142857142857142857142861 / 10 ^ 28) = of_int ninth_share / 10 ^ 27"
    by (simp add: dec_eval ninth_share_def)
  moreover have "ddiv 100 700 * 9 = 12857142857142857142857142861 / 10 ^ 28"
  proof -
    have "(100 :: rat) / 700 = 1 / 7" by simp
    then have "ddiv 100 700 = 1428571428571428571428571429 / 10 ^ 28"
      unfolding ddiv_def by (simp only: seventh)
    then show ?thesis by simp
  qed
  ultimately have "dmul (ddiv 100 700) 9 = of_int ninth_share / 10 ^ 27" by (simp only: dmul_def)
  then show ?thesis by (simp add: fund_contribution_def Let_def ninth_share_def)
qed

lemma collect_share:
  assumes "0 \<le> m" "m + ninth_share < 10 ^ 28"
  shows "collect (fund_contribution 700 9) (of_int m / 10 ^ 27) (i, 100) =
         of_int (m + ninth_share) / 10 ^ 27"
proof -
  have "0 < (of_int ninth_share / 10 ^ 27 :: rat)" by (simp add: ninth_share_def)
  moreover have "\<bar>m + ninth_share\<bar> < 10 ^ 28" using assms by (simp add: ninth_share_def)
  ultimately show ?thesis by (simp only: collect_def nine_sevenths snd_conv dadd_27) simp
qed

definition ninths :: "int \<Rightarrow> rat" where
  "ninths k = of_int (k * ninth_share) / 10 ^ 27"

lemma collect_ninths:
  "0 \<le> k \<Longrightarrow> k < 7 \<Longrightarrow> collect (fund_contribution 700 9) (ninths k) (i, 100) = ninths (k + 1)"
  using collect_share [of "k * ninth_share" i]
  by (simp add: ninths_def ninth_share_def distrib_right)

text \<open>The rounded shares of step 4 can add up to more than the loss: with seven equal funds
  and a loss of 9 each pays 9/7 rounded up to 28 digits, and the step leaves a negative
  remainder, which is neither resolved nor allocated further.\<close>

theorem shares_overshoot:
  "wr_remaining (take_shares 4 ''surviving_members_default_fund'' fund_contribution
     (map (\<lambda>i. (i, 100)) [1, 2, 3, 4, 5, 6, 7]) 9) = - (2 / 10 ^ 27)"
proof -
  let ?ss = "map (\<lambda>i. (i, 100)) [1, 2, 3, 4, 5, 6, 7 :: uuid]"
  have total: "sum_nonzero ?ss = 700"
    by (simp add: sum_nonzero_def dsum_def dadd_def whole_eval)
  have fold: "foldl (collect (fund_contribution 700 9)) (ninths k) (map (\<lambda>i. (i, 100)) is) =
      ninths (k + int (length is))" if "0 \<le> k" "k + int (length is) \<le> 7" for k and "is" :: "uuid list"
    using that by (induction "is" arbitrary: k) (simp_all add: collect_ninths ac_simps)
  have "foldl (collect (fund_contribution 700 9)) 0 ?ss = of_int (7 * ninth_share) / 10 ^ 27"
    using fold [of 0 "[1, 2, 3, 4, 5, 6, 7]"] by (simp add: ninths_def)
  then have "collected fund_contribution ?ss 9 = of_int (7 * ninth_share) / 10 ^ 27"
    unfolding collected_def total Let_def by simp
  moreover have "(9 :: rat) - of_int (7 * ninth_share) / 10 ^ 27 = of_int (- 2) / 10 ^ 27"
    by (simp add: ninth_share_def)
  moreover have "dec_round (of_int (- 2) / 10 ^ 27) = of_int (- 2) / 10 ^ 27" by (rule fits_27) simp
  ultimately have "dsub 9 (collected fund_contribution ?ss 9) = of_int (- 2) / 10 ^ 27"
    unfolding dsub_def by (simp only:)
  then show ?thesis unfolding take_shares_def by simp
qed

subsection \<open>The migrated schema\<close>

lemma execute_waterfall_first_step:
  assumes "execute_waterfall m reason loss tr d = Inr r"
  shows "\<exists>ev d3 rs d4. db_schema d3 = db_schema d \<and> step_defaulter_margin ev m loss 1 d3 = Inr (rs, d4)"
proof -
  from assms obtain trace d0 ev d1 d2 oid d3 rs d4 where
    0: "(case tr of None \<Rightarrow> new_system ''liquidation-engine'' | Some t \<Rightarrow> return_tx t) d = Inr (trace, d0)" and
    1: "insert_default m reason loss ''detected'' d0 = Inr (ev, d1)"
       "update_member_status m ''defaulted'' d1 = Inr ((), d2)"
       "insert_outbox_event ''default_event'' ev ''default.declared'' ''default.declared''
        [(''default_event_id'', PId ev), (''member_id'', PId m), (''trigger_reason'', reason),
         (''total_exposure'', PDec loss)] (Some (tr_trace_id trace)) d2 = Inr (oid, d3)" and
    2: "step_defaulter_margin ev m loss 1 d3 = Inr (rs, d4)"
    unfolding execute_waterfall_def by (cases r) (auto simp: tx_simps split: prod.splits)
  have "db_schema d3 = db_schema d" using declare_Inr [OF 1] trace_case_Inr [OF 0] by auto
  with 2 show ?thesis by blast
qed

lemma defaulter_margin_vocab:
  assumes "step_defaulter_margin ev m r n d = Inr (rs, d')"
  shows "''defaulter_margin'' \<in> set (chk_step_type (db_schema d))"
proof -
  from assms obtain jid s e where
    "(if 0 < min (get_member_margin_balance m d) r
      then bind_tx (create_waterfall_journal ev m (min (get_member_margin_balance m d) r) ''MARGIN_IM'')
             (\<lambda>j. return_tx (Some j)) else return_tx None) d = Inr (jid, e)"
    "record_step ev n ''defaulter_margin'' (get_member_margin_balance m d)
       (min (get_member_margin_balance m d) r) (dsub r (min (get_member_margin_balance m d) r)) jid e =
     Inr (s, d')"
    by (auto simp: step_defaulter_margin_def Let_def tx_simps)
  moreover from this(1) have "ready_kept d e"
    by (rule acrossD [rotated]) (intro rk.across_rules ready_kept_parts)
  ultimately show ?thesis using record_step_Inr by (fastforce simp: ready_kept_def)
qed

text \<open>On the migrated schema no default can be worked off: the migration's step types are other
  words than the ones the code writes, so every run of the waterfall raises.\<close>

theorem waterfall_fails_on_migrated_schema:
  assumes "db_schema d = migrated_schema"
  shows "\<exists>e. execute_waterfall m reason loss tr d = Inl e"
proof (cases "execute_waterfall m reason loss tr d")
  case (Inr r)
  from execute_waterfall_first_step [OF this] assms obtain ev d3 rs d4 where
    "db_schema d3 = migrated_schema" "step_defaulter_margin ev m loss 1 d3 = Inr (rs, d4)" by auto
  with defaulter_margin_vocab [of ev m loss 1 d3] show ?thesis by (simp add: schema_defs)
qed simp

theorem waterfall_fails_on_migrated_schema_witness:
  "\<exists>e. execute_waterfall 5 PNone 100 None (default_db\<lparr>db_schema := migrated_schema\<rparr>) = Inl e"
  by (rule waterfall_fails_on_migrated_schema) simp

text \<open>An overdrawn equity account of the clearing house makes the loss larger, not smaller.\<close>

lemma overdrawn_equity_adds_loss:
  assumes "step_ccp_equity ev r n d = Inr ((r', s), d')" "ccp_equity d < 0" "0 \<le> r" "dec_round r = r"
    "dec_round (r - ccp_equity d) = r - ccp_equity d"
  shows "r < r'"
  using ccp_equity_Inr [OF assms(1)] assms(2-5)
  by (simp add: Let_def take_fund_def dsub_def min_def)

end
