(* ===== verification/Session.thy ===== *)
theory Session
  imports Shared
begin

section \<open>Connections with several transactions and outside effects\<close>

text \<open>
  The settlement engine and the outbox publisher commit in the middle of their work and talk to
  other systems between two transactions, so an exception does not take everything back. A
  \<open>session\<close> is the psycopg connection such code holds: what is committed, what the open
  transaction sees, the transaction status of the connection, and the state of the system
  outside (a chain, a broker). An action keeps the session also when it raises.

  \<open>session_invariant\<close> is the contract between the code and the database for such actions: \<open>Q\<close>
  holds of every committed state and \<open>P\<close> of the open transaction.
\<close>

subsection \<open>The connection\<close>

datatype conn_status = IDLE | INTRANS | INERROR

record 's session =
  ss_committed :: db
  ss_db :: db
  ss_status :: conn_status
  ss_outside :: 's

type_synonym ('s, 'a) act = "'s session \<Rightarrow> (exn + 'a) \<times> 's session"

definition connect :: "db \<Rightarrow> 's \<Rightarrow> 's session" where
  "connect d s = \<lparr>ss_committed = d, ss_db = d, ss_status = IDLE, ss_outside = s\<rparr>"

definition return_act :: "'a \<Rightarrow> ('s, 'a) act" where
  "return_act x = (\<lambda>w. (Inr x, w))"

definition bind_act :: "('s, 'a) act \<Rightarrow> ('a \<Rightarrow> ('s, 'b) act) \<Rightarrow> ('s, 'b) act" where
  "bind_act m k = (\<lambda>w. case m w of (Inl e, w') \<Rightarrow> (Inl e, w') | (Inr x, w') \<Rightarrow> k x w')"

definition raise_act :: "exn \<Rightarrow> ('s, 'a) act" where
  "raise_act e = (\<lambda>w. (Inl e, w))"

text \<open>\<open>try: m except Exception as exc: h exc\<close>; the session is as \<open>m\<close> left it.\<close>

definition catch_act :: "('s, 'a) act \<Rightarrow> (exn \<Rightarrow> ('s, 'a) act) \<Rightarrow> ('s, 'a) act" where
  "catch_act m h = (\<lambda>w. case m w of (Inl e, w') \<Rightarrow> h e w' | (Inr x, w') \<Rightarrow> (Inr x, w'))"

text \<open>
  Statements on the connection. An error of the database puts the transaction into a failed
  state in which every further statement is refused.
\<close>

definition sql :: "'a ccp \<Rightarrow> ('s, 'a) act" where
  "sql m = (\<lambda>w.
     if ss_status w = INERROR then (Inl InFailedSqlTransaction, w)
     else case m (ss_db w) of
         Inl e \<Rightarrow> (Inl e, w\<lparr>ss_status := if is_sql_error e then INERROR else INTRANS\<rparr>)
       | Inr (x, d) \<Rightarrow> (Inr x, w\<lparr>ss_db := d, ss_status := INTRANS\<rparr>))"

text \<open>\<open>conn.commit()\<close>; committing a failed transaction rolls it back.\<close>

definition commit_act :: "('s, unit) act" where
  "commit_act = (\<lambda>w.
     if ss_status w = INERROR then (Inr (), w\<lparr>ss_db := ss_committed w, ss_status := IDLE\<rparr>)
     else case commit (ss_db w) of
         Inl e \<Rightarrow> (Inl e, w\<lparr>ss_db := ss_committed w, ss_status := IDLE\<rparr>)
       | Inr (_, d) \<Rightarrow> (Inr (), w\<lparr>ss_committed := d, ss_db := d, ss_status := IDLE\<rparr>))"

text \<open>\<open>conn.rollback()\<close>.\<close>

definition rollback_act :: "('s, unit) act" where
  "rollback_act = (\<lambda>w. (Inr (), w\<lparr>ss_db := ss_committed w, ss_status := IDLE\<rparr>))"

text \<open>A Python \<open>for\<close> loop with an accumulator.\<close>

fun fold_act :: "('a \<Rightarrow> 'b \<Rightarrow> ('s, 'b) act) \<Rightarrow> 'a list \<Rightarrow> 'b \<Rightarrow> ('s, 'b) act" where
  "fold_act f [] acc = return_act acc"
| "fold_act f (x # xs) acc = bind_act (f x acc) (fold_act f xs)"

text \<open>\<open>conn.autocommit = False\<close>: psycopg refuses it while a transaction is open.\<close>

definition set_autocommit :: "('s, unit) act" where
  "set_autocommit = (\<lambda>w. if ss_status w = IDLE then (Inr (), w)
     else (Inl (ExternalError ''ProgrammingError''), w))"

text \<open>A call of the outside system.\<close>

definition outside :: "('s, exn, 'a) tx \<Rightarrow> ('s, 'a) act" where
  "outside m = (\<lambda>w. case m (ss_outside w) of
       Inl e \<Rightarrow> (Inl e, w)
     | Inr (x, s) \<Rightarrow> (Inr x, w\<lparr>ss_outside := s\<rparr>))"

text \<open>\<open>conn.close()\<close> rolls an open transaction back.\<close>

definition close_session :: "'s session \<Rightarrow> db \<times> 's" where
  "close_session w = (ss_committed w, ss_outside w)"

lemmas act_defs = return_act_def bind_act_def raise_act_def catch_act_def

lemma return_act_run [simp]: "return_act x w = (Inr x, w)"
  by (simp add: return_act_def)

lemma raise_act_run [simp]: "raise_act e w = (Inl e, w)"
  by (simp add: raise_act_def)

lemma bind_act_step: "m w = (Inr x, w') \<Longrightarrow> bind_act m k w = k x w'"
  by (simp add: bind_act_def)

lemma bind_act_fail: "m w = (Inl e, w') \<Longrightarrow> bind_act m k w = (Inl e, w')"
  by (simp add: bind_act_def)

lemma bind_return_act [simp]: "bind_act (return_act x) k = k x"
  by (simp add: bind_act_def)

lemma catch_act_ok: "m w = (Inr x, w') \<Longrightarrow> catch_act m h w = (Inr x, w')"
  by (simp add: catch_act_def)

lemma catch_act_handle: "m w = (Inl e, w') \<Longrightarrow> catch_act m h w = h e w'"
  by (simp add: catch_act_def)

lemma sql_step:
  "ss_status w \<noteq> INERROR \<Longrightarrow> m (ss_db w) = Inr (x, d) \<Longrightarrow>
   sql m w = (Inr x, w\<lparr>ss_db := d, ss_status := INTRANS\<rparr>)"
  by (simp add: sql_def)

lemma commit_act_step:
  "ss_status w \<noteq> INERROR \<Longrightarrow> commit (ss_db w) = Inr ((), d) \<Longrightarrow>
   commit_act w = (Inr (), w\<lparr>ss_committed := d, ss_db := d, ss_status := IDLE\<rparr>)"
  by (simp add: commit_act_def)

lemma outside_step:
  "m (ss_outside w) = Inr (x, s) \<Longrightarrow> outside m w = (Inr x, w\<lparr>ss_outside := s\<rparr>)"
  by (simp add: outside_def)

lemma set_autocommit_step: "ss_status w = IDLE \<Longrightarrow> set_autocommit w = (Inr (), w)"
  by (simp add: set_autocommit_def)

subsection \<open>Invariants of sessions\<close>

definition session_ok :: "(db \<Rightarrow> bool) \<Rightarrow> (db \<Rightarrow> bool) \<Rightarrow> 's session \<Rightarrow> bool" where
  "session_ok P Q w \<longleftrightarrow> Q (ss_committed w) \<and> P (ss_db w)"

definition keeps_act :: "(db \<Rightarrow> bool) \<Rightarrow> (db \<Rightarrow> bool) \<Rightarrow> ('s, 'a) act \<Rightarrow> bool" where
  "keeps_act P Q a \<longleftrightarrow> (\<forall>w. session_ok P Q w \<longrightarrow> session_ok P Q (snd (a w)))"

lemma keeps_actD: "keeps_act P Q a \<Longrightarrow> session_ok P Q w \<Longrightarrow> a w = (r, w') \<Longrightarrow> session_ok P Q w'"
  by (metis keeps_act_def snd_conv)

locale session_invariant =
  fixes P Q :: "db \<Rightarrow> bool"
  assumes weaken: "Q d \<Longrightarrow> P d"
    and committing: "P d \<Longrightarrow> commit d = Inr ((), d') \<Longrightarrow> Q d'"
begin

lemma keeps_return: "keeps_act P Q (return_act x)"
  by (simp add: keeps_act_def)

lemma keeps_raise: "keeps_act P Q (raise_act e)"
  by (simp add: keeps_act_def)

lemma keeps_bind:
  "keeps_act P Q m \<Longrightarrow> (\<And>x. keeps_act P Q (k x)) \<Longrightarrow> keeps_act P Q (bind_act m k)"
  by (auto simp: keeps_act_def bind_act_def split: prod.splits sum.splits)

lemma keeps_catch:
  "keeps_act P Q m \<Longrightarrow> (\<And>e. keeps_act P Q (h e)) \<Longrightarrow> keeps_act P Q (catch_act m h)"
  by (auto simp: keeps_act_def catch_act_def split: prod.splits sum.splits)

lemma keeps_sql:
  assumes "across (\<lambda>d d'. P d \<longrightarrow> P d') m"
  shows "keeps_act P Q (sql m)"
  using assms by (auto simp: keeps_act_def sql_def session_ok_def across_def
      split: sum.splits prod.splits)

lemma keeps_commit: "keeps_act P Q commit_act"
  by (auto simp: keeps_act_def commit_act_def session_ok_def weaken
      dest: committing split: sum.splits prod.splits)

lemma keeps_outside: "keeps_act P Q (outside m)"
  by (auto simp: keeps_act_def outside_def session_ok_def split: sum.splits prod.splits)

lemma keeps_set_autocommit: "keeps_act P Q set_autocommit"
  by (simp add: keeps_act_def set_autocommit_def)

lemma keeps_rollback: "keeps_act P Q rollback_act"
  by (auto simp: keeps_act_def rollback_act_def session_ok_def weaken)

lemma keeps_fold: "(\<And>x acc. keeps_act P Q (f x acc)) \<Longrightarrow> keeps_act P Q (fold_act f xs acc)"
  by (induction xs arbitrary: acc) (simp_all add: keeps_return keeps_bind)

lemma keeps_if: "keeps_act P Q m \<Longrightarrow> keeps_act P Q n \<Longrightarrow> keeps_act P Q (if b then m else n)"
  by simp

lemma keeps_case_option:
  "keeps_act P Q m \<Longrightarrow> (\<And>x. keeps_act P Q (n x)) \<Longrightarrow>
   keeps_act P Q (case v of None \<Rightarrow> m | Some x \<Rightarrow> n x)"
  by (cases v) auto

lemma keeps_case_prod:
  "(\<And>x y. keeps_act P Q (n x y)) \<Longrightarrow> keeps_act P Q (case v of (x, y) \<Rightarrow> n x y)"
  by (cases v) auto

lemmas keeps_rules = keeps_return keeps_raise keeps_bind keeps_catch keeps_commit keeps_rollback
  keeps_outside keeps_fold keeps_set_autocommit keeps_if keeps_case_option keeps_case_prod

lemma keeps_closed:
  assumes "keeps_act P Q a" "Q d"
  shows "Q (fst (close_session (snd (a (connect d s)))))"
  using assms by (auto simp: keeps_act_def session_ok_def close_session_def connect_def weaken)

end

text \<open>The two invariants every session of the services keeps: a sound ledger, and evolution.\<close>

interpretation sound: session_invariant ledger_wf ledger_committed
  by unfold_locales (auto simp: ledger_committed_def dest: commit_balances)

interpretation grown: session_invariant "evolves d0" "evolves d0" for d0
proof unfold_locales
  show "evolves d0 d'" if "evolves d0 d" "commit d = Inr ((), d')" for d d'
    using that acrossD [OF ev_commit] ev.trans by blast
qed simp

lemma evolving_sound: "across evolves m \<Longrightarrow> keeps_act ledger_wf ledger_committed (sql m)"
  by (rule sound.keeps_sql) (auto simp: across_def evolves_def)

lemma evolving_grown: "across evolves m \<Longrightarrow> keeps_act (evolves d0) (evolves d0) (sql m)"
  by (rule grown.keeps_sql) (auto simp: across_def intro: ev.trans)

end
