(* ===== verification/Chain.thy ===== *)
theory Chain
  imports Session
begin

section \<open>Chain adapters\<close>

text \<open>
  \<open>ccp_shared/chain\<close>: the abstract \<open>ChainAdapter\<close> is a record of operations over the state of
  the chain, \<open>StubChainAdapter\<close> and \<open>EthereumAdapter\<close> are values of it, the registry maps chain
  ids to adapters. Encoded text is the list of its parts; \<open>hashlib.sha256\<close> is the parameter
  \<open>sha\<close> from bytes to the hex digest. The locales state what a settlement may rely on: an
  adapter that answers, and one that brings a submitted transaction to finality.
\<close>

subsection \<open>\<open>chain/base.py\<close>\<close>

datatype TransactionStatus = TX_PENDING | TX_CONFIRMED | TX_FAILED

type_synonym bytes = "pval list"

record transfer_instruction =
  ti_chain_id :: string
  ti_from_address :: pval
  ti_to_address :: pval
  ti_token_address :: string
  ti_amount :: rat
  ti_instruction_id :: uuid

record dvp_instruction =
  dvp_chain_id :: string
  dvp_seller_address :: pval
  dvp_buyer_address :: pval
  dvp_asset_token_address :: string
  dvp_asset_amount :: rat
  dvp_payment_token_address :: string
  dvp_payment_amount :: rat
  dvp_instruction_id :: uuid

record transaction_result =
  tx_hash :: string
  tx_status :: TransactionStatus
  tx_confirmations :: nat
  tx_error :: "pval option"

record 's chain_adapter =
  build_transfer_tx :: "transfer_instruction \<Rightarrow> ('s, exn, bytes) tx"
  build_dvp_tx :: "dvp_instruction \<Rightarrow> ('s, exn, bytes) tx"
  submit_signed_tx :: "bytes \<Rightarrow> ('s, exn, transaction_result) tx"
  get_tx_status :: "string \<Rightarrow> ('s, exn, transaction_result) tx"
  get_required_confirmations :: "('s, exn, nat) tx"

subsection \<open>\<open>chain/stubs.py\<close>\<close>

record tracked_tx =
  tk_signed_tx :: bytes
  tk_poll_count :: nat

type_synonym stub_state = "string \<rightharpoonup> tracked_tx"

definition stub_build_transfer :: "transfer_instruction \<Rightarrow> bytes" where
  "stub_build_transfer i = [PStr ''transfer:'', PStr (ti_chain_id i), PStr '':'', ti_from_address i,
     PStr '':'', ti_to_address i, PStr '':'', PDec (ti_amount i), PStr '':'', PId (ti_instruction_id i)]"

definition stub_build_dvp :: "dvp_instruction \<Rightarrow> bytes" where
  "stub_build_dvp i = [PStr ''dvp:'', PStr (dvp_chain_id i), PStr '':'', dvp_seller_address i,
     PStr '':'', dvp_buyer_address i, PStr '':'', PDec (dvp_asset_amount i),
     PStr '':'', PDec (dvp_payment_amount i), PStr '':'', PId (dvp_instruction_id i)]"

definition stub_submit :: "(bytes \<Rightarrow> string) \<Rightarrow> bytes \<Rightarrow> (stub_state, exn, transaction_result) tx" where
  "stub_submit sha signed = (\<lambda>s. Inr
     (\<lparr>tx_hash = sha signed, tx_status = TX_PENDING, tx_confirmations = 0, tx_error = None\<rparr>,
      s(sha signed \<mapsto> \<lparr>tk_signed_tx = signed, tk_poll_count = 0\<rparr>)))"

definition stub_status :: "nat \<Rightarrow> string \<Rightarrow> (stub_state, exn, transaction_result) tx" where
  "stub_status required h = (\<lambda>s. case s h of
       None \<Rightarrow> Inr (\<lparr>tx_hash = h, tx_status = TX_FAILED, tx_confirmations = 0,
                     tx_error = Some (PMsg [PStr ''Unknown transaction: '', PStr h])\<rparr>, s)
     | Some t \<Rightarrow>
         let t' = t\<lparr>tk_poll_count := tk_poll_count t + 1\<rparr> in
         Inr (\<lparr>tx_hash = h,
               tx_status = (if required \<le> tk_poll_count t' then TX_CONFIRMED else TX_PENDING),
               tx_confirmations = tk_poll_count t', tx_error = None\<rparr>, s(h \<mapsto> t')))"

definition stub_adapter :: "(bytes \<Rightarrow> string) \<Rightarrow> nat \<Rightarrow> stub_state chain_adapter" where
  "stub_adapter sha required = \<lparr>
     build_transfer_tx = (\<lambda>i. return_tx (stub_build_transfer i)),
     build_dvp_tx = (\<lambda>i. return_tx (stub_build_dvp i)),
     submit_signed_tx = stub_submit sha,
     get_tx_status = stub_status required,
     get_required_confirmations = return_tx required\<rparr>"

subsection \<open>\<open>chain/ethereum.py\<close>\<close>

definition not_implemented :: "string \<Rightarrow> ('s, exn, 'a) tx" where
  "not_implemented op = raise_tx (NotImplementedError (''EthereumAdapter.'' @ op @ '' not yet implemented''))"

definition ethereum_adapter :: "'s chain_adapter" where
  "ethereum_adapter = \<lparr>
     build_transfer_tx = (\<lambda>_. not_implemented ''build_transfer_tx''),
     build_dvp_tx = (\<lambda>_. not_implemented ''build_dvp_tx''),
     submit_signed_tx = (\<lambda>_. not_implemented ''submit_signed_tx''),
     get_tx_status = (\<lambda>_. not_implemented ''get_tx_status''),
     get_required_confirmations = not_implemented ''get_required_confirmations''\<rparr>"

subsection \<open>\<open>chain/registry.py\<close>\<close>

type_synonym 's chain_registry = "string \<rightharpoonup> 's chain_adapter"

definition registry_register :: "string \<Rightarrow> 's chain_adapter \<Rightarrow> 's chain_registry \<Rightarrow> 's chain_registry" where
  "registry_register c ad reg = reg(c \<mapsto> ad)"

definition registry_get :: "'s chain_registry \<Rightarrow> string \<Rightarrow> exn + 's chain_adapter" where
  "registry_get reg c = (case reg c of Some ad \<Rightarrow> Inr ad
     | None \<Rightarrow> Inl (KeyError (''No ChainAdapter registered for chain_id='' @ c)))"

lemma registry_get_register:
  "registry_get (registry_register c ad reg) c' =
     (if c' = c then Inr ad else registry_get reg c')"
  by (simp add: registry_get_def registry_register_def)

subsection \<open>Polling for finality\<close>

definition MAX_CONFIRMATION_POLLS :: nat where
  "MAX_CONFIRMATION_POLLS = 30"

text \<open>The loop of \<open>_poll_confirmations\<close> over the polls that are left; its last line asks once more.\<close>

fun poll_loop :: "'s chain_adapter \<Rightarrow> string \<Rightarrow> nat \<Rightarrow> nat \<Rightarrow> ('s, exn, transaction_result) tx" where
  "poll_loop ad h required 0 = get_tx_status ad h"
| "poll_loop ad h required (Suc n) =
     bind_tx (get_tx_status ad h) (\<lambda>r.
       if tx_status r = TX_CONFIRMED
       then (if required \<le> tx_confirmations r then return_tx r else poll_loop ad h required n)
       else if tx_status r = TX_FAILED then return_tx r
       else poll_loop ad h required n)"

definition poll_confirmations :: "'s chain_adapter \<Rightarrow> string \<Rightarrow> nat \<Rightarrow> ('s, exn, transaction_result) tx" where
  "poll_confirmations ad h required = poll_loop ad h required MAX_CONFIRMATION_POLLS"

text \<open>
  The contract of an adapter: it answers every call, and \<open>left h s\<close> is the number of polls
  after which the submitted transaction \<open>h\<close> is final.
\<close>

locale answering_adapter =
  fixes ad :: "'s chain_adapter"
    and required :: nat
  assumes builds: "\<exists>tx. build_dvp_tx ad i s = Inr (tx, s)"
    and requires: "get_required_confirmations ad s = Inr (required, s)"

locale confirming_adapter = answering_adapter ad required
  for ad :: "'s chain_adapter" and required +
  fixes left :: "string \<Rightarrow> 's \<Rightarrow> nat option"
    and bound :: nat
  assumes submits: "\<exists>r s'. submit_signed_tx ad tx s = Inr (r, s') \<and> left (tx_hash r) s' = Some bound"
    and last_poll: "left h s = Some k \<Longrightarrow> k \<le> 1 \<Longrightarrow> \<exists>r s'. get_tx_status ad h s = Inr (r, s') \<and>
      tx_status r = TX_CONFIRMED \<and> required \<le> tx_confirmations r"
    and early_poll: "left h s = Some (Suc (Suc k)) \<Longrightarrow> \<exists>r s'. get_tx_status ad h s = Inr (r, s') \<and>
      tx_status r = TX_PENDING \<and> left h s' = Some (Suc k)"
begin

lemma poll_loop_confirms:
  assumes "left h s = Some k" "k \<le> Suc n"
  shows "\<exists>r s'. poll_loop ad h required n s = Inr (r, s') \<and> tx_status r = TX_CONFIRMED \<and>
     required \<le> tx_confirmations r"
  using assms
proof (induction n arbitrary: s k)
  case 0
  then show ?case using last_poll by simp
next
  case (Suc n)
  show ?case
  proof (cases "k \<le> 1")
    case True
    with Suc.prems last_poll obtain r s' where "get_tx_status ad h s = Inr (r, s')"
      "tx_status r = TX_CONFIRMED" "required \<le> tx_confirmations r" by blast
    then show ?thesis by (simp add: bind_tx_def return_tx_def)
  next
    case False
    then obtain j where k: "k = Suc (Suc j)" by (cases k) (auto simp: gr0_conv_Suc)
    with Suc.prems early_poll obtain r s' where "get_tx_status ad h s = Inr (r, s')"
      "tx_status r = TX_PENDING" "left h s' = Some (Suc j)" by blast
    with Suc.IH [of s' "Suc j"] Suc.prems k show ?thesis by (simp add: bind_tx_def)
  qed
qed

lemma submitted_confirms:
  assumes "bound \<le> 31"
  shows "\<exists>r s' r' s''. submit_signed_tx ad tx s = Inr (r, s') \<and>
     poll_confirmations ad (tx_hash r) required s' = Inr (r', s'') \<and>
     tx_status r' = TX_CONFIRMED \<and> required \<le> tx_confirmations r'"
proof -
  obtain r s' where "submit_signed_tx ad tx s = Inr (r, s')" "left (tx_hash r) s' = Some bound"
    using submits by blast
  with poll_loop_confirms [of "tx_hash r" s' bound 30] assms show ?thesis
    by (auto simp: poll_confirmations_def MAX_CONFIRMATION_POLLS_def)
qed

end

definition stub_left :: "nat \<Rightarrow> string \<Rightarrow> stub_state \<Rightarrow> nat option" where
  "stub_left required h s = map_option (\<lambda>t. required - tk_poll_count t) (s h)"

interpretation stub: confirming_adapter "stub_adapter sha n" n "stub_left n" n for sha n
  by unfold_locales
    (auto simp: stub_adapter_def stub_submit_def stub_status_def stub_left_def return_tx_def Let_def)

text \<open>A stub transaction polled \<open>n\<close> times more counts \<open>n\<close> more.\<close>

lemma stub_poll_loop:
  assumes "s h = Some t" "tk_poll_count t + n + 1 < required"
  shows "\<exists>s'. poll_loop (stub_adapter sha required) h required n s =
     Inr (\<lparr>tx_hash = h, tx_status = TX_PENDING, tx_confirmations = tk_poll_count t + n + 1,
           tx_error = None\<rparr>, s')"
  using assms
proof (induction n arbitrary: s t)
  case 0
  then show ?case by (simp add: stub_adapter_def stub_status_def Let_def)
next
  case (Suc n)
  define t' where "t' = t\<lparr>tk_poll_count := tk_poll_count t + 1\<rparr>"
  define u where "u = s(h \<mapsto> t')"
  have "get_tx_status (stub_adapter sha required) h s = Inr (\<lparr>tx_hash = h, tx_status = TX_PENDING,
      tx_confirmations = tk_poll_count t', tx_error = None\<rparr>, u)"
    using Suc.prems by (simp add: stub_adapter_def stub_status_def Let_def t'_def u_def)
  moreover have "u h = Some t'" "tk_poll_count t' = tk_poll_count t + 1" by (simp_all add: u_def t'_def)
  ultimately show ?case using Suc.IH [of u t'] Suc.prems by (simp add: bind_tx_def)
qed

subsection \<open>Properties\<close>

text \<open>C38. Polling ends after at most 31 queries, and these are enough exactly up to 31 required
  confirmations: a transaction submitted to the stub adapter is reported confirmed with the
  required confirmations if it needs at most 31, and is reported pending otherwise.\<close>

theorem stub_finality_bound:
  "\<exists>s' r s''. submit_signed_tx (stub_adapter sha n) tx s = Inr (r, s') \<and>
     (\<exists>r'. poll_confirmations (stub_adapter sha n) (tx_hash r) n s' = Inr (r', s'') \<and>
       tx_status r' = (if n \<le> 31 then TX_CONFIRMED else TX_PENDING) \<and>
       (n \<le> tx_confirmations r' \<longleftrightarrow> n \<le> 31))"
proof (cases "n \<le> 31")
  case True
  then show ?thesis using stub.submitted_confirms [of n sha tx s] by auto
next
  case False
  let ?s = "s(sha tx \<mapsto> \<lparr>tk_signed_tx = tx, tk_poll_count = 0\<rparr>)"
  have "\<exists>s'. poll_loop (stub_adapter sha n) (sha tx) n 30 ?s =
     Inr (\<lparr>tx_hash = sha tx, tx_status = TX_PENDING, tx_confirmations = 31, tx_error = None\<rparr>, s')"
    using stub_poll_loop [of ?s "sha tx" _ 30 n sha] False by simp
  then show ?thesis using False
    by (auto simp: stub_adapter_def stub_submit_def poll_confirmations_def
        MAX_CONFIRMATION_POLLS_def)
qed

text \<open>An adapter that reports a transaction confirmed with one confirmation, forever.\<close>

definition shallow_adapter :: "unit chain_adapter" where
  "shallow_adapter = ethereum_adapter\<lparr>get_tx_status := (\<lambda>h. return_tx
     \<lparr>tx_hash = h, tx_status = TX_CONFIRMED, tx_confirmations = 1, tx_error = None\<rparr>)\<rparr>"

lemma shallow_poll_loop:
  "poll_loop shallow_adapter h 12 n s = Inr (\<lparr>tx_hash = h, tx_status = TX_CONFIRMED,
     tx_confirmations = 1, tx_error = None\<rparr>, s)"
  by (induction n) (simp_all add: shallow_adapter_def return_tx_def bind_tx_def)

text \<open>The final query of the polling is not compared with the required confirmations: a
  transaction that never gets beyond one confirmation is returned as confirmed although twelve
  are required.\<close>

theorem poll_accepts_too_few:
  "\<exists>r. poll_confirmations shallow_adapter h 12 s = Inr (r, s) \<and> tx_status r = TX_CONFIRMED \<and>
     tx_confirmations r < 12"
  by (simp add: poll_confirmations_def shallow_poll_loop)

end
