(* ===== verification/Signing.thy ===== *)
theory Signing
  imports Chain "HOL-Library.List_Lexorder" "HOL-Library.Char_ord"
begin

section \<open>Threshold signing: client, gateway and MPC nodes\<close>

text \<open>
  \<open>ccp_shared/signing\<close>, \<open>services/signing-gateway\<close> and \<open>services/mpc-node\<close>. Hashes and MACs
  are parameters (\<open>sha\<close> hex digest of bytes, \<open>digest\<close> raw digest of text, \<open>hmac\<close>), and so is
  pydantic's reading of an integer from text. Base64 text is kept symbolic. The nodes the gateway asks are
  functions from the request to the reply.
\<close>

subsection \<open>Base64\<close>

definition b64encode :: "bytes \<Rightarrow> pval" where
  "b64encode bs = PObj [(''base64'', PList bs)]"

fun b64decode :: "pval \<Rightarrow> exn + bytes" where
  "b64decode (PObj [(k, PList bs)]) =
     (if k = ''base64'' then Inr bs else Inl (ValueError ''binascii.Error''))"
| "b64decode _ = Inl (ValueError ''binascii.Error'')"

lemma b64_roundtrip [simp]: "b64decode (b64encode bs) = Inr bs"
  by (simp add: b64encode_def)

subsection \<open>\<open>mpc_node/main.py\<close>\<close>

text \<open>The cached share, else the file, else the digest of a text with the node's name.\<close>

definition load_key_share :: "(bytes \<Rightarrow> bytes) \<Rightarrow> bytes option \<Rightarrow> bytes option \<Rightarrow> string \<Rightarrow> bytes" where
  "load_key_share digest cached file node_id =
     (case cached of Some k \<Rightarrow> k
      | None \<Rightarrow> (case file of Some k \<Rightarrow> k
         | None \<Rightarrow> digest [PStr ''mpc-key-share-'', PStr node_id]))"

record partial_sign_response =
  ps_node_id :: string
  ps_partial_signature :: string

definition partial_sign ::
    "(bytes \<Rightarrow> bytes \<Rightarrow> string) \<Rightarrow> bytes \<Rightarrow> string \<Rightarrow> string \<Rightarrow> string \<Rightarrow> partial_sign_response" where
  "partial_sign hmac key_share node_id h chain_id =
     \<lparr>ps_node_id = node_id,
      ps_partial_signature = hmac key_share [PStr h, PStr '':'', PStr chain_id]\<rparr>"

subsection \<open>\<open>signing_gateway/main.py\<close>\<close>

datatype node_reply = PartialSignature string | NodeStatus nat | NodeUnreachable

type_synonym mpc_node = "string \<Rightarrow> string \<Rightarrow> node_reply"

fun collect_partials :: "mpc_node list \<Rightarrow> string \<Rightarrow> string \<Rightarrow> string list" where
  "collect_partials [] h c = []"
| "collect_partials (node # nodes) h c =
     (case node h c of PartialSignature s \<Rightarrow> s # collect_partials nodes h c
      | _ \<Rightarrow> collect_partials nodes h c)"

fun join_bars :: "string list \<Rightarrow> string" where
  "join_bars [] = []"
| "join_bars [s] = s"
| "join_bars (s # t # ss) = s @ ''|'' @ join_bars (t # ss)"

definition combine_signatures :: "(string \<Rightarrow> bytes) \<Rightarrow> pval \<Rightarrow> string list \<Rightarrow> exn + pval" where
  "combine_signatures digest tx_b64 partials =
     (case b64decode tx_b64 of Inl e \<Rightarrow> Inl e
      | Inr tx \<Rightarrow> Inr (b64encode (tx @ digest (join_bars (sort partials)))))"

record sign_response =
  sg_signed_tx_bytes :: pval
  sg_signatures :: "string list"
  sg_threshold_met :: bool

text \<open>
  The body of \<open>POST /sign\<close>. FastAPI validates it against \<open>SignRequest\<close>, whose \<open>chain_id\<close> is a
  \<open>str\<close>: any other JSON value is answered with 422. An undecodable \<open>tx_bytes\<close> is a 500.
\<close>

definition sign_transaction ::
    "(bytes \<Rightarrow> string) \<Rightarrow> (string \<Rightarrow> bytes) \<Rightarrow> mpc_node list \<Rightarrow> nat \<Rightarrow> payload \<Rightarrow> exn + sign_response" where
  "sign_transaction sha digest nodes threshold body =
     (case (pget body ''tx_bytes'', pget body ''chain_id'') of
        (Some tx_b64, Some (PStr chain_id)) \<Rightarrow>
          (case b64decode tx_b64 of Inl e \<Rightarrow> Inl (HTTPException 500)
           | Inr tx \<Rightarrow>
             let partials = collect_partials nodes (sha tx) chain_id in
             if threshold \<le> length partials
             then (case combine_signatures digest tx_b64 partials of
                 Inl e \<Rightarrow> Inl (HTTPException 500)
               | Inr combined \<Rightarrow> Inr \<lparr>sg_signed_tx_bytes = combined, sg_signatures = partials,
                   sg_threshold_met = True\<rparr>)
             else Inl (HTTPException 503))
      | _ \<Rightarrow> Inl (HTTPException 422))"

subsection \<open>\<open>signing/client.py\<close>\<close>

record signing_request =
  sq_tx_bytes :: pval
  sq_chain_id :: int

record signing_response =
  sp_signed_tx_bytes :: pval
  sp_signatures :: "string list"

text \<open>\<open>SigningRequest(tx_bytes=..., chain_id=...)\<close>: the \<open>int\<close> field takes text that is a number.\<close>

definition make_signing_request :: "(string \<Rightarrow> int option) \<Rightarrow> bytes \<Rightarrow> string \<Rightarrow> exn + signing_request" where
  "make_signing_request int_of tx chain_id =
     (case int_of chain_id of None \<Rightarrow> Inl (ValueError ''chain_id'')
      | Some n \<Rightarrow> Inr \<lparr>sq_tx_bytes = b64encode tx, sq_chain_id = n\<rparr>)"

text \<open>\<open>body.model_dump_json()\<close>: the chain id is a JSON number.\<close>

definition request_json :: "signing_request \<Rightarrow> payload" where
  "request_json r = [(''tx_bytes'', sq_tx_bytes r), (''chain_id'', PDec (of_int (sq_chain_id r)))]"

definition post_sign :: "(payload \<Rightarrow> exn + sign_response) \<Rightarrow> signing_request \<Rightarrow> exn + signing_response" where
  "post_sign server r =
     (case server (request_json r) of
        Inl e \<Rightarrow> Inl (ExternalError ''ConnectionError'')
      | Inr resp \<Rightarrow> Inr \<lparr>sp_signed_tx_bytes = sg_signed_tx_bytes resp,
          sp_signatures = sg_signatures resp\<rparr>)"

definition client_sign ::
    "(string \<Rightarrow> int option) \<Rightarrow> (payload \<Rightarrow> exn + sign_response) \<Rightarrow> bytes \<Rightarrow> string \<Rightarrow> exn + signing_response" where
  "client_sign int_of server tx chain_id =
     (case make_signing_request int_of tx chain_id of Inl e \<Rightarrow> Inl e
      | Inr r \<Rightarrow> post_sign server r)"

subsection \<open>Properties\<close>

lemma collect_partials_length:
  "length (collect_partials nodes h c) =
     length (filter (\<lambda>node. \<exists>s. node h c = PartialSignature s) nodes)"
  by (induction nodes) (auto split: node_reply.split)


text \<open>The signed transaction does not depend on the order in which the nodes answered: the
  same partial signatures in another order combine to the same bytes.\<close>

theorem combine_order_irrelevant:
  assumes "mset partials = mset partials'"
  shows "combine_signatures digest tx partials = combine_signatures digest tx partials'"
proof -
  have "sort partials = sort partials'"
    using assms by (intro properties_for_sort) (simp_all add: mset_sort)
  then show ?thesis by (simp add: combine_signatures_def split: sum.split)
qed

theorem combine_order_irrelevant_witness:
  "\<forall>digest tx. combine_signatures digest (b64encode tx) [''b'', ''a''] =
   combine_signatures digest (b64encode tx) [''a'', ''b'']"
  by (intro allI, rule combine_order_irrelevant) simp

text \<open>The client and the gateway do not fit together: the client sends the chain id as a JSON
  number, the gateway accepts text only, so through this gateway no transaction is ever
  signed, whatever the nodes answer.\<close>

theorem signing_never_succeeds:
  "\<exists>e. client_sign int_of (sign_transaction sha digest nodes threshold) tx chain_id = Inl e"
  by (simp add: client_sign_def make_signing_request_def post_sign_def request_json_def
      sign_transaction_def pget_def split: option.split)

end
