(* ===== verification/Settlement.thy ===== *)
theory Settlement
  imports Signing Novation
begin

section \<open>The settlement engine\<close>

text \<open>
  \<open>services/settlement-engine/src/settlement_engine/settler.py\<close> and \<open>consumer.py\<close>: the
  status machine of an instruction, cash settlement in one transaction, delivery-versus-payment
  with a commit after each on-chain step, and the consumer. An instruction's row and its status
  history are in the database, the chain is the outside of the session.
\<close>

subsection \<open>The status machine\<close>

definition VALID_TRANSITIONS :: "(string \<times> string list) list" where
  "VALID_TRANSITIONS =
     [(''pending'', [''approved'', ''failed'', ''cancelled'']),
      (''approved'', [''signed'', ''failed'']),
      (''signed'', [''broadcasted'', ''failed'']),
      (''broadcasted'', [''confirmed'', ''failed'']),
      (''confirmed'', []),
      (''failed'', []),
      (''cancelled'', [])]"

definition allowed_next :: "string \<Rightarrow> string list" where
  "allowed_next st = (case map_of VALID_TRANSITIONS st of None \<Rightarrow> [] | Some ts \<Rightarrow> ts)"

definition validate_transition :: "uuid \<Rightarrow> string \<Rightarrow> string \<Rightarrow> unit ccp" where
  "validate_transition inst from_st to_st =
     guard_tx (to_st \<in> set (allowed_next from_st))
       (StateTransitionError [PStr ''Invalid settlement transition: '', PStr from_st, PStr '' -> '',
          PStr to_st] ''settlement_instruction'' inst from_st to_st)"

definition record_transition ::
    "uuid \<Rightarrow> string \<Rightarrow> string \<Rightarrow> pval \<Rightarrow> trace_context \<Rightarrow> unit ccp" where
  "record_transition inst from_st to_st reason tr =
     service_transition ''settlement-engine'' ''settlement_instruction'' inst (Some from_st) to_st
       (Some reason) tr"

definition advance_status ::
    "uuid \<Rightarrow> string \<Rightarrow> string \<Rightarrow> string \<Rightarrow> trace_context \<Rightarrow> unit ccp" where
  "advance_status inst from_st to_st reason tr =
     bind_tx (validate_transition inst from_st to_st) (\<lambda>_.
     bind_tx (update_instruction_status inst to_st) (\<lambda>_.
     record_transition inst from_st to_st (PStr reason) tr))"

text \<open>\<open>uuid.UUID(aggregate_id)\<close>: the text of an id always has 36 characters.\<close>

definition emit_settlement_event :: "uuid \<Rightarrow> string \<Rightarrow> uuid \<Rightarrow> trace_context \<Rightarrow> unit ccp" where
  "emit_settlement_event inst event_type aggregate tr =
     bind_tx (insert_outbox_event ''settlement_instruction'' aggregate event_type event_type
        [(''instruction_id'', PId inst)] (Some (tr_trace_id tr))) (\<lambda>_. return_tx ())"

definition fail_instruction :: "uuid \<Rightarrow> string \<Rightarrow> pval \<Rightarrow> trace_context \<Rightarrow> unit ccp" where
  "fail_instruction inst from_st reason tr =
     bind_tx (update_instruction_status inst ''failed'') (\<lambda>_.
     bind_tx (record_transition inst from_st ''failed'' reason tr) (\<lambda>_.
     emit_settlement_event inst ''settlement.failed'' inst tr))"

definition settlement_account :: "uuid \<Rightarrow> db \<Rightarrow> uuid option" where
  "settlement_account m d = map_option a_id (find_account m ''SETTLEMENT'' ''AVAILABLE'' d)"

subsection \<open>Cash\<close>

text \<open>The two entries of a settlement: the payer's account is credited, the payee's debited.\<close>

definition settlement_journal :: "uuid \<Rightarrow> uuid \<Rightarrow> uuid \<Rightarrow> rat \<Rightarrow> uuid ccp" where
  "settlement_journal inst from_acct to_acct amount =
     bind_tx (insert_journal ''SETTLEMENT'' ''settlement_instruction'' inst ''confirmed'') (\<lambda>jid.
     bind_tx (insert_entry jid from_acct 0 amount) (\<lambda>_.
     bind_tx (insert_entry jid to_acct amount 0) (\<lambda>_.
     return_tx jid)))"

definition settle_cash :: "instruction_row \<Rightarrow> trace_context \<Rightarrow> payload ccp" where
  "settle_cash row tr =
     (let inst = si_id row; amount = si_amount row in
      bind_tx (gets_tx (settlement_account (si_from_member_id row))) (\<lambda>from_acct.
      bind_tx (gets_tx (settlement_account (si_to_member_id row))) (\<lambda>to_acct.
      case (from_acct, to_acct) of
        (Some fa, Some ta) \<Rightarrow>
          bind_tx (advance_status inst ''pending'' ''approved'' ''Validation passed'' tr) (\<lambda>_.
          bind_tx (advance_status inst ''approved'' ''signed'' ''Cash: no signing needed'' tr) (\<lambda>_.
          bind_tx (advance_status inst ''signed'' ''broadcasted'' ''Cash: no broadcast needed'' tr) (\<lambda>_.
          bind_tx (if 0 < amount then settlement_journal inst fa ta amount else fresh_uuid) (\<lambda>jid.
          bind_tx (advance_status inst ''broadcasted'' ''confirmed'' ''Cash settlement completed'' tr) (\<lambda>_.
          bind_tx (emit_settlement_event inst ''settlement.completed'' (si_from_member_id row) tr) (\<lambda>_.
          return_tx [(''status'', PStr ''confirmed''), (''instruction_id'', PId inst),
                     (''journal_id'', PId jid)]))))))
      | _ \<Rightarrow>
          bind_tx (fail_instruction inst ''pending'' (PStr ''Settlement accounts not found'') tr) (\<lambda>_.
          return_tx [(''status'', PStr ''failed''), (''reason'', PStr ''accounts_not_found'')]))))"

subsection \<open>Delivery versus payment\<close>

definition finalize_dvp ::
    "instruction_row \<Rightarrow> string \<Rightarrow> nat option \<Rightarrow> nat \<Rightarrow> trace_context \<Rightarrow> ('s, payload) act" where
  "finalize_dvp row h block_number confirmations tr =
     (let inst = si_id row in
      bind_act (sql (gets_tx (settlement_account (si_from_member_id row)))) (\<lambda>from_acct.
      bind_act (sql (gets_tx (settlement_account (si_to_member_id row)))) (\<lambda>to_acct.
      bind_act (case (from_acct, to_acct) of
          (Some fa, Some ta) \<Rightarrow>
            bind_act (sql (settlement_journal inst fa ta (si_amount row))) (\<lambda>_. return_act ())
        | _ \<Rightarrow> return_act ()) (\<lambda>_.
      bind_act (sql (update_instruction_block inst block_number confirmations)) (\<lambda>_.
      bind_act (sql (advance_status inst ''broadcasted'' ''confirmed'' ''DVP confirmed on-chain'' tr)) (\<lambda>_.
      bind_act (sql (emit_settlement_event inst ''settlement.completed'' (si_from_member_id row) tr)) (\<lambda>_.
      bind_act commit_act (\<lambda>_.
      return_act [(''status'', PStr ''confirmed''), (''instruction_id'', PId inst),
                  (''tx_hash'', PStr h)])))))))) "

definition dvp_of_row :: "instruction_row \<Rightarrow> string \<Rightarrow> string option \<Rightarrow> dvp_instruction" where
  "dvp_of_row row chain_id contract =
     \<lparr>dvp_chain_id = chain_id, dvp_seller_address = PId (si_from_member_id row),
      dvp_buyer_address = PId (si_to_member_id row),
      dvp_asset_token_address = (case contract of Some c \<Rightarrow> c | None \<Rightarrow> []),
      dvp_asset_amount = si_quantity row, dvp_payment_token_address = [],
      dvp_payment_amount = si_amount row, dvp_instruction_id = si_id row\<rparr>"

text \<open>The signing client, \<open>signing_client.sign(tx, chain_id)\<close>.\<close>

type_synonym signer = "bytes \<Rightarrow> string \<Rightarrow> exn + signing_response"

text \<open>The body of the \<open>try\<close>.\<close>

definition dvp_steps ::
    "'s chain_adapter \<Rightarrow> signer \<Rightarrow> string \<Rightarrow> string option \<Rightarrow> instruction_row \<Rightarrow> trace_context \<Rightarrow>
     ('s, payload) act" where
  "dvp_steps ad sign chain_id contract row tr =
     (let inst = si_id row in
      bind_act (outside (build_dvp_tx ad (dvp_of_row row chain_id contract))) (\<lambda>unsigned.
      bind_act (outside (lift_tx (sign unsigned chain_id))) (\<lambda>resp.
      bind_act (outside (lift_tx (b64decode (sp_signed_tx_bytes resp)))) (\<lambda>signed.
      bind_act set_autocommit (\<lambda>_.
      bind_act (sql (advance_status inst ''approved'' ''signed'' ''MPC signing complete'' tr)) (\<lambda>_.
      bind_act commit_act (\<lambda>_.
      bind_act (outside (submit_signed_tx ad signed)) (\<lambda>result.
      bind_act set_autocommit (\<lambda>_.
      bind_act (sql (update_instruction_tx_hash inst (tx_hash result))) (\<lambda>_.
      bind_act (sql (advance_status inst ''signed'' ''broadcasted'' ''Tx submitted'' tr)) (\<lambda>_.
      bind_act commit_act (\<lambda>_.
      bind_act (outside (get_required_confirmations ad)) (\<lambda>required.
      bind_act (outside (poll_confirmations ad (tx_hash result) required)) (\<lambda>tx_result.
      bind_act set_autocommit (\<lambda>_.
      if tx_status tx_result = TX_CONFIRMED
      then finalize_dvp row (tx_hash result) None (tx_confirmations tx_result) tr
      else bind_act (sql (fail_instruction inst ''broadcasted''
             (PMsg [PStr ''Tx failed: '', PStr (tx_hash tx_result)]) tr)) (\<lambda>_.
           bind_act commit_act (\<lambda>_.
           return_act [(''status'', PStr ''failed''), (''instruction_id'', PId inst)])))))))))))))))))"

definition settle_dvp ::
    "'s chain_registry \<Rightarrow> signer \<Rightarrow> instruction_row \<Rightarrow> string option \<Rightarrow> trace_context \<Rightarrow>
     ('s, payload) act" where
  "settle_dvp reg sign row contract tr =
     (let inst = si_id row in
      case si_chain_id row of
        None \<Rightarrow> bind_act (sql (fail_instruction inst ''pending''
             (PStr ''No chain_id for DVP settlement'') tr)) (\<lambda>_.
           return_act [(''status'', PStr ''failed''), (''reason'', PStr ''no_chain_id'')])
      | Some chain_id \<Rightarrow>
        if chain_id = [] then bind_act (sql (fail_instruction inst ''pending''
             (PStr ''No chain_id for DVP settlement'') tr)) (\<lambda>_.
           return_act [(''status'', PStr ''failed''), (''reason'', PStr ''no_chain_id'')])
        else (case registry_get reg chain_id of
            Inl e \<Rightarrow> raise_act e
          | Inr ad \<Rightarrow>
            bind_act (sql (advance_status inst ''pending'' ''approved'' ''DVP validation passed'' tr)) (\<lambda>_.
            bind_act commit_act (\<lambda>_.
            catch_act (dvp_steps ad sign chain_id contract row tr) (\<lambda>exc.
              bind_act set_autocommit (\<lambda>_.
              bind_act (sql (fail_instruction inst ''approved'' (exn_str exc) tr)) (\<lambda>_.
              bind_act commit_act (\<lambda>_.
              return_act [(''status'', PStr ''failed''), (''instruction_id'', PId inst),
                          (''error'', exn_str exc)]))))))))"

subsection \<open>The entry point and the consumer\<close>

text \<open>\<open>settlement_instructions si JOIN instruments i WHERE si.id = ... AND si.status = 'pending'\<close>.\<close>

definition pending_instruction :: "uuid \<Rightarrow> db \<Rightarrow> (instruction_row \<times> string option) option" where
  "pending_instruction s d =
     fetchone (\<lambda>(r, c). si_id r = s \<and> si_status r = ''pending'')
       [(r, i_contract_address i). r \<leftarrow> db_instructions d, i \<leftarrow> db_instruments d,
          i_id i = si_instrument_id r]"

definition settle_instruction ::
    "'s chain_registry \<Rightarrow> signer \<Rightarrow> uuid \<Rightarrow> trace_context option \<Rightarrow> ('s, payload) act" where
  "settle_instruction reg sign s trace =
     bind_act (sql (case trace of None \<Rightarrow> new_system ''settlement-engine'' | Some t \<Rightarrow> return_tx t)) (\<lambda>tr.
     bind_act (sql (gets_tx (pending_instruction s))) (\<lambda>row.
     case row of
       None \<Rightarrow> return_act [(''status'', PStr ''skipped''), (''reason'', PStr ''not_found_or_not_pending'')]
     | Some (r, contract) \<Rightarrow>
         if si_settlement_type r = ''cash'' then sql (settle_cash r tr)
         else if si_settlement_type r \<in> {''dvp'', ''physical''}
         then settle_dvp reg sign r contract tr
         else return_act [(''status'', PStr ''error''),
                (''reason'', PMsg [PStr ''unknown_type_'', PStr (si_settlement_type r)])]))"

definition build_chain_registry :: "(bytes \<Rightarrow> string) \<Rightarrow> stub_state chain_registry" where
  "build_chain_registry sha =
     registry_register ''polygon-mainnet'' (stub_adapter sha 2)
       (registry_register ''ethereum-mainnet'' (stub_adapter sha 2) (\<lambda>_. None))"

definition handle_settlement ::
    "'s chain_registry \<Rightarrow> signer \<Rightarrow> payload \<Rightarrow> uuid \<Rightarrow> trace_context \<Rightarrow> ('s, unit) act" where
  "handle_settlement reg sign event s tr =
     bind_act (case pget_id event ''event_id'' of None \<Rightarrow> return_act True
        | Some e \<Rightarrow> sql (process_if_new ''settlement-engine'' e)) (\<lambda>new.
     if new then bind_act (settle_instruction reg sign s (Some tr)) (\<lambda>_. commit_act)
     else commit_act)"

text \<open>One message: an exception is logged and the connection closed; the offset moves on.\<close>

definition consume_settlement ::
    "'s chain_registry \<Rightarrow> signer \<Rightarrow> payload \<Rightarrow> db \<times> 's \<Rightarrow> db \<times> 's" where
  "consume_settlement reg sign event = (\<lambda>(d, s).
     case from_kafka_payload event d of
       Inl e \<Rightarrow> (d, s)
     | Inr (tr, d') \<Rightarrow>
         (case pget_id event ''instruction_id'' of
            None \<Rightarrow> (d', s)
          | Some i \<Rightarrow> close_session (snd (handle_settlement reg sign event i tr (connect d' s)))))"

subsection \<open>Preservation\<close>

lemma ev_settlement_parts [evolving]:
  "across evolves (validate_transition i f t)" "across evolves (record_transition i f t r tr)"
  "across evolves (advance_status i f t rs tr)" "across evolves (emit_settlement_event i et a tr)"
  "across evolves (fail_instruction i f r tr)" "across evolves (settlement_journal i fa ta x)"
  unfolding validate_transition_def record_transition_def advance_status_def
    emit_settlement_event_def fail_instruction_def settlement_journal_def
  by (auto intro!: evolving)

lemma ev_settle_cash [evolving]: "across evolves (settle_cash r tr)"
  unfolding settle_cash_def Let_def by (auto intro!: evolving split: option.split)

text \<open>
  An invariant that every statement of the engine keeps is kept by the whole settlement, with
  its commits, its calls of the chain and its exception handler.
\<close>

locale settlement_invariant = session_invariant P Q for P Q :: "db \<Rightarrow> bool" +
  assumes keeps_advance: "t \<noteq> ''pending'' \<Longrightarrow> t \<in> set (allowed_next f) \<Longrightarrow>
      across (\<lambda>d d'. P d \<longrightarrow> P d') (advance_status i f t rs tr)"
    and keeps_fail: "''failed'' \<in> set (allowed_next f) \<Longrightarrow>
      across (\<lambda>d d'. P d \<longrightarrow> P d') (fail_instruction i f r tr)"
    and keeps_journal: "across (\<lambda>d d'. P d \<longrightarrow> P d') (settlement_journal i fa ta x)"
    and keeps_block: "across (\<lambda>d d'. P d \<longrightarrow> P d') (update_instruction_block i b n)"
    and keeps_hash: "across (\<lambda>d d'. P d \<longrightarrow> P d') (update_instruction_tx_hash i h)"
    and keeps_event: "et = ''settlement.completed'' \<Longrightarrow>
      across (\<lambda>d d'. P d \<longrightarrow> P d') (emit_settlement_event i et a tr)"
    and keeps_uuid: "across (\<lambda>d d'. P d \<longrightarrow> P d') fresh_uuid"
    and keeps_mark: "across (\<lambda>d d'. P d \<longrightarrow> P d') (process_if_new s e)"
begin

sublocale kept: tx_relation "\<lambda>d d'. P d \<longrightarrow> P d'"
  by (rule keeps_relation)

lemmas statements = keeps_advance keeps_fail keeps_journal keeps_block keeps_hash keeps_event
  keeps_uuid keeps_mark

lemmas rules = kept.across_rules statements keeps_rules keeps_sql

lemma keeps_new_system: "across (\<lambda>d d'. P d \<longrightarrow> P d') (new_system s)"
  unfolding new_system_def by (intro rules)

lemma keeps_settle_cash: "across (\<lambda>d d'. P d \<longrightarrow> P d') (settle_cash r tr)"
  unfolding settle_cash_def Let_def
  by (intro rules) (simp_all add: allowed_next_def VALID_TRANSITIONS_def)

lemma keeps_finalize_dvp: "keeps_act P Q (finalize_dvp r h b n tr)"
  unfolding finalize_dvp_def Let_def
  by (intro rules) (simp_all add: allowed_next_def VALID_TRANSITIONS_def)

lemma keeps_dvp_steps: "keeps_act P Q (dvp_steps ad sign c k r tr)"
  unfolding dvp_steps_def Let_def
  by (intro rules keeps_finalize_dvp) (simp_all add: allowed_next_def VALID_TRANSITIONS_def)

lemma keeps_case_sum:
  "(\<And>e. keeps_act P Q (m e)) \<Longrightarrow> (\<And>x. keeps_act P Q (n x)) \<Longrightarrow>
   keeps_act P Q (case v of Inl e \<Rightarrow> m e | Inr x \<Rightarrow> n x)"
  by (cases v) auto

lemma keeps_settle_dvp: "keeps_act P Q (settle_dvp reg sign r k tr)"
  unfolding settle_dvp_def Let_def
  by (intro rules keeps_case_sum keeps_dvp_steps)
    (simp_all add: allowed_next_def VALID_TRANSITIONS_def)

lemma keeps_settle_instruction: "keeps_act P Q (settle_instruction reg sign s tr)"
  unfolding settle_instruction_def
  by (intro rules keeps_new_system keeps_settle_cash keeps_settle_dvp)

lemma keeps_handle_settlement: "keeps_act P Q (handle_settlement reg sign event s tr)"
  unfolding handle_settlement_def by (intro rules keeps_settle_instruction)

lemma keeps_consume_settlement:
  assumes "Q d" "\<And>d d' tr. Q d \<Longrightarrow> from_kafka_payload event d = Inr (tr, d') \<Longrightarrow> Q d'"
  shows "Q (fst (consume_settlement reg sign event (d, s)))"
proof -
  obtain tr d' where p: "from_kafka_payload event d = Inr (tr, d')"
    by (auto simp: from_kafka_payload_def fresh_uuid_def run_simps)
  have "Q d'" using assms p by blast
  then have "Q (fst (close_session (snd (handle_settlement reg sign event i tr (connect d' s)))))" for i
    by (intro keeps_closed keeps_handle_settlement)
  with \<open>Q d'\<close> show ?thesis
    by (simp add: consume_settlement_def p split: option.split)
qed

end

text \<open>The ledger and the append-only tables.\<close>

lemma evolving_wf: "across evolves m \<Longrightarrow> across (\<lambda>d d'. ledger_wf d \<longrightarrow> ledger_wf d') m"
  by (auto simp: across_def evolves_def)

lemma evolving_from: "across evolves m \<Longrightarrow> across (\<lambda>d d'. evolves d0 d \<longrightarrow> evolves d0 d') m"
  unfolding across_def using ev.trans by blast

interpretation settles_sound: settlement_invariant ledger_wf ledger_committed
  by unfold_locales (rule evolving_wf evolving)+

interpretation settles_grown: settlement_invariant "evolves d0" "evolves d0" for d0
  by unfold_locales (rule evolving_from evolving)+

text \<open>The recorded history of instructions.\<close>

definition legal_transition :: "transition_row \<Rightarrow> bool" where
  "legal_transition r \<longleftrightarrow> (st_entity_type r = ''settlement_instruction'' \<longrightarrow>
     (case st_from_status r of None \<Rightarrow> False | Some f \<Rightarrow> st_to_status r \<in> set (allowed_next f)))"

definition legal_history :: "db \<Rightarrow> bool" where
  "legal_history d \<longleftrightarrow> (\<forall>r \<in> set (db_transitions d). legal_transition r)"

lemma legal_history_frame:
  "(\<And>d x d'. m d = Inr (x, d') \<Longrightarrow> db_transitions d' = db_transitions d) \<Longrightarrow>
   across (\<lambda>d d'. legal_history d \<longrightarrow> legal_history d') m"
  by (auto simp: across_def legal_history_def)

lemma transitions_frame:
  "process_if_new s e d = Inr (b, d') \<Longrightarrow> db_transitions d' = db_transitions d"
  "emit_settlement_event i et a tr d = Inr ((), d') \<Longrightarrow> db_transitions d' = db_transitions d"
  "settlement_journal i fa ta x d = Inr (j, d') \<Longrightarrow> db_transitions d' = db_transitions d"
  "update_instruction_status i st d = Inr ((), d') \<Longrightarrow> db_transitions d' = db_transitions d"
  "commit d = Inr ((), d') \<Longrightarrow> db_transitions d' = db_transitions d"
  by (auto simp: process_if_new_eq emit_settlement_event_def insert_outbox_event_eq commit_Inr
      settlement_journal_def insert_journal_Inr insert_entry_Inr update_instruction_status_def
      tx_simps split: if_splits)

lemma record_transition_Inr:
  "record_transition i f t reason tr d = Inr (u, d') \<longleftrightarrow> d' = d\<lparr>db_transitions := db_transitions d @
     [\<lparr>st_entity_type = ''settlement_instruction'', st_entity_id = i, st_from_status = Some f,
       st_to_status = t, st_reason = Some reason,
       st_transitioned_by = ''settlement-engine'' @ '':'' @ tr_actor tr,
       st_trace_id = Some (tr_trace_id tr), st_actor = Some (tr_actor tr)\<rparr>]\<rparr>"
  by (auto simp: record_transition_def service_transition_def insert_transition_def tx_simps)

lemma legal_advance:
  "across (\<lambda>d d'. legal_history d \<longrightarrow> legal_history d') (advance_status i f t rs tr)"
  by (rule acrossI) (auto simp: advance_status_def validate_transition_def record_transition_Inr
      tx_simps legal_history_def legal_transition_def dest!: transitions_frame)

lemma legal_fail:
  "''failed'' \<in> set (allowed_next f) \<Longrightarrow>
   across (\<lambda>d d'. legal_history d \<longrightarrow> legal_history d') (fail_instruction i f r tr)"
  by (rule acrossI) (auto simp: fail_instruction_def record_transition_Inr
      tx_simps legal_history_def legal_transition_def dest!: transitions_frame)

lemma transitions_frame':
  "update_instruction_block i b n d = Inr ((), d') \<Longrightarrow> db_transitions d' = db_transitions d"
  "update_instruction_tx_hash i h d = Inr ((), d') \<Longrightarrow> db_transitions d' = db_transitions d"
  "fresh_uuid d = Inr (u, d') \<Longrightarrow> db_transitions d' = db_transitions d"
  by (auto simp: update_instruction_block_def update_instruction_tx_hash_def fresh_uuid_def tx_simps)

interpretation settles_legal: settlement_invariant legal_history legal_history
proof unfold_locales
  show "legal_history d'" if "legal_history d" "commit d = Inr ((), d')" for d d'
    using that transitions_frame(5) [OF that(2)] by (simp add: legal_history_def)
qed (rule legal_advance legal_fail legal_history_frame | assumption
    | erule transitions_frame transitions_frame' | simp add: transitions_frame transitions_frame')+

text \<open>An instruction that has left \<open>pending\<close> does not come back.\<close>

definition not_pending :: "uuid \<Rightarrow> db \<Rightarrow> bool" where
  "not_pending s d \<longleftrightarrow> (\<forall>r \<in> set (db_instructions d). si_id r = s \<longrightarrow> si_status r \<noteq> ''pending'')"

lemma not_pending_frame:
  "(\<And>d x d'. m d = Inr (x, d') \<Longrightarrow> db_instructions d' = db_instructions d) \<Longrightarrow>
   across (\<lambda>d d'. not_pending s d \<longrightarrow> not_pending s d') m"
  by (auto simp: across_def not_pending_def)

lemma instructions_frame:
  "process_if_new s e d = Inr (b, d') \<Longrightarrow> db_instructions d' = db_instructions d"
  "emit_settlement_event i et a tr d = Inr (v, d') \<Longrightarrow> db_instructions d' = db_instructions d"
  "settlement_journal i fa ta x d = Inr (j, d') \<Longrightarrow> db_instructions d' = db_instructions d"
  "fresh_uuid d = Inr (u, d') \<Longrightarrow> db_instructions d' = db_instructions d"
  "commit d = Inr ((), d') \<Longrightarrow> db_instructions d' = db_instructions d"
  by (auto simp: process_if_new_eq emit_settlement_event_def insert_outbox_event_eq commit_Inr
      settlement_journal_def insert_journal_Inr insert_entry_Inr fresh_uuid_def
      tx_simps split: if_splits)

lemma update_instruction_status_Inr:
  "update_instruction_status i st d = Inr (u, d') \<longleftrightarrow>
     (has_instruction i d \<longrightarrow> st \<in> set (chk_settlement_status (db_schema d))) \<and>
     d' = d\<lparr>db_instructions :=
       update_where (\<lambda>r. si_id r = i) (si_status_update (\<lambda>_. st)) (db_instructions d)\<rparr>"
  by (auto simp: update_instruction_status_def tx_simps)

lemma advance_status_Inr:
  "advance_status i f t reason tr d = Inr (u, d') \<longleftrightarrow> t \<in> set (allowed_next f) \<and>
     (has_instruction i d \<longrightarrow> t \<in> set (chk_settlement_status (db_schema d))) \<and>
     d' = d\<lparr>db_instructions :=
         update_where (\<lambda>r. si_id r = i) (si_status_update (\<lambda>_. t)) (db_instructions d),
       db_transitions := db_transitions d @
         [\<lparr>st_entity_type = ''settlement_instruction'', st_entity_id = i, st_from_status = Some f,
           st_to_status = t, st_reason = Some (PStr reason),
           st_transitioned_by = ''settlement-engine'' @ '':'' @ tr_actor tr,
           st_trace_id = Some (tr_trace_id tr), st_actor = Some (tr_actor tr)\<rparr>]\<rparr>"
  by (auto simp: advance_status_def validate_transition_def update_instruction_status_Inr
      record_transition_Inr tx_simps)

lemma not_pending_update:
  "st \<noteq> ''pending'' \<Longrightarrow> not_pending s (d\<lparr>db_instructions :=
     update_where (\<lambda>r. si_id r = s) (si_status_update (\<lambda>_. st)) (db_instructions d)\<rparr>)"
  "st \<noteq> ''pending'' \<Longrightarrow> not_pending s d \<Longrightarrow> not_pending s (d\<lparr>db_instructions :=
     update_where (\<lambda>r. si_id r = i) (si_status_update (\<lambda>_. st)) (db_instructions d)\<rparr>)"
  by (simp_all add: not_pending_def update_where_def ball_Un)

lemma not_pending_same: "db_instructions d' = db_instructions d \<Longrightarrow> not_pending s d' = not_pending s d"
  by (simp add: not_pending_def)

lemma not_pending_transitions [simp]:
  "not_pending s (db_transitions_update f d) = not_pending s d"
  by (simp add: not_pending_def)

lemma not_pending_advance:
  assumes "advance_status i f t reason tr d = Inr (u, d')" "t \<noteq> ''pending''"
  shows "not_pending i d'" and "not_pending s d \<Longrightarrow> not_pending s d'"
proof -
  let ?e = "d\<lparr>db_instructions :=
     update_where (\<lambda>r. si_id r = i) (si_status_update (\<lambda>_. t)) (db_instructions d)\<rparr>"
  have "db_instructions d' = db_instructions ?e"
    using assms(1) unfolding advance_status_Inr by simp
  note same = not_pending_same [OF this]
  show "not_pending i d'" unfolding same by (rule not_pending_update(1) [OF assms(2)])
  show "not_pending s d'" if "not_pending s d"
    unfolding same by (rule not_pending_update(2) [OF assms(2) that])
qed

lemma not_pending_fail:
  assumes "fail_instruction i f reason tr d = Inr (u, d')"
  shows "not_pending i d'" and "not_pending s d \<Longrightarrow> not_pending s d'"
proof -
  from assms obtain e where e: "update_instruction_status i ''failed'' d = Inr ((), e)"
      "db_instructions d' = db_instructions e"
    unfolding fail_instruction_def tx_simps record_transition_Inr
    by (fastforce dest: instructions_frame(2))
  then show "not_pending i d'" "not_pending s d \<Longrightarrow> not_pending s d'"
    using not_pending_update [of "''failed''"] not_pending_same [OF e(2)]
    by (simp_all add: update_instruction_status_Inr)
qed

lemma not_pending_terms:
  "not_pending s d \<Longrightarrow> (\<And>r. si_id (f r) = si_id r \<and> si_status (f r) = si_status r) \<Longrightarrow>
   not_pending s (d\<lparr>db_instructions := update_where p f (db_instructions d)\<rparr>)"
  by (simp add: not_pending_def update_where_def ball_Un)

interpretation settles_once: settlement_invariant "not_pending s" "not_pending s" for s
proof unfold_locales
  show "not_pending s d'" if "not_pending s d" "commit d = Inr ((), d')" for d d'
    using that not_pending_same [OF instructions_frame(5) [OF that(2)]] by simp
  show "across (\<lambda>d d'. not_pending s d \<longrightarrow> not_pending s d') (update_instruction_block i b n)" for i b n
    by (rule acrossI) (simp add: update_instruction_block_def tx_simps not_pending_terms)
  show "across (\<lambda>d d'. not_pending s d \<longrightarrow> not_pending s d') (update_instruction_tx_hash i h)" for i h
    by (rule acrossI) (simp add: update_instruction_tx_hash_def tx_simps not_pending_terms)
  show "across (\<lambda>d d'. not_pending s d \<longrightarrow> not_pending s d') (advance_status i f t rs tr)"
    if "t \<noteq> ''pending''" for i f t rs tr
    using that by (intro acrossI impI) (rule not_pending_advance(2))
  show "across (\<lambda>d d'. not_pending s d \<longrightarrow> not_pending s d') (fail_instruction i f r tr)" for i f r tr
    by (intro acrossI impI) (rule not_pending_fail(2))
qed (assumption | rule not_pending_frame, erule instructions_frame)+

subsection \<open>Running a cash settlement\<close>

definition settle_vocab :: "schema \<Rightarrow> bool" where
  "settle_vocab s \<longleftrightarrow> ''SETTLEMENT'' \<in> set (chk_journal_type s) \<and>
     ''confirmed'' \<in> set (chk_journal_status s) \<and>
     {''approved'', ''signed'', ''broadcasted'', ''confirmed'', ''failed''} \<subseteq> set (chk_settlement_status s)"

lemma migrated_settle_vocab: "settle_vocab migrated_schema"
  by (simp add: settle_vocab_def schema_defs)

lemma settle_path:
  "''approved'' \<in> set (allowed_next ''pending'')" "''signed'' \<in> set (allowed_next ''approved'')"
  "''broadcasted'' \<in> set (allowed_next ''signed'')" "''confirmed'' \<in> set (allowed_next ''broadcasted'')"
  by (simp_all add: allowed_next_def VALID_TRANSITIONS_def)

lemma update_where_twice:
  "(\<And>r. p (g r) = p r) \<Longrightarrow> update_where p f (update_where p g rows) = update_where p (f \<circ> g) rows"
  by (simp add: update_where_def)

definition settle_entries :: "uuid \<Rightarrow> uuid \<Rightarrow> uuid \<Rightarrow> rat \<Rightarrow> entry_row list" where
  "settle_entries jid fa ta x = (if 0 < x then
     [\<lparr>je_journal_id = jid, je_account_id = fa, je_debit = 0, je_credit = x\<rparr>,
      \<lparr>je_journal_id = jid, je_account_id = ta, je_debit = x, je_credit = 0\<rparr>] else [])"

definition settled_rows :: "uuid \<Rightarrow> string \<Rightarrow> db \<Rightarrow> instruction_row list" where
  "settled_rows i st d = update_where (\<lambda>r. si_id r = i) (si_status_update (\<lambda>_. st)) (db_instructions d)"

lemma settled_rows_twice: "settled_rows i st (d\<lparr>db_instructions := settled_rows i st' e\<rparr>) = settled_rows i st e"
  by (simp add: settled_rows_def update_where_def comp_def)

lemma has_instruction_settled [simp]:
  "has_instruction j (d\<lparr>db_instructions := settled_rows i st d\<rparr>) = has_instruction j d"
proof -
  have ids: "has_instruction j e \<longleftrightarrow> j \<in> set (map si_id (db_instructions e))" for e
    by (auto simp: has_instruction_def)
  have "map si_id (settled_rows i st d) = map si_id (db_instructions d)"
    by (simp add: settled_rows_def map_update_terms)
  then show ?thesis unfolding ids by (simp del: list.set_map)
qed

lemma settlement_account_has: "settlement_account m d = Some a \<Longrightarrow> has_account a d"
  by (auto simp: settlement_account_def find_account_def has_account_def dest: fetchone_Some)

lemma settlement_journal_run:
  assumes "settle_vocab (db_schema d)" "has_account fa d" "has_account ta d" "num_valued x" "0 < x"
  shows "settlement_journal i fa ta x d = Inr (db_next_uuid d, d\<lparr>
     db_next_uuid := Suc (db_next_uuid d),
     db_journals := db_journals d @ [\<lparr>j_id = db_next_uuid d, j_journal_type = ''SETTLEMENT'',
        j_reference_type = ''settlement_instruction'', j_reference_id = Some i, j_status = ''confirmed''\<rparr>],
     db_entries := db_entries d @ settle_entries (db_next_uuid d) fa ta x,
     db_deferred := db_deferred d @ [db_next_uuid d, db_next_uuid d]\<rparr>)"
proof -
  have x: "num_round x = x" "num_fits x" "num_fits 0"
    using assms(4) by (auto simp: num_valued_def num_fits_def)
  show ?thesis
    unfolding settlement_journal_def tx_simps insert_journal_Inr insert_entry_Inr
    using assms x
    by (auto simp: settle_vocab_def settle_entries_def has_journal_def has_account_def
        intro!: db.equality)
qed

definition status_row :: "uuid \<Rightarrow> string \<Rightarrow> string \<Rightarrow> pval \<Rightarrow> trace_context \<Rightarrow> transition_row" where
  "status_row i f t reason tr =
     \<lparr>st_entity_type = ''settlement_instruction'', st_entity_id = i, st_from_status = Some f,
      st_to_status = t, st_reason = Some reason,
      st_transitioned_by = ''settlement-engine'' @ '':'' @ tr_actor tr,
      st_trace_id = Some (tr_trace_id tr), st_actor = Some (tr_actor tr)\<rparr>"

lemma advance_status_run:
  assumes "t \<in> set (allowed_next f)" "t \<in> set (chk_settlement_status (db_schema d))"
  shows "advance_status i f t reason tr d = Inr ((), d\<lparr>db_instructions := settled_rows i t d,
     db_transitions := db_transitions d @ [status_row i f t (PStr reason) tr]\<rparr>)"
  using assms by (simp add: advance_status_Inr settled_rows_def status_row_def)

lemma fail_instruction_run:
  assumes "''failed'' \<in> set (chk_settlement_status (db_schema d))"
  shows "\<exists>d'. fail_instruction i f reason tr d = Inr ((), d') \<and>
     db_instructions d' = settled_rows i ''failed'' d \<and> db_entries d' = db_entries d \<and>
     db_deferred d' = db_deferred d \<and> db_schema d' = db_schema d \<and>
     db_transitions d' = db_transitions d @ [status_row i f ''failed'' reason tr] \<and>
     (\<exists>row. db_outbox d' = db_outbox d @ [row] \<and> ob_event_type row = ''settlement.failed'' \<and>
        ob_aggregate_id row = i \<and> ob_payload row = outbox_payload [(''instruction_id'', PId i)]
          (db_next_uuid d) (Some (tr_trace_id tr)))"
  using assms
  by (simp add: fail_instruction_def emit_settlement_event_def tx_simps update_instruction_status_Inr
      record_transition_Inr insert_outbox_event_eq settled_rows_def status_row_def)

definition cash_history :: "uuid \<Rightarrow> trace_context \<Rightarrow> transition_row list" where
  "cash_history i tr =
     [status_row i ''pending'' ''approved'' (PStr ''Validation passed'') tr,
      status_row i ''approved'' ''signed'' (PStr ''Cash: no signing needed'') tr,
      status_row i ''signed'' ''broadcasted'' (PStr ''Cash: no broadcast needed'') tr,
      status_row i ''broadcasted'' ''confirmed'' (PStr ''Cash settlement completed'') tr]"

lemma settle_cash_run:
  assumes "settle_vocab (db_schema d)" "settlement_account (si_from_member_id r) d = Some fa"
    "settlement_account (si_to_member_id r) d = Some ta" "num_valued (si_amount r)"
  shows "\<exists>res jid d'. settle_cash r tr d = Inr (res, d') \<and>
     db_instructions d' = settled_rows (si_id r) ''confirmed'' d \<and>
     db_entries d' = db_entries d @ settle_entries jid fa ta (si_amount r) \<and>
     set (db_deferred d') \<subseteq> set (db_deferred d) \<union> {jid} \<and>
     db_transitions d' = db_transitions d @ cash_history (si_id r) tr"
proof -
  define d1 where "d1 = d\<lparr>db_instructions := settled_rows (si_id r) ''broadcasted'' d,
     db_transitions := db_transitions d @ take 3 (cash_history (si_id r) tr)\<rparr>"
  have v: "{''approved'', ''signed'', ''broadcasted'', ''confirmed''} \<subseteq>
      set (chk_settlement_status (db_schema d))"
    using assms(1) by (auto simp: settle_vocab_def)
  have steps: "bind_tx (advance_status (si_id r) ''pending'' ''approved'' ''Validation passed'' tr) (\<lambda>_.
      bind_tx (advance_status (si_id r) ''approved'' ''signed'' ''Cash: no signing needed'' tr) (\<lambda>_.
      bind_tx (advance_status (si_id r) ''signed'' ''broadcasted'' ''Cash: no broadcast needed'' tr) k)) d
      = k () d1" for k :: "unit \<Rightarrow> payload ccp"
    using v by (simp add: bind_tx_def advance_status_run settle_path settled_rows_twice
        d1_def cash_history_def settled_rows_def update_where_twice comp_def)
  obtain jid d2 where j: "(if 0 < si_amount r then settlement_journal (si_id r) fa ta (si_amount r)
        else fresh_uuid) d1 = Inr (jid, d2)" and
    d2: "db_instructions d2 = db_instructions d1" "db_transitions d2 = db_transitions d1"
      "db_schema d2 = db_schema d1" "db_entries d2 = db_entries d @ settle_entries jid fa ta (si_amount r)"
      "set (db_deferred d2) \<subseteq> set (db_deferred d) \<union> {jid}"
  proof (cases "0 < si_amount r")
    case True
    have "has_account fa d1" "has_account ta d1" "settle_vocab (db_schema d1)"
      using assms(1-3) by (auto simp: d1_def has_account_def dest!: settlement_account_has)
    from settlement_journal_run [OF this(3,1,2) assms(4) True, of "si_id r"] obtain e where
      "settlement_journal (si_id r) fa ta (si_amount r) d1 = Inr (db_next_uuid d1, e)"
      "db_instructions e = db_instructions d1" "db_transitions e = db_transitions d1"
      "db_schema e = db_schema d1" "db_deferred e = db_deferred d1 @ [db_next_uuid d1, db_next_uuid d1]"
      "db_entries e = db_entries d1 @ settle_entries (db_next_uuid d1) fa ta (si_amount r)" by simp
    then show thesis using True that [of "db_next_uuid d1" e] by (simp add: d1_def)
  next
    case False
    then show thesis
      using that [of "db_next_uuid d1" "d1\<lparr>db_next_uuid := Suc (db_next_uuid d1)\<rparr>"]
      by (auto simp: d1_def fresh_uuid_def settle_entries_def)
  qed
  have "db_schema d2 = db_schema d" using d2(3) by (simp add: d1_def)
  with v have "advance_status (si_id r) ''broadcasted'' ''confirmed'' ''Cash settlement completed'' tr d2 =
      Inr ((), d2\<lparr>db_instructions := settled_rows (si_id r) ''confirmed'' d2, db_transitions :=
        db_transitions d2 @ [status_row (si_id r) ''broadcasted'' ''confirmed''
          (PStr ''Cash settlement completed'') tr]\<rparr>)"
    by (intro advance_status_run settle_path) auto
  note last = this
  let ?m = "if 0 < si_amount r then settlement_journal (si_id r) fa ta (si_amount r) else fresh_uuid"
  show ?thesis
    unfolding settle_cash_def Let_def bind_gets_tx assms(2,3) prod.case option.case steps
      bind_tx_step [where m = ?m, OF j]
    using d2(4,5)
    by (simp add: last bind_tx_def return_tx_def emit_settlement_event_def insert_outbox_event_eq
        d2(1,2) settled_rows_def)
      (auto simp: d1_def settled_rows_def cash_history_def update_where_twice comp_def)
qed

subsection \<open>Messages of the engine\<close>

lemma journal_balanced_settle:
  assumes "db_entries d' = db_entries d @ settle_entries jid fa ta x"
  shows "journal_balanced d' j = journal_balanced d j"
  using assms by (auto simp: journal_balanced_def journal_entries_of_def settle_entries_def)

lemma balance_settle:
  assumes "db_entries d' = db_entries d @ settle_entries jid fa ta x" "fa \<noteq> ta" "0 \<le> x"
  shows "acct_balance d' ta = acct_balance d ta + x" "acct_balance d' fa = acct_balance d fa - x"
    and "a \<noteq> fa \<Longrightarrow> a \<noteq> ta \<Longrightarrow> acct_balance d' a = acct_balance d a"
  using assms by (auto simp: acct_balance_def settle_entries_def)

lemma pending_instruction_Some:
  "pending_instruction s d = Some (r, c) \<Longrightarrow> r \<in> set (db_instructions d) \<and> si_id r = s \<and>
     si_status r = ''pending''"
  by (auto simp: pending_instruction_def dest!: fetchone_Some)

lemma pending_instruction_None: "not_pending s d \<Longrightarrow> pending_instruction s d = None"
  by (cases "pending_instruction s d")
    (auto simp: not_pending_def dest!: pending_instruction_Some)

lemma settle_skips:
  assumes "pending_instruction s (ss_db w) = None" "ss_status w \<noteq> INERROR"
  shows "settle_instruction reg sign s (Some tr) w =
     (Inr [(''status'', PStr ''skipped''), (''reason'', PStr ''not_found_or_not_pending'')],
      w\<lparr>ss_status := INTRANS\<rparr>)"
  using assms
  by (simp add: settle_instruction_def bind_act_def sql_def return_tx_def gets_tx_def)

text \<open>What an engine that has returned leaves behind: a usable connection.\<close>

definition ends_well :: "('s, 'a) act \<Rightarrow> bool" where
  "ends_well a \<longleftrightarrow> (\<forall>w x w'. a w = (Inr x, w') \<longrightarrow> ss_status w' \<noteq> INERROR)"

lemma ends_well_sql: "ends_well (sql m)"
  by (auto simp: ends_well_def sql_def split: if_splits sum.splits)

lemma ends_well_commit: "ends_well commit_act"
  by (auto simp: ends_well_def commit_act_def split: if_splits sum.splits)

lemma ends_well_bind: "(\<And>x. ends_well (k x)) \<Longrightarrow> ends_well (bind_act m k)"
  by (auto simp: ends_well_def bind_act_def split: prod.splits sum.splits)

lemma ends_well_last: "ends_well m \<Longrightarrow> ends_well (bind_act m (\<lambda>x. return_act (f x)))"
  by (auto simp: ends_well_def bind_act_def split: prod.splits sum.splits)

lemma ends_well_catch: "ends_well m \<Longrightarrow> (\<And>e. ends_well (h e)) \<Longrightarrow> ends_well (catch_act m h)"
  by (fastforce simp: ends_well_def catch_act_def split: prod.splits sum.splits)

lemma ends_well_raise: "ends_well (raise_act e)"
  by (simp add: ends_well_def)

lemma ends_well_cases:
  "ends_well m \<Longrightarrow> ends_well n \<Longrightarrow> ends_well (if b then m else n)"
  "ends_well m \<Longrightarrow> (\<And>x. ends_well (k x)) \<Longrightarrow> ends_well (case u of None \<Rightarrow> m | Some x \<Rightarrow> k x)"
  "(\<And>e. ends_well (h e)) \<Longrightarrow> (\<And>x. ends_well (k x)) \<Longrightarrow>
   ends_well (case v of Inl e \<Rightarrow> h e | Inr x \<Rightarrow> k x)"
  by (simp_all split: option.split sum.split)

lemma ends_well_dvp: "ends_well (settle_dvp reg sign r c tr)"
  unfolding settle_dvp_def dvp_steps_def finalize_dvp_def Let_def
  by (rule ends_well_sql ends_well_commit ends_well_raise ends_well_catch ends_well_cases
      ends_well_last | rule ends_well_bind)+

end
