(* ===== verification/Settlement_Laws.thy ===== *)
theory Settlement_Laws
  imports Settlement
begin

section \<open>What the settlement engine guarantees\<close>

text \<open>
  The properties of \<open>Settlement\<close>: the status machine, what every message keeps, cash
  settlement end to end, and delivery-versus-payment over any adapter that fulfils the
  contract \<open>confirming_adapter\<close>.
\<close>

subsection \<open>Delivery versus payment, step by step\<close>

definition at_session :: "db \<Rightarrow> db \<Rightarrow> conn_status \<Rightarrow> 's \<Rightarrow> 's session" where
  "at_session c d st s = \<lparr>ss_committed = c, ss_db = d, ss_status = st, ss_outside = s\<rparr>"

lemma at_sql:
  "st \<noteq> INERROR \<Longrightarrow> sql m (at_session c d st s) = (case m d of
       Inl e \<Rightarrow> (Inl e, at_session c d (if is_sql_error e then INERROR else INTRANS) s)
     | Inr (x, d') \<Rightarrow> (Inr x, at_session c d' INTRANS s))"
  by (simp add: sql_def at_session_def split: sum.split)

lemma at_commit:
  "st \<noteq> INERROR \<Longrightarrow> commit_act (at_session c d st s) = (case commit d of
       Inl e \<Rightarrow> (Inl e, at_session c c IDLE s)
     | Inr (_, d') \<Rightarrow> (Inr (), at_session d' d' IDLE s))"
  by (simp add: commit_act_def at_session_def split: sum.split)

lemma at_outside:
  "outside m (at_session c d st s) = (case m s of
       Inl e \<Rightarrow> (Inl e, at_session c d st s)
     | Inr (x, s') \<Rightarrow> (Inr x, at_session c d st s'))"
  by (simp add: outside_def at_session_def split: sum.split)

lemma at_autocommit: "set_autocommit (at_session c d IDLE s) = (Inr (), at_session c d IDLE s)"
  by (simp add: set_autocommit_def at_session_def)

lemma commit_idle: "db_deferred d = [] \<Longrightarrow> commit d = Inr ((), d)"
  by (simp add: commit_Inr)

text \<open>The state of instruction \<open>i\<close> on its way: its status, and what the engine has not touched.\<close>

definition on_the_way :: "uuid \<Rightarrow> db \<Rightarrow> string \<Rightarrow> db \<Rightarrow> bool" where
  "on_the_way i d0 st d \<longleftrightarrow> db_schema d = db_schema d0 \<and> db_accounts d = db_accounts d0 \<and>
     db_entries d = db_entries d0 \<and> db_deferred d = [] \<and>
     (\<forall>r \<in> set (db_instructions d). si_id r = i \<longrightarrow> si_status r = st)"

lemma settled_rows_status: "\<forall>r \<in> set (settled_rows i st d). si_id r = i \<longrightarrow> si_status r = st"
  by (simp add: settled_rows_def update_where_def ball_Un)

lemma way_advance:
  assumes "on_the_way i d0 f d" "t \<in> set (allowed_next f)" "t \<in> set (chk_settlement_status (db_schema d0))"
  shows "\<exists>d'. advance_status i f t reason tr d = Inr ((), d') \<and> on_the_way i d0 t d'"
proof -
  have "t \<in> set (chk_settlement_status (db_schema d))" using assms(1,3) by (simp add: on_the_way_def)
  from advance_status_run [OF assms(2) this] assms(1) settled_rows_status show ?thesis
    by (simp add: on_the_way_def)
qed

lemma way_hash:
  assumes "on_the_way i d0 st d"
  shows "\<exists>d'. update_instruction_tx_hash i h d = Inr ((), d') \<and> on_the_way i d0 st d'"
  using assms
  by (simp add: update_instruction_tx_hash_def tx_simps on_the_way_def update_where_def ball_Un)

context confirming_adapter
begin

lemma dvp_steps_reach_broadcast:
  assumes way: "on_the_way (si_id r) d0 ''approved'' d" and vocab: "settle_vocab (db_schema d0)"
    and bound: "bound \<le> 31"
    and signer: "\<And>tx. \<exists>resp b. sign tx chain_id = Inr resp \<and> b64decode (sp_signed_tx_bytes resp) = Inr b"
  shows "\<exists>h n d' s'. dvp_steps ad sign chain_id contract r tr (at_session d d IDLE s) =
     finalize_dvp r h None n tr (at_session d' d' IDLE s') \<and> required \<le> n \<and>
     on_the_way (si_id r) d0 ''broadcasted'' d'"
proof -
  have v: "{''signed'', ''broadcasted''} \<subseteq> set (chk_settlement_status (db_schema d0))"
    using vocab by (auto simp: settle_vocab_def)
  obtain tx where 1: "build_dvp_tx ad (dvp_of_row r chain_id contract) s = Inr (tx, s)"
    using builds by blast
  obtain resp b where 2: "lift_tx (sign tx chain_id) s = Inr (resp, s)"
      "lift_tx (b64decode (sp_signed_tx_bytes resp)) s = Inr (b, s)"
    using signer [of tx] by (auto simp: lift_tx_def)
  obtain d1 where 3: "advance_status (si_id r) ''approved'' ''signed'' ''MPC signing complete'' tr d =
      Inr ((), d1)" and w1: "on_the_way (si_id r) d0 ''signed'' d1"
    using way_advance [OF way settle_path(2)] v by blast
  obtain res s1 q s2 where 4: "submit_signed_tx ad b s = Inr (res, s1)"
      "poll_confirmations ad (tx_hash res) required s1 = Inr (q, s2)"
    and fin: "tx_status q = TX_CONFIRMED" "required \<le> tx_confirmations q"
    using submitted_confirms [OF bound] by blast
  obtain d2 where 5: "update_instruction_tx_hash (si_id r) (tx_hash res) d1 = Inr ((), d2)"
    and w2: "on_the_way (si_id r) d0 ''signed'' d2"
    using way_hash [OF w1] by blast
  obtain d3 where 6: "advance_status (si_id r) ''signed'' ''broadcasted'' ''Tx submitted'' tr d2 =
      Inr ((), d3)" and w3: "on_the_way (si_id r) d0 ''broadcasted'' d3"
    using way_advance [OF w2 settle_path(3)] v by blast
  have c: "commit d1 = Inr ((), d1)" "commit d3 = Inr ((), d3)"
    using w1 w3 by (auto simp: on_the_way_def intro: commit_idle)
  have "dvp_steps ad sign chain_id contract r tr (at_session d d IDLE s) =
      finalize_dvp r (tx_hash res) None (tx_confirmations q) tr (at_session d3 d3 IDLE s2)"
    by (simp add: dvp_steps_def Let_def bind_act_def at_outside at_autocommit at_sql at_commit
        1 2 3 4 5 6 c requires fin(1))
  with fin(2) w3 show ?thesis by blast
qed

end

lemma finalize_dvp_run:
  assumes way: "on_the_way (si_id r) d0 ''broadcasted'' d" and vocab: "settle_vocab (db_schema d0)"
    and ledger: "ledger_committed d0"
    and acct: "settlement_account (si_from_member_id r) d0 = Some fa"
      "settlement_account (si_to_member_id r) d0 = Some ta"
    and amount: "num_valued (si_amount r)" "0 < si_amount r"
  shows "\<exists>jid d'. finalize_dvp r h b n tr (at_session d d IDLE s) =
     (Inr [(''status'', PStr ''confirmed''), (''instruction_id'', PId (si_id r)),
           (''tx_hash'', PStr h)], at_session d' d' IDLE s) \<and>
     db_entries d' = db_entries d0 @ settle_entries jid fa ta (si_amount r) \<and>
     (\<forall>q \<in> set (db_instructions d'). si_id q = si_id r \<longrightarrow> si_status q = ''confirmed'')"
proof -
  have eq: "db_schema d = db_schema d0" "db_accounts d = db_accounts d0" "db_entries d = db_entries d0"
     "db_deferred d = []" using way by (auto simp: on_the_way_def)
  have a: "settlement_account (si_from_member_id r) d = Some fa"
      "settlement_account (si_to_member_id r) d = Some ta"
    using acct eq(2) by (simp_all add: settlement_account_def find_account_def)
  obtain e where j: "settlement_journal (si_id r) fa ta (si_amount r) d = Inr (db_next_uuid d, e)"
    and e: "db_schema e = db_schema d0" "db_instructions e = db_instructions d"
      "db_entries e = db_entries d0 @ settle_entries (db_next_uuid d) fa ta (si_amount r)"
      "db_deferred e = [db_next_uuid d, db_next_uuid d]"
    using settlement_journal_run [OF _ _ _ amount, of d fa ta "si_id r"] vocab eq
      settlement_account_has [OF a(1)] settlement_account_has [OF a(2)] by auto
  define e1 where "e1 = e\<lparr>db_instructions := update_where (\<lambda>q. si_id q = si_id r)
      (\<lambda>q. q\<lparr>si_block_number := b, si_confirmations := n\<rparr>) (db_instructions e)\<rparr>"
  have k: "update_instruction_block (si_id r) b n e = Inr ((), e1)"
    by (simp add: update_instruction_block_def modify_tx_def e1_def)
  have "''confirmed'' \<in> set (chk_settlement_status (db_schema e1))"
    using vocab e(1) by (simp add: e1_def settle_vocab_def)
  note adv = advance_status_run [OF settle_path(4) this, of "si_id r" "''DVP confirmed on-chain''" tr]
  define e2 where "e2 = e1\<lparr>db_instructions := settled_rows (si_id r) ''confirmed'' e1, db_transitions :=
     db_transitions e1 @ [status_row (si_id r) ''broadcasted'' ''confirmed''
       (PStr ''DVP confirmed on-chain'') tr]\<rparr>"
  obtain e3 where m: "emit_settlement_event (si_id r) ''settlement.completed'' (si_from_member_id r) tr e2 =
      Inr ((), e3)" and e3: "db_instructions e3 = db_instructions e2" "db_entries e3 = db_entries e2"
      "db_deferred e3 = db_deferred e2"
    by (simp add: emit_settlement_event_def tx_simps insert_outbox_event_eq)
  have ent: "db_entries e3 = db_entries d0 @ settle_entries (db_next_uuid d) fa ta (si_amount r)"
    using e3(2) e(3) by (simp add: e2_def e1_def)
  have "journal_balanced e3 i" for i
    using journal_balanced_settle [OF ent] committed_balanced [OF ledger] by simp
  then have c: "commit e3 = Inr ((), e3\<lparr>db_deferred := []\<rparr>)" by (simp add: commit_Inr)
  have g: "gets_tx f d = Inr (f d, d)" for f :: "db \<Rightarrow> uuid option" by (simp add: gets_tx_def)
  have "finalize_dvp r h b n tr (at_session d d IDLE s) =
     (Inr [(''status'', PStr ''confirmed''), (''instruction_id'', PId (si_id r)),
           (''tx_hash'', PStr h)], at_session (e3\<lparr>db_deferred := []\<rparr>) (e3\<lparr>db_deferred := []\<rparr>) IDLE s)"
    by (simp add: finalize_dvp_def Let_def bind_act_def at_sql at_commit g a j k
        adv [folded e2_def] m c)
  moreover have "\<forall>q \<in> set (db_instructions (e3\<lparr>db_deferred := []\<rparr>)). si_id q = si_id r \<longrightarrow>
      si_status q = ''confirmed''"
    using settled_rows_status by (simp add: e3(1) e2_def)
  moreover have "db_entries (e3\<lparr>db_deferred := []\<rparr>) =
      db_entries d0 @ settle_entries (db_next_uuid d) fa ta (si_amount r)" by (simp add: ent)
  ultimately show ?thesis by blast
qed

subsection \<open>Decomposing a run\<close>

lemma bind_act_Inr:
  "bind_act m k w = (Inr y, w') \<longleftrightarrow> (\<exists>x v. m w = (Inr x, v) \<and> k x v = (Inr y, w'))"
  by (auto simp: bind_act_def split: prod.splits sum.splits)

lemma sql_Inr:
  "sql m w = (Inr x, w') \<longleftrightarrow> ss_status w \<noteq> INERROR \<and>
     (\<exists>d. m (ss_db w) = Inr (x, d) \<and> w' = w\<lparr>ss_db := d, ss_status := INTRANS\<rparr>)"
  by (auto simp: sql_def split: sum.splits)

lemma commit_act_Inr:
  "ss_status w = INTRANS \<Longrightarrow> commit_act w = (Inr x, w') \<longleftrightarrow>
     (\<exists>d. commit (ss_db w) = Inr ((), d) \<and> w' = w\<lparr>ss_committed := d, ss_db := d, ss_status := IDLE\<rparr>)"
  by (auto simp: commit_act_def split: sum.splits)

lemma from_kafka_payload_run:
  "\<exists>tr. from_kafka_payload p d = Inr (tr, d\<lparr>db_next_uuid := Suc (db_next_uuid d)\<rparr>)"
  by (simp add: from_kafka_payload_def fresh_uuid_def run_simps)

lemma next_uuid_frame [simp]:
  "ledger_committed (db_next_uuid_update f d) = ledger_committed d"
  "legal_history (db_next_uuid_update f d) = legal_history d"
  "pending_instruction s (db_next_uuid_update f d) = pending_instruction s d"
  by (simp_all add: ledger_committed_def legal_history_def pending_instruction_def)

lemma settle_dvp_not_pending:
  assumes "settle_dvp reg sign r c tr w = (Inr res, w')" "ss_status w = INTRANS"
  shows "not_pending (si_id r) (ss_db w')"
proof (cases "si_chain_id r = None \<or> si_chain_id r = Some []")
  case True
  with assms(1) obtain d where
    "fail_instruction (si_id r) ''pending'' (PStr ''No chain_id for DVP settlement'') tr (ss_db w) =
       Inr ((), d)" "ss_db w' = d"
    by (auto simp: settle_dvp_def Let_def bind_act_Inr sql_Inr)
  then show ?thesis using not_pending_fail(1) by simp
next
  case False
  then obtain chain where chain: "si_chain_id r = Some chain" "chain \<noteq> []" by auto
  with assms(1) obtain ad where ad: "registry_get reg chain = Inr ad"
    by (cases "registry_get reg chain") (auto simp: settle_dvp_def Let_def)
  let ?attempt = "catch_act (dvp_steps ad sign chain c r tr) (\<lambda>exc.
      bind_act set_autocommit (\<lambda>_.
      bind_act (sql (fail_instruction (si_id r) ''approved'' (exn_str exc) tr)) (\<lambda>_.
      bind_act commit_act (\<lambda>_.
      return_act [(''status'', PStr ''failed''), (''instruction_id'', PId (si_id r)),
                  (''error'', exn_str exc)]))))"
  have keeps: "keeps_act (not_pending (si_id r)) (not_pending (si_id r)) ?attempt"
    by (intro settles_once.rules settles_once.keeps_dvp_steps)
      (simp_all add: allowed_next_def VALID_TRANSITIONS_def)
  from assms chain ad obtain d1 d2 where
    "advance_status (si_id r) ''pending'' ''approved'' ''DVP validation passed'' tr (ss_db w) = Inr ((), d1)"
    "commit d1 = Inr ((), d2)" and
    run: "?attempt (w\<lparr>ss_committed := d2, ss_db := d2, ss_status := IDLE\<rparr>) = (Inr res, w')"
    by (auto simp: settle_dvp_def Let_def bind_act_Inr sql_Inr commit_act_Inr)
  then have "not_pending (si_id r) d2"
    using not_pending_advance(1) not_pending_same [OF instructions_frame(5)] by blast
  then show ?thesis using keeps_actD [OF keeps _ run] by (simp add: session_ok_def)
qed

lemma settle_cash_not_pending:
  assumes "settle_cash r tr d = Inr (res, d')"
  shows "not_pending (si_id r) d'"
proof (cases "settlement_account (si_from_member_id r) d = None \<or> settlement_account (si_to_member_id r) d = None")
  case True
  with assms show ?thesis
    by (auto simp: settle_cash_def Let_def tx_simps intro: not_pending_fail(1) split: option.splits)
next
  case False
  with assms obtain e1 e2 e3 jid e4 e5 where
    "advance_status (si_id r) ''broadcasted'' ''confirmed'' ''Cash settlement completed'' tr e4 = Inr ((), e5)"
    "emit_settlement_event (si_id r) ''settlement.completed'' (si_from_member_id r) tr e5 = Inr ((), d')"
    by (auto simp: settle_cash_def Let_def tx_simps)
  then show ?thesis
    using not_pending_advance(1) not_pending_same [OF instructions_frame(2)] by fastforce
qed

subsection \<open>A concrete instruction\<close>

text \<open>A net payment of 40 from member 1 to member 2, of the settlement type \<open>ty\<close>.\<close>

definition due_instruction :: "string \<Rightarrow> string option \<Rightarrow> instruction_row" where
  "due_instruction ty chain = \<lparr>si_id = 30, si_settlement_type = ty, si_netting_cycle_id = 31,
     si_from_member_id = 1, si_to_member_id = 2, si_instrument_id = 3, si_quantity = 4,
     si_amount = 40, si_chain_id = chain, si_tx_hash = None, si_status = ''pending'',
     si_block_number = None, si_confirmations = 0\<rparr>"

definition due_account :: "uuid \<Rightarrow> uuid \<Rightarrow> account_row" where
  "due_account a m = \<lparr>a_id = a, a_member_id = m, a_account_type = ''SETTLEMENT'',
     a_currency = ''USD'', a_pool = ''AVAILABLE''\<rparr>"

definition due_db :: "string \<Rightarrow> string option \<Rightarrow> db" where
  "due_db ty chain = example_db\<lparr>db_accounts := [due_account 20 1, due_account 21 2],
     db_instructions := [due_instruction ty chain], db_next_uuid := 50\<rparr>"

definition due_event :: payload where
  "due_event = [(''instruction_id'', PId 30), (''event_id'', PId 40)]"

lemma due_facts:
  "ledger_committed (due_db ty chain)" "legal_history (due_db ty chain)"
  "settle_vocab (db_schema (due_db ty chain))"
  "pending_instruction 30 (due_db ty chain) = Some (due_instruction ty chain, None)"
  "settlement_account 1 (due_db ty chain) = Some 20"
  "settlement_account (Suc 0) (due_db ty chain) = Some 20"
  "settlement_account 2 (due_db ty chain) = Some 21"
  "\<not> processed ''settlement-engine'' e (due_db ty chain)"
  using migrated_settle_vocab
  by (simp_all add: due_db_def due_instruction_def due_account_def example_defs ledger_committed_def
      ledger_wf_def journal_balanced_def journal_entries_of_def legal_history_def
      pending_instruction_def settlement_account_def find_account_def processed_def)

lemma due_payload: "pget_id due_event ''instruction_id'' = Some 30"
  "pget_id due_event ''event_id'' = Some 40"
  by (simp_all add: due_event_def pget_id_def pget_def)

lemma cash_message_run:
  assumes "ledger_committed d" "settle_vocab (db_schema d)"
    and "pget_id event ''instruction_id'' = Some sid"
    and "pget_id event ''event_id'' = Some e" "\<not> processed ''settlement-engine'' e d"
    and "pending_instruction sid d = Some (r, c)" "si_settlement_type r = ''cash''"
    and "settlement_account (si_from_member_id r) d = Some fa"
    and "settlement_account (si_to_member_id r) d = Some ta" "fa \<noteq> ta"
    and "num_valued (si_amount r)" "0 \<le> si_amount r"
  shows "let (d', s') = consume_settlement reg sign event (d, s) in
     ledger_committed d' \<and> s' = s \<and>
     acct_balance d' ta = acct_balance d ta + si_amount r \<and>
     acct_balance d' fa = acct_balance d fa - si_amount r \<and>
     (\<forall>a. a \<noteq> fa \<and> a \<noteq> ta \<longrightarrow> acct_balance d' a = acct_balance d a) \<and>
     (\<forall>q \<in> set (db_instructions d'). si_id q = sid \<longrightarrow> si_status q = ''confirmed'')"
proof -
  obtain tr where tr: "from_kafka_payload event d =
      Inr (tr, d\<lparr>db_next_uuid := Suc (db_next_uuid d)\<rparr>)"
    using from_kafka_payload_run by blast
  define d1 where "d1 = d\<lparr>db_next_uuid := Suc (db_next_uuid d)\<rparr>"
  define d2 where "d2 = d1\<lparr>db_processed := db_processed d1 @
    [\<lparr>pe_service_name = ''settlement-engine'', pe_event_id = e, pe_reference_id = None\<rparr>]\<rparr>"
  have new: "process_if_new ''settlement-engine'' e d1 = Inr (True, d2)"
    using assms(5) by (simp add: process_if_new_eq processed_def d1_def d2_def)
  have same: "db_entries d2 = db_entries d" "db_deferred d2 = []" "db_schema d2 = db_schema d"
      "pending_instruction sid d2 = Some (r, c)" "settlement_account m d2 = settlement_account m d" for m
    using assms(1,6) by (simp_all add: d2_def d1_def ledger_committed_def pending_instruction_def
        settlement_account_def find_account_def)
  have sid: "si_id r = sid" using assms(6) pending_instruction_Some by blast
  obtain res jid d3 where cash: "settle_cash r tr d2 = Inr (res, d3)"
    and d3: "db_instructions d3 = settled_rows sid ''confirmed'' d2"
      "db_entries d3 = db_entries d @ settle_entries jid fa ta (si_amount r)"
    using settle_cash_run [of d2 r fa ta tr] assms(2,8,9,11) same sid by auto
  have "journal_balanced d3 j" for j
    using journal_balanced_settle [OF d3(2)] committed_balanced [OF assms(1)] by simp
  then have c: "commit d3 = Inr ((), d3\<lparr>db_deferred := []\<rparr>)" by (simp add: commit_Inr)
  have run: "consume_settlement reg sign event (d, s) = (d3\<lparr>db_deferred := []\<rparr>, s)"
    using assms(3,4,7) tr new cash c same(4)
    by (simp add: consume_settlement_def handle_settlement_def settle_instruction_def bind_act_def
        sql_def commit_act_def return_tx_def gets_tx_def connect_def close_session_def d1_def [symmetric])
  have "evolves d (d3\<lparr>db_deferred := []\<rparr>) \<and> ledger_committed (d3\<lparr>db_deferred := []\<rparr>)"
  proof -
    have "ledger_wf d2" using assms(1) by (simp add: d2_def d1_def ledger_committed_def)
    moreover have "evolves d2 d3" by (rule acrossD [OF ev_settle_cash cash])
    ultimately have "ledger_wf d3" by (simp add: evolves_def)
    then have "ledger_committed (d3\<lparr>db_deferred := []\<rparr>)" using c by (rule commit_balances)
    moreover have "evolves d d1" using acrossD [OF trace_evolves(2) tr] by (simp add: d1_def)
    ultimately show ?thesis
      using acrossD [OF ev_process_if_new new] \<open>evolves d2 d3\<close> acrossD [OF ev_commit c] ev.trans by blast
  qed
  moreover have "acct_balance (d3\<lparr>db_deferred := []\<rparr>) a = acct_balance d3 a" for a
    by (simp add: acct_balance_def)
  ultimately show ?thesis
    using balance_settle [OF d3(2) assms(10,12)] settled_rows_status [of sid "''confirmed''" d2]
    by (simp add: run d3(1))
qed

subsection \<open>Properties\<close>

text \<open>The steps of the status machine.\<close>

inductive status_step :: "string \<Rightarrow> string \<Rightarrow> bool" where
  step: "t \<in> set (allowed_next f) \<Longrightarrow> status_step f t"

inductive_simps status_step_iff: "status_step f t"

definition status_rank :: "string \<Rightarrow> nat" where
  "status_rank st = (if st = ''pending'' then 0 else if st = ''approved'' then 1
     else if st = ''signed'' then 2 else if st = ''broadcasted'' then 3 else 4)"

lemma status_step_rank:
  "status_step f t \<Longrightarrow> status_rank f < status_rank t \<and> (t = ''confirmed'' \<longrightarrow> status_rank f = 3) \<and>
     (t \<notin> {''confirmed'', ''failed'', ''cancelled''} \<longrightarrow> status_rank t = Suc (status_rank f))"
  by (auto simp: status_step_iff allowed_next_def VALID_TRANSITIONS_def status_rank_def
      split: if_splits)

lemma status_steps_rank: "(status_step ^^ n) f t \<Longrightarrow> n + status_rank f \<le> status_rank t"
proof (induction n arbitrary: t)
  case (Suc n)
  then obtain u where "(status_step ^^ n) f u" "status_step u t" by auto
  with Suc.IH [of u] status_step_rank [of u t] show ?case by simp
qed simp

lemma status_steps_exact:
  "(status_step ^^ n) f t \<Longrightarrow> t \<notin> {''failed'', ''cancelled''} \<Longrightarrow>
   n + status_rank f = status_rank t"
proof (induction n arbitrary: t)
  case (Suc n)
  then obtain u where u: "(status_step ^^ n) f u" "status_step u t" by auto
  then have "u \<notin> {''failed'', ''cancelled'', ''confirmed''}"
    by (auto simp: status_step_iff allowed_next_def VALID_TRANSITIONS_def split: if_splits)
  with Suc.IH [of u] u status_step_rank [of u t] Suc.prems(2) show ?case
    by (cases "t = ''confirmed''") (auto simp: status_rank_def)
qed simp

text \<open>The status machine of an instruction ends: no path has more than four steps, and a
  pending instruction that gets confirmed has gone through all four (approved, signed,
  broadcasted, confirmed).\<close>

theorem status_machine_ends:
  assumes "(status_step ^^ n) f t"
  shows "n \<le> 4 \<and> (f = ''pending'' \<and> t = ''confirmed'' \<longrightarrow> n = 4)"
proof -
  have "status_rank t \<le> 4" by (simp add: status_rank_def)
  moreover have "n = 4" if "f = ''pending''" "t = ''confirmed''"
    using status_steps_exact [OF assms] that by (simp add: status_rank_def)
  ultimately show ?thesis using status_steps_rank [OF assms] by auto
qed

theorem status_machine_ends_witness:
  "(status_step ^^ 4) ''pending'' ''confirmed'' \<and> (4 :: nat) \<le> 4"
proof -
  have "(status_step ^^ 4) ''pending'' ''confirmed''"
    using settle_path by (auto simp: numeral_eq_Suc status_step_iff relcompp_apply)
  with status_machine_ends [OF this] show ?thesis by simp
qed

text \<open>C3. Whatever the chain adapters and the signers do (answer, fail, raise), a settlement
  message leaves a committed state: every journal balances, the append-only tables have only
  grown, and every recorded status change is one of the valid transitions.\<close>

theorem settlement_messages_sound:
  assumes "ledger_committed d" "legal_history d"
  shows "let (d', s') = consume_settlement reg sign event (d, s) in
     ledger_committed d' \<and> legal_history d' \<and> evolves d d'"
proof -
  let ?d = "fst (consume_settlement reg sign event (d, s))"
  note parse = from_kafka_payload_run [of event]
  have "ledger_committed ?d"
    using assms(1) parse by (intro settles_sound.keeps_consume_settlement) (metis Inr_inject prod.inject next_uuid_frame(1))+
  moreover have "legal_history ?d"
    using assms(2) parse by (intro settles_legal.keeps_consume_settlement) (metis Inr_inject prod.inject next_uuid_frame(2))+
  moreover have "evolves d ?d"
    by (rule settles_grown.keeps_consume_settlement)
      (auto intro: ev.trans acrossD [OF trace_evolves(2)])
  ultimately show ?thesis by (simp add: case_prod_beta Let_def)
qed

theorem settlement_messages_sound_witness:
  "\<forall>sha sign. let (d', s') = consume_settlement (build_chain_registry sha) sign due_event
       (due_db ''cash'' None, \<lambda>_. None)
   in ledger_committed d' \<and> legal_history d' \<and> evolves (due_db ''cash'' None) d'"
  by (intro allI, rule settlement_messages_sound) (rule due_facts)+

text \<open>C18. An instruction is settled at most once: after a settlement that returned, by whatever
  branch, another attempt skips the instruction and changes nothing.\<close>

theorem settles_at_most_once:
  assumes run: "settle_instruction reg sign s (Some tr) w = (Inr res, w')"
    and types: "\<And>r c. pending_instruction s (ss_db w) = Some (r, c) \<Longrightarrow>
      si_settlement_type r \<in> {''cash'', ''dvp'', ''physical''}"
  shows "settle_instruction reg' sign' s (Some tr') w' =
     (Inr [(''status'', PStr ''skipped''), (''reason'', PStr ''not_found_or_not_pending'')],
      w'\<lparr>ss_status := INTRANS\<rparr>)"
proof -
  let ?w = "w\<lparr>ss_status := INTRANS\<rparr>"
  show ?thesis
  proof (cases "pending_instruction s (ss_db w)")
    case None
    with run have "w' = ?w" "ss_status w \<noteq> INERROR"
      by (auto simp: settle_instruction_def bind_act_Inr sql_Inr tx_simps)
    then show ?thesis using None by (intro settle_skips) simp_all
  next
    case (Some rc)
    obtain r c where rc: "rc = (r, c)" by (cases rc)
    have s: "si_id r = s" using Some rc pending_instruction_Some by blast
    have "not_pending s (ss_db w') \<and> ss_status w' \<noteq> INERROR"
    proof (cases "si_settlement_type r = ''cash''")
      case True
      with run Some rc obtain d where "settle_cash r tr (ss_db w) = Inr (res, d)"
        "w' = ?w\<lparr>ss_db := d, ss_status := INTRANS\<rparr>"
        by (auto simp: settle_instruction_def bind_act_Inr sql_Inr tx_simps)
      then show ?thesis using settle_cash_not_pending s by auto
    next
      case False
      with run Some rc types [of r c] have "settle_dvp reg sign r c tr ?w = (Inr res, w')"
        by (auto simp: settle_instruction_def bind_act_Inr sql_Inr tx_simps)
      then show ?thesis using settle_dvp_not_pending s ends_well_dvp by (fastforce simp: ends_well_def)
    qed
    then show ?thesis by (intro settle_skips) (simp_all add: pending_instruction_None)
  qed
qed

theorem settles_at_most_once_witness:
  "\<forall>sha sign s. \<exists>res w'. settle_instruction (build_chain_registry sha) sign 30 (Some example_trace)
        (connect (due_db ''dvp'' None) s) = (Inr res, w') \<and>
     settle_instruction (build_chain_registry sha) sign 30 (Some example_trace) w' =
     (Inr [(''status'', PStr ''skipped''), (''reason'', PStr ''not_found_or_not_pending'')],
      w'\<lparr>ss_status := INTRANS\<rparr>)"
proof (intro allI)
  fix sha and sign :: signer and s
  have "''failed'' \<in> set (chk_settlement_status (db_schema (due_db ''dvp'' None)))"
    using due_facts(3) by (simp add: settle_vocab_def)
  from fail_instruction_run [OF this] obtain d' where
    "fail_instruction 30 ''pending'' (PStr ''No chain_id for DVP settlement'') example_trace
       (due_db ''dvp'' None) = Inr ((), d')" by blast
  then obtain res w' where run: "settle_instruction (build_chain_registry sha) sign 30
      (Some example_trace) (connect (due_db ''dvp'' None) s) = (Inr res, w')"
    by (simp add: settle_instruction_def settle_dvp_def bind_act_def sql_def return_tx_def gets_tx_def
        connect_def due_facts due_instruction_def Let_def)
  have "settle_instruction (build_chain_registry sha) sign 30 (Some example_trace) w' =
     (Inr [(''status'', PStr ''skipped''), (''reason'', PStr ''not_found_or_not_pending'')],
      w'\<lparr>ss_status := INTRANS\<rparr>)"
    by (rule settles_at_most_once [OF run]) (simp add: connect_def due_facts due_instruction_def)
  with run show "\<exists>res w'. settle_instruction (build_chain_registry sha) sign 30 (Some example_trace)
        (connect (due_db ''dvp'' None) s) = (Inr res, w') \<and>
     settle_instruction (build_chain_registry sha) sign 30 (Some example_trace) w' =
     (Inr [(''status'', PStr ''skipped''), (''reason'', PStr ''not_found_or_not_pending'')],
      w'\<lparr>ss_status := INTRANS\<rparr>)" by blast
qed

text \<open>A cash message settles: for a pending cash instruction whose members have settlement
  accounts, the payee's account gains the amount and the payer's loses it, no other account
  changes, the instruction is confirmed, and the state is committed.\<close>

theorem cash_message_settles:
  assumes "ledger_committed d" "settle_vocab (db_schema d)"
    and "pget_id event ''instruction_id'' = Some sid"
    and "pget_id event ''event_id'' = Some e" "\<not> processed ''settlement-engine'' e d"
    and "pending_instruction sid d = Some (r, c)" "si_settlement_type r = ''cash''"
    and "settlement_account (si_from_member_id r) d = Some fa"
    and "settlement_account (si_to_member_id r) d = Some ta" "fa \<noteq> ta"
    and "num_valued (si_amount r)" "0 \<le> si_amount r"
  shows "let (d', s') = consume_settlement reg sign event (d, s) in
     ledger_committed d' \<and> s' = s \<and>
     acct_balance d' ta = acct_balance d ta + si_amount r \<and>
     acct_balance d' fa = acct_balance d fa - si_amount r \<and>
     (\<forall>a. a \<noteq> fa \<and> a \<noteq> ta \<longrightarrow> acct_balance d' a = acct_balance d a) \<and>
     (\<forall>q \<in> set (db_instructions d'). si_id q = sid \<longrightarrow> si_status q = ''confirmed'')"
  using assms by (rule cash_message_run)

theorem cash_message_settles_witness:
  "\<forall>sha sign. let (d', s') = consume_settlement (build_chain_registry sha) sign due_event
       (due_db ''cash'' None, \<lambda>_. None)
   in ledger_committed d' \<and> acct_balance d' 21 = 40 \<and> acct_balance d' 20 = - 40"
proof (intro allI)
  fix sha and sign :: signer
  have "acct_balance (due_db ''cash'' None) a = 0" for a
    by (simp add: acct_balance_def due_db_def example_defs)
  then show "let (d', s') = consume_settlement (build_chain_registry sha) sign due_event
       (due_db ''cash'' None, \<lambda>_. None)
   in ledger_committed d' \<and> acct_balance d' 21 = 40 \<and> acct_balance d' 20 = - 40"
    using cash_message_settles [of "due_db ''cash'' None" due_event 30 40 "due_instruction ''cash'' None"
        None 20 21 "build_chain_registry sha" sign "\<lambda>_. None"]
    by (simp add: due_facts due_payload due_instruction_def num_valued_numeral case_prod_beta Let_def)
qed

text \<open>An instruction without a chain id fails: nothing is posted, the instruction is marked
  failed. The netting engine inserts no chain id, so this is the fate of every delivery versus
  payment it orders.\<close>

theorem dvp_without_chain_fails:
  assumes "pending_instruction sid (ss_db w) = Some (r, c)" "si_chain_id r = None"
    and "si_settlement_type r \<in> {''dvp'', ''physical''}" "ss_status w \<noteq> INERROR"
    and "''failed'' \<in> set (chk_settlement_status (db_schema (ss_db w)))"
  shows "\<exists>w'. settle_instruction reg sign sid (Some tr) w =
       (Inr [(''status'', PStr ''failed''), (''reason'', PStr ''no_chain_id'')], w') \<and>
     db_entries (ss_db w') = db_entries (ss_db w) \<and>
     (\<forall>q \<in> set (db_instructions (ss_db w')). si_id q = sid \<longrightarrow> si_status q = ''failed'')"
proof -
  have sid: "si_id r = sid" using assms(1) pending_instruction_Some by blast
  obtain d' where "fail_instruction sid ''pending'' (PStr ''No chain_id for DVP settlement'') tr (ss_db w) =
      Inr ((), d')" "db_instructions d' = settled_rows sid ''failed'' (ss_db w)"
      "db_entries d' = db_entries (ss_db w)"
    using fail_instruction_run [OF assms(5)] by blast
  then show ?thesis
    using assms settled_rows_status [of sid "''failed''" "ss_db w"] sid
    by (auto simp: settle_instruction_def settle_dvp_def bind_act_def sql_def return_tx_def gets_tx_def)
qed

theorem dvp_without_chain_fails_witness:
  "\<forall>sha sign s. \<exists>w'. settle_instruction (build_chain_registry sha) sign 30 (Some example_trace)
         (connect (due_db ''dvp'' None) s) =
       (Inr [(''status'', PStr ''failed''), (''reason'', PStr ''no_chain_id'')], w') \<and>
     db_entries (ss_db w') = db_entries (ss_db (connect (due_db ''dvp'' None) s)) \<and>
     (\<forall>q \<in> set (db_instructions (ss_db w')). si_id q = 30 \<longrightarrow> si_status q = ''failed'')"
  by (intro allI, rule dvp_without_chain_fails [where r = "due_instruction ''dvp'' None" and c = None])
    (use due_facts(3) in \<open>simp_all add: connect_def due_facts due_instruction_def settle_vocab_def\<close>)


definition honest_signer :: signer where
  "honest_signer tx chain = Inr \<lparr>sp_signed_tx_bytes = b64encode tx, sp_signatures = []\<rparr>"


end
