(* ===== verification/Reconcile.thy ===== *)
theory Reconcile
  imports Novation
begin

section \<open>The reconciliation engine\<close>

text \<open>
  \<open>services/reconciliation-engine/src/reconciliation_engine/reconciler.py\<close> and \<open>main.py\<close>: the
  global and the per-journal balance check, the replay of the confirmed entries against the view
  \<open>account_balances\<close> of migration 015, and the report the service keeps. The connection is
  read-only, so every definition is a function of the database.
\<close>

subsection \<open>The queries\<close>

text \<open>\<open>journal_entries je JOIN journals j ON j.id = je.journal_id WHERE j.status = 'confirmed'\<close>.\<close>

definition confirmed_entries :: "db \<Rightarrow> entry_row list" where
  "confirmed_entries d = [e. e \<leftarrow> db_entries d, j \<leftarrow> db_journals d,
     j_id j = je_journal_id e \<and> j_status j = ''confirmed'']"

definition check_global_balance :: "db \<Rightarrow> bool" where
  "check_global_balance d =
     (let es = confirmed_entries d in
      if es = [] then True else (\<Sum>e\<leftarrow>es. je_debit e) = (\<Sum>e\<leftarrow>es. je_credit e))"

definition unbalanced_journals :: "db \<Rightarrow> uuid list" where
  "unbalanced_journals d = map fst
     (filter (\<lambda>(j, es). (\<Sum>e\<leftarrow>es. je_debit e) \<noteq> (\<Sum>e\<leftarrow>es. je_credit e))
       (group_by je_journal_id (confirmed_entries d)))"

definition check_journal_integrity :: "db \<Rightarrow> bool" where
  "check_journal_integrity d = (length (unbalanced_journals d) = 0)"

definition recomputed_rows :: "db \<Rightarrow> (uuid \<times> rat) list" where
  "recomputed_rows d =
     map (\<lambda>(a, es). (a, (\<Sum>e\<leftarrow>es. je_debit e) - (\<Sum>e\<leftarrow>es. je_credit e)))
       (group_by je_account_id (confirmed_entries d))"

text \<open>The dictionary filled from the view: the last row of an account stays.\<close>

definition actual_balances :: "db \<Rightarrow> uuid \<rightharpoonup> rat" where
  "actual_balances d = map_of (rev (map (\<lambda>a. (a_id a, acct_balance d (a_id a))) (db_accounts d)))"

subsection \<open>The report\<close>

record account_result =
  ar_account_id :: uuid
  ar_expected_balance :: rat
  ar_actual_balance :: rat
  ar_difference :: rat
  ar_status :: string

record reconciliation_report =
  rr_status :: string
  rr_global_balance_ok :: bool
  rr_journal_integrity_ok :: bool
  rr_accounts_checked :: nat
  rr_mismatches :: nat
  rr_details :: "account_result list"

definition compare_account :: "(uuid \<rightharpoonup> rat) \<Rightarrow> uuid \<times> rat \<Rightarrow> account_result" where
  "compare_account actuals = (\<lambda>(a, expected).
     let actual = (case actuals a of None \<Rightarrow> 0 | Some x \<Rightarrow> x); diff = dsub expected actual in
     \<lparr>ar_account_id = a, ar_expected_balance = expected, ar_actual_balance = actual,
      ar_difference = diff, ar_status = (if diff = 0 then ''ok'' else ''mismatch'')\<rparr>)"

text \<open>The loop over the rows: the details so far and the number of mismatches.\<close>

definition reconcile_row ::
    "(uuid \<rightharpoonup> rat) \<Rightarrow> account_result list \<times> nat \<Rightarrow> uuid \<times> rat \<Rightarrow> account_result list \<times> nat" where
  "reconcile_row actuals = (\<lambda>(details, mismatches) row.
     let r = compare_account actuals row in
     (details @ [r], if ar_difference r \<noteq> 0 then mismatches + 1 else mismatches))"

definition run_reconciliation :: "db \<Rightarrow> reconciliation_report" where
  "run_reconciliation d =
     (let global_ok = check_global_balance d;
          journal_ok = check_journal_integrity d;
          rows = recomputed_rows d;
          result = foldl (reconcile_row (actual_balances d)) ([], 0) rows in
      \<lparr>rr_status = (if snd result = 0 \<and> global_ok \<and> journal_ok then ''pass'' else ''fail''),
       rr_global_balance_ok = global_ok, rr_journal_integrity_ok = journal_ok,
       rr_accounts_checked = length rows, rr_mismatches = snd result,
       rr_details = fst result\<rparr>)"

subsection \<open>The service\<close>

text \<open>The global \<open>_last_report\<close> is the second component of the result.\<close>

definition reconcile :: "db \<Rightarrow> reconciliation_report option \<Rightarrow>
    reconciliation_report \<times> reconciliation_report option" where
  "reconcile d kept = (let report = run_reconciliation d in (report, Some report))"

definition get_latest_report :: "reconciliation_report option \<Rightarrow> reconciliation_report" where
  "get_latest_report kept = (case kept of
     None \<Rightarrow> \<lparr>rr_status = ''no_data'', rr_global_balance_ok = True, rr_journal_integrity_ok = True,
              rr_accounts_checked = 0, rr_mismatches = 0, rr_details = []\<rparr>
   | Some r \<Rightarrow> r)"

subsection \<open>The loop and the joins in closed form\<close>

lemma foldl_reconcile_row:
  "foldl (reconcile_row actuals) (ds, n) rows =
     (ds @ map (compare_account actuals) rows,
      n + length (filter (\<lambda>r. ar_difference (compare_account actuals r) \<noteq> 0) rows))"
  by (induction rows arbitrary: ds n) (simp_all add: reconcile_row_def Let_def)

lemma join_on_key:
  assumes "distinct (map key js)"
  shows "concat (map (\<lambda>j. if key j = k \<and> Q j then [e] else []) js) =
     (if \<exists>j \<in> set js. key j = k \<and> Q j then [e] else [])"
  using assms
proof (induction js)
  case (Cons j js)
  then have "key j \<notin> key ` set js" by simp
  then have "\<forall>i \<in> set js. key i \<noteq> k" if "key j = k"
    using that by (metis image_eqI)
  with Cons show ?case by (cases "key j = k") simp_all
qed simp

lemma join_is_filter: "concat (map (\<lambda>e. if P e then [e] else []) es) = filter P es"
  by (induction es) simp_all

lemma confirmed_entries_filter:
  assumes "distinct (map j_id (db_journals d))"
  shows "confirmed_entries d = filter (\<lambda>e. \<exists>j \<in> set (db_journals d).
     j_id j = je_journal_id e \<and> j_status j = ''confirmed'') (db_entries d)"
  unfolding confirmed_entries_def join_on_key [OF assms] by (rule join_is_filter)

definition is_confirmed :: "db \<Rightarrow> uuid \<Rightarrow> bool" where
  "is_confirmed d k \<longleftrightarrow> (\<exists>j \<in> set (db_journals d). j_id j = k \<and> j_status j = ''confirmed'')"

text \<open>What the journals that are not confirmed add to an account.\<close>

definition unconfirmed_net :: "db \<Rightarrow> uuid \<Rightarrow> rat" where
  "unconfirmed_net d a = (\<Sum>e\<leftarrow>filter (\<lambda>e. je_account_id e = a \<and> \<not> is_confirmed d (je_journal_id e))
     (db_entries d). je_debit e - je_credit e)"

definition touched_by_confirmed :: "db \<Rightarrow> uuid \<Rightarrow> bool" where
  "touched_by_confirmed d a \<longleftrightarrow>
     (\<exists>e \<in> set (db_entries d). je_account_id e = a \<and> is_confirmed d (je_journal_id e))"

lemma confirmed_entries_eq:
  "ids_wf d \<Longrightarrow> confirmed_entries d = filter (\<lambda>e. is_confirmed d (je_journal_id e)) (db_entries d)"
  by (simp add: ids_wf_def Let_def fresh_ids_def confirmed_entries_filter is_confirmed_def)

lemma group_by_iff:
  "(k, g) \<in> set (group_by key rows) \<longleftrightarrow> k \<in> key ` set rows \<and> g = filter (\<lambda>q. key q = k) rows"
proof
  assume "(k, g) \<in> set (group_by key rows)"
  moreover have "k \<in> set (map fst (group_by key rows))"
    using calculation by (simp add: rev_image_eqI)
  ultimately show "k \<in> key ` set rows \<and> g = filter (\<lambda>q. key q = k) rows"
    unfolding group_by_keys by (simp add: group_by_member)
next
  assume *: "k \<in> key ` set rows \<and> g = filter (\<lambda>q. key q = k) rows"
  then have "k \<in> set (map fst (group_by key rows))" unfolding group_by_keys by simp
  then obtain h where "(k, h) \<in> set (group_by key rows)" by auto
  with * group_by_member [OF this] show "(k, g) \<in> set (group_by key rows)" by simp
qed

lemma ball_group_by:
  "(\<forall>(k, g) \<in> set (group_by key rows). P g) \<longleftrightarrow>
     (\<forall>k \<in> key ` set rows. P (filter (\<lambda>q. key q = k) rows))"
  by (simp add: Ball_def split_paired_All group_by_iff del: image_iff)

text \<open>A journal is confirmed as a whole, so its confirmed entries are its entries or none.\<close>

lemma journal_integrity_iff:
  assumes "ids_wf d"
  shows "check_journal_integrity d \<longleftrightarrow>
     (\<forall>j. is_confirmed d j \<longrightarrow> journal_balanced d j)"
proof -
  have group: "filter (\<lambda>e. je_journal_id e = j) (confirmed_entries d) =
      (if is_confirmed d j then journal_entries_of d j else [])" for j
  proof -
    have "filter (\<lambda>e. is_confirmed d (je_journal_id e) \<and> je_journal_id e = j) es =
        (if is_confirmed d j then filter (\<lambda>e. je_journal_id e = j) es else [])" for es
      by (induction es) auto
    note this [of "db_entries d"]
    then show ?thesis by (simp add: confirmed_entries_eq [OF assms] journal_entries_of_def)
  qed
  have "check_journal_integrity d \<longleftrightarrow>
      (\<forall>(j, es) \<in> set (group_by je_journal_id (confirmed_entries d)).
         (\<Sum>e\<leftarrow>es. je_debit e) = (\<Sum>e\<leftarrow>es. je_credit e))"
    by (auto simp: check_journal_integrity_def unbalanced_journals_def filter_empty_conv)
  also have "\<dots> \<longleftrightarrow> (\<forall>j \<in> je_journal_id ` set (confirmed_entries d). journal_balanced d j)"
  proof -
    have entries: "filter (\<lambda>e. je_journal_id e = j) (confirmed_entries d) = journal_entries_of d j"
      if "j \<in> je_journal_id ` set (confirmed_entries d)" for j
      using that group [of j] by (auto simp: confirmed_entries_eq [OF assms])
    show ?thesis
      unfolding ball_group_by journal_balanced_def using entries by (intro ball_cong refl) simp
  qed
  also have "\<dots> \<longleftrightarrow> (\<forall>j. is_confirmed d j \<longrightarrow> journal_balanced d j)"
  proof -
    have "journal_balanced d j" if "j \<notin> je_journal_id ` set (confirmed_entries d)" "is_confirmed d j" for j
    proof -
      have "filter (\<lambda>e. je_journal_id e = j) (confirmed_entries d) = []"
        using that(1) by (auto simp: filter_empty_conv)
      with that(2) group [of j] show ?thesis by (simp add: journal_balanced_def)
    qed
    moreover have "is_confirmed d j" if "j \<in> je_journal_id ` set (confirmed_entries d)" for j
      using that by (auto simp: confirmed_entries_eq [OF assms])
    ultimately show ?thesis by blast
  qed
  finally show ?thesis .
qed

lemma global_balance_of_journals:
  assumes "check_journal_integrity d"
  shows "check_global_balance d"
proof -
  have "(\<Sum>e\<leftarrow>confirmed_entries d. je_debit e - je_credit e) =
      (\<Sum>(j, es)\<leftarrow>group_by je_journal_id (confirmed_entries d). \<Sum>e\<leftarrow>es. je_debit e - je_credit e)"
    by (simp add: group_by_sum)
  also have "\<dots> = (\<Sum>x\<leftarrow>group_by je_journal_id (confirmed_entries d). 0)"
    using assms
    by (intro arg_cong [where f = sum_list] map_cong refl)
      (auto simp: check_journal_integrity_def unbalanced_journals_def filter_empty_conv sum_list_diff)
  finally show ?thesis by (auto simp: check_global_balance_def Let_def sum_list_diff)
qed

lemma actual_balances_account:
  assumes "distinct (map a_id (db_accounts d))" "has_account a d"
  shows "actual_balances d a = Some (acct_balance d a)"
proof -
  have "(a, acct_balance d a) \<in> set (rev (map (\<lambda>a. (a_id a, acct_balance d (a_id a))) (db_accounts d)))"
    using assms(2) by (auto simp: has_account_def)
  moreover have "distinct (map fst (rev (map (\<lambda>a. (a_id a, acct_balance d (a_id a))) (db_accounts d))))"
    using assms(1) by (simp add: rev_map [symmetric] comp_def)
  ultimately show ?thesis unfolding actual_balances_def by (intro map_of_is_SomeI)
qed

lemma balance_split:
  assumes "ids_wf d"
  shows "acct_balance d a =
     (\<Sum>e\<leftarrow>filter (\<lambda>e. je_account_id e = a) (confirmed_entries d). je_debit e - je_credit e) +
     unconfirmed_net d a"
proof -
  have "(\<Sum>e\<leftarrow>filter (\<lambda>e. je_account_id e = a) es. je_debit e - je_credit e) =
      (\<Sum>e\<leftarrow>filter (\<lambda>e. je_account_id e = a) (filter (\<lambda>e. is_confirmed d (je_journal_id e)) es).
         je_debit e - je_credit e) +
      (\<Sum>e\<leftarrow>filter (\<lambda>e. je_account_id e = a \<and> \<not> is_confirmed d (je_journal_id e)) es.
         je_debit e - je_credit e)" for es
    by (induction es) auto
  then show ?thesis
    by (simp only: acct_balance_def unconfirmed_net_def confirmed_entries_eq [OF assms])
qed

lemma mismatch_iff:
  assumes "ids_wf d" "ledger_wf d" "distinct (map a_id (db_accounts d))"
    and row: "(a, x) \<in> set (recomputed_rows d)"
  shows "ar_difference (compare_account (actual_balances d) (a, x)) = 0 \<longleftrightarrow> unconfirmed_net d a = 0"
proof -
  from row have x: "x = (\<Sum>e\<leftarrow>filter (\<lambda>e. je_account_id e = a) (confirmed_entries d).
      je_debit e - je_credit e)" and "a \<in> je_account_id ` set (confirmed_entries d)"
    by (auto simp: recomputed_rows_def group_by_iff sum_list_diff)
  then have "has_account a d"
    using assms(2) by (auto simp: confirmed_entries_eq [OF assms(1)] ledger_wf_def)
  with x show ?thesis
    by (simp add: compare_account_def Let_def actual_balances_account [OF assms(3)] dsub_def
        balance_split [OF assms(1), of a])
qed

lemma recomputed_accounts:
  "ids_wf d \<Longrightarrow> fst ` set (recomputed_rows d) = {a. touched_by_confirmed d a}"
  unfolding recomputed_rows_def touched_by_confirmed_def
  by (force simp: group_by_iff confirmed_entries_eq image_iff)

lemma reconciliation_iff:
  assumes "ids_wf d" "ledger_wf d" "distinct (map a_id (db_accounts d))"
  shows "(rr_status (run_reconciliation d) = ''pass'' \<longleftrightarrow>
      (\<forall>j. is_confirmed d j \<longrightarrow> journal_balanced d j) \<and>
      (\<forall>a. touched_by_confirmed d a \<longrightarrow> unconfirmed_net d a = 0)) \<and>
    rr_mismatches (run_reconciliation d) =
      card {a. touched_by_confirmed d a \<and> unconfirmed_net d a \<noteq> 0}"
proof -
  let ?bad = "filter (\<lambda>r. ar_difference (compare_account (actual_balances d) r) \<noteq> 0) (recomputed_rows d)"
  have bad: "fst ` set ?bad = {a. touched_by_confirmed d a \<and> unconfirmed_net d a \<noteq> 0}"
    using mismatch_iff [OF assms] recomputed_accounts [OF assms(1)] by force
  have "distinct (map fst (recomputed_rows d))"
    using group_by_distinct [of je_account_id "confirmed_entries d"]
    by (simp add: recomputed_rows_def comp_def case_prod_unfold)
  then have "distinct (map fst ?bad)" by (rule distinct_map_filter)
  then have count: "length ?bad = card {a. touched_by_confirmed d a \<and> unconfirmed_net d a \<noteq> 0}"
    unfolding bad [symmetric] by (metis distinct_card length_map set_map)
  then have number: "rr_mismatches (run_reconciliation d) =
      card {a. touched_by_confirmed d a \<and> unconfirmed_net d a \<noteq> 0}"
    by (simp add: run_reconciliation_def Let_def foldl_reconcile_row)
  have "length ?bad = 0 \<longleftrightarrow> (\<forall>a. touched_by_confirmed d a \<longrightarrow> unconfirmed_net d a = 0)"
    using bad by (metis (mono_tags, lifting) image_is_empty length_0_conv mem_Collect_eq empty_Collect_eq set_empty)
  with number show ?thesis
    using global_balance_of_journals [of d]
    by (auto simp: run_reconciliation_def Let_def foldl_reconcile_row journal_integrity_iff [OF assms(1)])
qed

lemma all_confirmed_net: 
  assumes "all_confirmed d" "ledger_wf d"
  shows "unconfirmed_net d a = 0"
proof -
  have "filter (\<lambda>e. je_account_id e = a \<and> \<not> is_confirmed d (je_journal_id e)) (db_entries d) = []"
    using assms
    by (auto simp: filter_empty_conv ledger_wf_def has_journal_def is_confirmed_def all_confirmed_def)
  then show ?thesis by (simp add: unconfirmed_net_def)
qed

text \<open>A committed ledger whose journals are all confirmed reconciles.\<close>

lemma committed_reconciles:
  assumes "ledger_committed d" "all_confirmed d" "ids_wf d" "distinct (map a_id (db_accounts d))"
  shows "rr_status (run_reconciliation d) = ''pass''" "rr_mismatches (run_reconciliation d) = 0"
  using assms reconciliation_iff [OF assms(3) _ assms(4)] committed_balanced [OF assms(1)]
    all_confirmed_net [OF assms(2)]
  by (auto simp: ledger_committed_def)

text \<open>
  A pending journal that balances: the replay leaves it out and the view counts it.
\<close>

definition pending_db :: db where
  "pending_db = example_db\<lparr>
     db_journals :=
       [\<lparr>j_id = 10, j_journal_type = ''SETTLEMENT'', j_reference_type = ''r'', j_reference_id = None,
         j_status = ''confirmed''\<rparr>,
        \<lparr>j_id = 11, j_journal_type = ''SETTLEMENT'', j_reference_type = ''r'', j_reference_id = None,
         j_status = ''pending''\<rparr>],
     db_entries :=
       [\<lparr>je_journal_id = 10, je_account_id = 4, je_debit = 5, je_credit = 0\<rparr>,
        \<lparr>je_journal_id = 10, je_account_id = 6, je_debit = 0, je_credit = 5\<rparr>,
        \<lparr>je_journal_id = 11, je_account_id = 4, je_debit = 3, je_credit = 0\<rparr>,
        \<lparr>je_journal_id = 11, je_account_id = 7, je_debit = 0, je_credit = 3\<rparr>],
     db_next_uuid := 12\<rparr>"

lemma pending_db_ok: "ids_wf pending_db" "ledger_committed pending_db"
  "distinct (map a_id (db_accounts pending_db))"
  by (simp_all add: pending_db_def example_defs ids_wf_def fresh_ids_def ledger_committed_def
      ledger_wf_def entry_valid_def has_journal_def has_account_def journal_balanced_def
      journal_entries_of_def num_valued_numeral)
    (simp add: num_valued_def num_fits_def)

subsection \<open>Properties\<close>

text \<open>C30. The reconciliation passes exactly when every confirmed journal balances and no journal
  that is not confirmed leaves a net amount on an account that a confirmed journal touches; the
  number of mismatches is the number of the accounts of the second kind.\<close>

theorem reconciliation_criterion:
  assumes "ids_wf d" "ledger_wf d" "distinct (map a_id (db_accounts d))"
  shows "(rr_status (run_reconciliation d) = ''pass'' \<longleftrightarrow>
      (\<forall>j. is_confirmed d j \<longrightarrow> journal_balanced d j) \<and>
      (\<forall>a. touched_by_confirmed d a \<longrightarrow> unconfirmed_net d a = 0)) \<and>
    rr_mismatches (run_reconciliation d) =
      card {a. touched_by_confirmed d a \<and> unconfirmed_net d a \<noteq> 0}"
  by (rule reconciliation_iff [OF assms])

theorem reconciliation_criterion_witness:
  "ledger_committed pending_db \<and> rr_status (run_reconciliation pending_db) \<noteq> ''pass''"
proof -
  have "touched_by_confirmed pending_db 4"
    by (simp add: touched_by_confirmed_def is_confirmed_def pending_db_def)
  moreover have "unconfirmed_net pending_db 4 \<noteq> 0"
    by (simp add: unconfirmed_net_def is_confirmed_def pending_db_def)
  ultimately show ?thesis
    using reconciliation_criterion [OF pending_db_ok(1) _ pending_db_ok(3)] pending_db_ok(2)
    by (auto simp: ledger_committed_def)
qed

end
