(* ===== verification/Margin.thy ===== *)
theory Margin
  imports Novation
begin

section \<open>The margin engine\<close>

text \<open>
  \<open>services/margin-engine/src/margin_engine/calculator.py\<close> and \<open>consumer.py\<close>, with the view
  \<open>member_positions\<close> of migration 005. The division of the view (a \<open>NUMERIC\<close> quotient of
  PostgreSQL) is the parameter \<open>pgdiv\<close>, \<open>datetime.now()\<close> and the configured minutes are
  arguments.
\<close>

subsection \<open>The two margins\<close>

definition calculate_initial_margin :: "rat \<Rightarrow> rat \<Rightarrow> rat \<Rightarrow> rat" where
  "calculate_initial_margin net_quantity latest rate = dmul (dmul (dabs net_quantity) latest) rate"

definition calculate_variation_margin :: "rat \<Rightarrow> rat \<Rightarrow> rat \<Rightarrow> rat" where
  "calculate_variation_margin net_quantity current previous = dmul (dsub current previous) net_quantity"

subsection \<open>Positions\<close>

record member_position =
  mp_member_id :: uuid
  mp_instrument_id :: uuid
  mp_long_quantity :: rat
  mp_short_quantity :: rat
  mp_net_quantity :: rat
  mp_avg_price :: "rat option"

definition position_of :: "(rat \<Rightarrow> rat \<Rightarrow> rat) \<Rightarrow> (uuid \<times> uuid) \<times> novated_row list \<Rightarrow> member_position" where
  "position_of pgdiv = (\<lambda>((m, i), legs).
     let qty = (\<Sum>l\<leftarrow>legs. n_quantity l) in
     \<lparr>mp_member_id = m, mp_instrument_id = i,
      mp_long_quantity = (\<Sum>l\<leftarrow>legs. if n_side l = ''BUY'' then n_quantity l else 0),
      mp_short_quantity = (\<Sum>l\<leftarrow>legs. if n_side l = ''SELL'' then n_quantity l else 0),
      mp_net_quantity = (\<Sum>l\<leftarrow>legs. if n_side l = ''BUY'' then n_quantity l else - n_quantity l),
      mp_avg_price = (if qty = 0 then None
         else Some (pgdiv (\<Sum>l\<leftarrow>legs. n_quantity l * n_price l) qty))\<rparr>)"

definition member_positions :: "(rat \<Rightarrow> rat \<Rightarrow> rat) \<Rightarrow> db \<Rightarrow> member_position list" where
  "member_positions pgdiv d = map (position_of pgdiv)
     (group_by (\<lambda>l. (n_member_id l, n_instrument_id l))
       (filter (\<lambda>l. n_status l = ''open'') (db_novated d)))"

record margin_position =
  mg_member_id :: uuid
  mg_instrument_id :: uuid
  mg_net_quantity :: rat
  mg_avg_price :: "rat option"
  mg_rate_im :: rat
  mg_rate_vm :: rat
  mg_latest_price :: "rat option"

text \<open>The query of \<open>recalculate_margins\<close>.\<close>

definition margin_positions :: "(rat \<Rightarrow> rat \<Rightarrow> rat) \<Rightarrow> db \<Rightarrow> margin_position list" where
  "margin_positions pgdiv d =
     [\<lparr>mg_member_id = mp_member_id p, mg_instrument_id = mp_instrument_id p,
       mg_net_quantity = mp_net_quantity p, mg_avg_price = mp_avg_price p,
       mg_rate_im = i_margin_rate_im i, mg_rate_vm = i_margin_rate_vm i,
       mg_latest_price = map_of (db_latest_prices d) (mp_instrument_id p)\<rparr>.
        p \<leftarrow> member_positions pgdiv d, mp_net_quantity p \<noteq> 0,
        i \<leftarrow> db_instruments d, i_id i = mp_instrument_id p]"

subsection \<open>Requirements\<close>

definition update_margin_requirement :: "uuid \<Rightarrow> uuid \<Rightarrow> string \<Rightarrow> rat \<Rightarrow> unit ccp" where
  "update_margin_requirement m i mtype required = upsert_requirement m i mtype required"

definition margin_account :: "uuid \<Rightarrow> string \<Rightarrow> string \<Rightarrow> db \<Rightarrow> uuid option" where
  "margin_account m ty pool d = map_option a_id (find_account m ty pool d)"

definition process_variation_margin :: "uuid \<Rightarrow> uuid \<Rightarrow> rat \<Rightarrow> unit ccp" where
  "process_variation_margin m i vm_amount =
     bind_tx (gets_tx (margin_account m ''MARGIN_VM'' ''AVAILABLE'')) (\<lambda>vm_available.
     bind_tx (gets_tx (margin_account m ''MARGIN_VM'' ''LOCKED'')) (\<lambda>vm_locked.
     case (vm_available, vm_locked) of
       (Some av, Some lo) \<Rightarrow>
         bind_tx (insert_journal ''VARIATION_MARGIN'' ''margin_requirement'' i ''confirmed'') (\<lambda>jid.
         let abs_amount = dabs vm_amount;
             accts = (if 0 < vm_amount then (av, lo) else (lo, av)) in
         bind_tx (post_pair jid (fst accts) (snd accts) abs_amount) (\<lambda>_.
         update_margin_requirement m i ''VARIATION'' abs_amount))
     | _ \<Rightarrow> return_tx ()))"

definition requirement_of :: "uuid \<Rightarrow> uuid \<Rightarrow> string \<Rightarrow> db \<Rightarrow> requirement_row option" where
  "requirement_of m i mtype d = fetchone (\<lambda>r. mr_member_id r = m \<and> mr_instrument_id r = i \<and>
     mr_margin_type r = mtype) (db_requirements d)"

definition check_shortfall :: "uuid \<Rightarrow> uuid \<Rightarrow> string \<Rightarrow> db \<Rightarrow> rat" where
  "check_shortfall m i mtype d =
     (case requirement_of m i mtype d of None \<Rightarrow> 0 | Some r \<Rightarrow> mr_shortfall r)"

subsection \<open>Margin calls\<close>

definition call_payload :: "uuid \<Rightarrow> uuid \<Rightarrow> uuid \<Rightarrow> rat \<Rightarrow> int \<Rightarrow> payload" where
  "call_payload cid m i shortfall deadline =
     [(''margin_call_id'', PId cid), (''member_id'', PId m), (''instrument_id'', PId i),
      (''call_amount'', PDec shortfall), (''deadline'', PTime deadline),
      (''margin_type'', PStr ''INITIAL'')]"

definition issue_margin_call ::
    "int \<Rightarrow> int \<Rightarrow> uuid \<Rightarrow> uuid \<Rightarrow> rat \<Rightarrow> trace_context \<Rightarrow> payload ccp" where
  "issue_margin_call now minutes m i shortfall tr =
     (let deadline = now + minutes * 60 in
      bind_tx (gets_tx (requirement_of m i ''INITIAL'')) (\<lambda>req.
      bind_tx (insert_call m (map_option mr_id req) shortfall deadline) (\<lambda>cid.
      bind_tx (service_transition ''margin-engine'' ''margin_call'' cid None ''issued''
         (Some (PStr ''Margin shortfall detected'')) tr) (\<lambda>_.
      bind_tx (insert_outbox_event ''margin_call'' cid ''margin.call.issued'' ''margin.call.issued''
         (call_payload cid m i shortfall deadline) (Some (tr_trace_id tr))) (\<lambda>_.
      return_tx (call_payload cid m i shortfall deadline))))))"

subsection \<open>Recalculation\<close>

text \<open>\<open>pos[6] or avg_price\<close>; arithmetic on a missing price is a \<open>TypeError\<close>.\<close>

definition mark_price :: "margin_position \<Rightarrow> rat option" where
  "mark_price p = (case mg_latest_price p of
       Some x \<Rightarrow> (if x = 0 then mg_avg_price p else Some x) | None \<Rightarrow> mg_avg_price p)"

definition need_price :: "rat option \<Rightarrow> rat ccp" where
  "need_price v = (case v of Some x \<Rightarrow> return_tx x | None \<Rightarrow> raise_tx (TypeError ''NoneType''))"

definition recalculate_position ::
    "int \<Rightarrow> int \<Rightarrow> trace_context \<Rightarrow> margin_position \<Rightarrow> payload list \<Rightarrow> payload list ccp" where
  "recalculate_position now minutes tr p calls =
     (let m = mg_member_id p; i = mg_instrument_id p in
      bind_tx (need_price (mark_price p)) (\<lambda>latest.
      bind_tx (update_margin_requirement m i ''INITIAL''
         (calculate_initial_margin (mg_net_quantity p) latest (mg_rate_im p))) (\<lambda>_.
      bind_tx (need_price (mg_avg_price p)) (\<lambda>avg.
      let vm_amount = calculate_variation_margin (mg_net_quantity p) latest avg in
      bind_tx (if vm_amount \<noteq> 0 then process_variation_margin m i vm_amount else return_tx ()) (\<lambda>_.
      bind_tx (gets_tx (check_shortfall m i ''INITIAL'')) (\<lambda>shortfall.
      if 0 < shortfall
      then bind_tx (issue_margin_call now minutes m i shortfall tr) (\<lambda>call. return_tx (calls @ [call]))
      else return_tx calls))))))"

definition recalculate_margins ::
    "(rat \<Rightarrow> rat \<Rightarrow> rat) \<Rightarrow> int \<Rightarrow> int \<Rightarrow> trace_context option \<Rightarrow> payload list ccp" where
  "recalculate_margins pgdiv now minutes trace =
     bind_tx (case trace of None \<Rightarrow> new_system ''margin-engine'' | Some t \<Rightarrow> return_tx t) (\<lambda>tr.
     bind_tx (gets_tx (margin_positions pgdiv)) (\<lambda>positions.
     fold_tx (recalculate_position now minutes tr) positions []))"

definition consume_margin_event :: "(rat \<Rightarrow> rat \<Rightarrow> rat) \<Rightarrow> int \<Rightarrow> int \<Rightarrow> payload \<Rightarrow> unit ccp" where
  "consume_margin_event pgdiv now minutes event =
     bind_tx (from_kafka_payload event) (\<lambda>tr.
     handle_once ''margin-engine'' (pget_id event ''event_id'')
       (bind_tx (recalculate_margins pgdiv now minutes (Some tr)) (\<lambda>_. return_tx ())))"

subsection \<open>Preservation\<close>

lemma ev_margin_parts [evolving]:
  "across evolves (update_margin_requirement m i mt x)"
  "across evolves (process_variation_margin m i x)"
  "across evolves (issue_margin_call now mins m i x tr)" "across evolves (need_price v)"
  unfolding update_margin_requirement_def process_variation_margin_def issue_margin_call_def
    need_price_def Let_def
  by (auto intro!: evolving split: option.split)

lemma ev_recalculate_position [evolving]: "across evolves (recalculate_position now mins tr p cs)"
  unfolding recalculate_position_def Let_def by (intro evolving)

lemma ev_recalculate_margins [evolving]: "across evolves (recalculate_margins pgdiv now mins tr)"
  unfolding recalculate_margins_def by (intro evolving)

lemma ev_consume_margin_event [evolving]:
  "across evolves (consume_margin_event pgdiv now mins event)"
  unfolding consume_margin_event_def by (intro evolving)

subsection \<open>What the operations do to the requirements\<close>

lemma fetchone_update_same:
  "(\<And>r. p (f r) = p r) \<Longrightarrow> fetchone p (update_where p f rows) = map_option f (fetchone p rows)"
  by (induction rows) (auto simp: fetchone_def update_where_def)

lemma fetchone_update_other:
  "(\<And>r. p r \<Longrightarrow> \<not> q r) \<Longrightarrow> (\<And>r. q (f r) = q r) \<Longrightarrow> fetchone q (update_where p f rows) = fetchone q rows"
  by (induction rows) (auto simp: fetchone_def update_where_def)

lemma upsert_requirement_of:
  assumes "upsert_requirement m i t x d = Inr (u, d')"
  shows "\<exists>r. requirement_of m i t d' = Some r \<and> mr_required_amount r = num_round x \<and>
       mr_posted_amount r = (case requirement_of m i t d of None \<Rightarrow> 0 | Some q \<Rightarrow> mr_posted_amount q)"
    and "(m', i', t') \<noteq> (m, i, t) \<Longrightarrow> requirement_of m' i' t' d' = requirement_of m' i' t' d"
proof -
  define same where "same = (\<lambda>r :: requirement_row. mr_member_id r = m \<and> mr_instrument_id r = i \<and> mr_margin_type r = t)"
  from assms obtain rid where d': "db_requirements d' =
      (if \<exists>r \<in> set (db_requirements d). same r
       then update_where same (mr_required_amount_update (\<lambda>_. num_round x)) (db_requirements d)
       else db_requirements d @ [\<lparr>mr_id = rid, mr_member_id = m, mr_instrument_id = i,
         mr_margin_type = t, mr_required_amount = num_round x, mr_posted_amount = 0\<rparr>])"
    by (auto simp: upsert_requirement_def fresh_uuid_def numeric_def check_vocab_def foreign_key_def
        tx_simps Let_def same_def split: if_splits)
  have none: "(\<exists>r \<in> set (db_requirements d). same r) \<longleftrightarrow> fetchone same (db_requirements d) \<noteq> None"
    by (auto simp: fetchone_None)
  show "\<exists>r. requirement_of m i t d' = Some r \<and> mr_required_amount r = num_round x \<and>
       mr_posted_amount r = (case requirement_of m i t d of None \<Rightarrow> 0 | Some q \<Rightarrow> mr_posted_amount q)"
    unfolding requirement_of_def same_def [symmetric] d' none
    by (auto simp: fetchone_update_same fetchone_append same_def)
  show "requirement_of m' i' t' d' = requirement_of m' i' t' d" if other: "(m', i', t') \<noteq> (m, i, t)"
  proof -
    let ?q = "\<lambda>r. mr_member_id r = m' \<and> mr_instrument_id r = i' \<and> mr_margin_type r = t'"
    have "fetchone ?q (update_where same (mr_required_amount_update (\<lambda>_. num_round x)) rows) =
        fetchone ?q rows" for rows
      using other by (intro fetchone_update_other) (auto simp: same_def)
    moreover have "fetchone ?q (rows @ [\<lparr>mr_id = rid, mr_member_id = m, mr_instrument_id = i,
         mr_margin_type = t, mr_required_amount = num_round x, mr_posted_amount = 0\<rparr>]) =
        fetchone ?q rows" for rows
      using other by (auto simp: fetchone_append split: option.split)
    ultimately show ?thesis unfolding requirement_of_def d' by simp
  qed
qed

lemma requirements_frame:
  "insert_journal jt rt rid st d = Inr (j, d') \<Longrightarrow> db_requirements d' = db_requirements d"
  "post_pair jid a b x d = Inr (u, d') \<Longrightarrow> db_requirements d' = db_requirements d"
  "issue_margin_call now mins m i x tr d = Inr (c, d') \<Longrightarrow> db_requirements d' = db_requirements d"
  by (auto simp: insert_journal_Inr post_pair_Inr issue_margin_call_def Let_def insert_call_def
      service_transition_def insert_transition_def insert_outbox_event_eq fresh_uuid_def numeric_def
      check_vocab_def foreign_key_def tx_simps split: if_splits)

text \<open>The margin already posted against an initial margin requirement.\<close>

definition posted_initial :: "db \<Rightarrow> uuid \<Rightarrow> uuid \<Rightarrow> rat" where
  "posted_initial d m i = (case requirement_of m i ''INITIAL'' d of None \<Rightarrow> 0 | Some r \<Rightarrow> mr_posted_amount r)"

lemma posted_upsert: "upsert_requirement m i t x d = Inr (u, d') \<Longrightarrow> posted_initial d' = posted_initial d"
proof (intro ext)
  fix m' i' assume up: "upsert_requirement m i t x d = Inr (u, d')"
  show "posted_initial d' m' i' = posted_initial d m' i'"
    using upsert_requirement_of [OF up] by (cases "(m', i', ''INITIAL'') = (m, i, t)") (auto simp: posted_initial_def)
qed

lemma process_vm_frame:
  assumes "process_variation_margin m i x d = Inr (u, d')"
  shows "posted_initial d' = posted_initial d \<and>
     requirement_of m' i' ''INITIAL'' d' = requirement_of m' i' ''INITIAL'' d"
proof (cases "margin_account m ''MARGIN_VM'' ''AVAILABLE'' d = None \<or> margin_account m ''MARGIN_VM'' ''LOCKED'' d = None")
  case True
  with assms show ?thesis
    by (auto simp: process_variation_margin_def tx_simps split: option.splits)
next
  case False
  with assms obtain j e f a b where
    1: "insert_journal ''VARIATION_MARGIN'' ''margin_requirement'' i ''confirmed'' d = Inr (j, e)"
      "post_pair j a b (dabs x) e = Inr ((), f)" and
    2: "upsert_requirement m i ''VARIATION'' (dabs x) f = Inr (u, d')"
    by (auto simp: process_variation_margin_def tx_simps Let_def update_margin_requirement_def)
  have "db_requirements f = db_requirements d" using 1 by (auto dest!: requirements_frame)
  then have "requirement_of m'' i'' t f = requirement_of m'' i'' t d" for m'' i'' t
    by (simp add: requirement_of_def)
  then show ?thesis
    using posted_upsert [OF 2] upsert_requirement_of(2) [OF 2, of m' i' "''INITIAL''"]
    by (auto simp: posted_initial_def fun_eq_iff)
qed

subsection \<open>The calls of a recalculation\<close>

definition initial_required :: "margin_position \<Rightarrow> rat" where
  "initial_required p = (case mark_price p of None \<Rightarrow> 0
     | Some x \<Rightarrow> num_round (calculate_initial_margin (mg_net_quantity p) x (mg_rate_im p)))"

definition initial_due :: "(uuid \<Rightarrow> uuid \<Rightarrow> rat) \<Rightarrow> margin_position \<Rightarrow> rat" where
  "initial_due posted p = max (initial_required p - posted (mg_member_id p) (mg_instrument_id p)) 0"

definition call_terms :: "payload \<Rightarrow> uuid option \<times> uuid option \<times> rat option" where
  "call_terms c = (pget_id c ''member_id'', pget_id c ''instrument_id'', pget_dec c ''call_amount'')"

definition due_terms :: "(uuid \<Rightarrow> uuid \<Rightarrow> rat) \<Rightarrow> margin_position \<Rightarrow> (uuid option \<times> uuid option \<times> rat option) list" where
  "due_terms posted p = (if 0 < initial_due posted p
     then [(Some (mg_member_id p), Some (mg_instrument_id p), Some (initial_due posted p))] else [])"

lemma issue_margin_call_terms:
  "issue_margin_call now mins m i x tr d = Inr (c, d') \<Longrightarrow> call_terms c = (Some m, Some i, Some x)"
  by (auto simp: issue_margin_call_def Let_def tx_simps call_payload_def call_terms_def pget_id_def
      pget_dec_def pget_def)

lemma recalculate_position_calls:
  assumes "recalculate_position now mins tr p cs d = Inr (cs', d')"
  shows "posted_initial d' = posted_initial d \<and>
     map call_terms cs' = map call_terms cs @ due_terms (posted_initial d) p"
proof -
  let ?m = "mg_member_id p" and ?i = "mg_instrument_id p"
  from assms obtain x avg d1 d2 where mark: "mark_price p = Some x" and
    1: "upsert_requirement ?m ?i ''INITIAL'' (calculate_initial_margin (mg_net_quantity p) x (mg_rate_im p)) d
      = Inr ((), d1)" and
    2: "(if calculate_variation_margin (mg_net_quantity p) x avg \<noteq> 0
         then process_variation_margin ?m ?i (calculate_variation_margin (mg_net_quantity p) x avg)
         else return_tx ()) d1 = Inr ((), d2)" and
    3: "(if 0 < check_shortfall ?m ?i ''INITIAL'' d2
         then bind_tx (issue_margin_call now mins ?m ?i (check_shortfall ?m ?i ''INITIAL'' d2) tr)
           (\<lambda>call. return_tx (cs @ [call])) else return_tx cs) d2 = Inr (cs', d')"
    by (auto simp: recalculate_position_def need_price_def tx_simps Let_def
        update_margin_requirement_def split: option.splits)
  have p2: "posted_initial d2 = posted_initial d1"
    and q2: "requirement_of ?m ?i ''INITIAL'' d2 = requirement_of ?m ?i ''INITIAL'' d1"
    using 2 process_vm_frame by (auto simp: tx_simps split: if_splits)
  obtain r where r: "requirement_of ?m ?i ''INITIAL'' d2 = Some r"
      "mr_required_amount r = initial_required p" "mr_posted_amount r = posted_initial d ?m ?i"
    using upsert_requirement_of(1) [OF 1] q2 mark by (auto simp: initial_required_def posted_initial_def)
  have short: "check_shortfall ?m ?i ''INITIAL'' d2 = initial_due (posted_initial d) p"
    by (simp add: check_shortfall_def r mr_shortfall_def initial_due_def)
  show ?thesis
  proof (cases "0 < initial_due (posted_initial d) p")
    case True
    with 3 short obtain c where c: "issue_margin_call now mins ?m ?i (initial_due (posted_initial d) p) tr d2
        = Inr (c, d')" "cs' = cs @ [c]" by (auto simp: tx_simps)
    have "posted_initial d' = posted_initial d2"
      using requirements_frame(3) [OF c(1)]
      by (intro ext) (simp add: posted_initial_def requirement_of_def)
    with c True p2 posted_upsert [OF 1] issue_margin_call_terms [OF c(1)] show ?thesis
      by (simp add: due_terms_def)
  next
    case False
    with 3 short p2 posted_upsert [OF 1] show ?thesis by (auto simp: due_terms_def tx_simps)
  qed
qed

lemma fold_recalculate_calls:
  "fold_tx (recalculate_position now mins tr) ps cs d = Inr (cs', d') \<Longrightarrow>
   map call_terms cs' = map call_terms cs @ concat (map (due_terms (posted_initial d)) ps)"
proof (induction ps arbitrary: cs d)
  case (Cons p ps)
  then obtain cs1 d1 where 1: "recalculate_position now mins tr p cs d = Inr (cs1, d1)"
    and 2: "fold_tx (recalculate_position now mins tr) ps cs1 d1 = Inr (cs', d')"
    by (auto simp: tx_simps)
  from recalculate_position_calls [OF 1] Cons.IH [OF 2] show ?case by simp
qed (simp add: tx_simps)

subsection \<open>Properties\<close>

text \<open>A buyer with one open leg and no posted margin.\<close>

definition margin_db :: db where
  "margin_db = example_db\<lparr>db_novated :=
     [\<lparr>n_id = 8, n_original_trade_id = 8, n_member_id = 2, n_instrument_id = 3, n_side = ''BUY'',
       n_quantity = 10, n_price = 100, n_status = ''open'', n_novated_at = 0\<rparr>]\<rparr>"

definition margin_example :: margin_position where
  "margin_example = \<lparr>mg_member_id = 2, mg_instrument_id = 3, mg_net_quantity = 10,
     mg_avg_price = Some 100, mg_rate_im = 1 / 10, mg_rate_vm = 1 / 20, mg_latest_price = None\<rparr>"

lemma margin_example_positions: "margin_positions (/) margin_db = [margin_example]"
  by (simp add: margin_positions_def member_positions_def position_of_def margin_db_def
      example_defs margin_example_def)

lemma margin_example_amounts:
  "calculate_initial_margin 10 100 (1 / 10) = 100" "calculate_variation_margin 10 100 100 = 0"
  by (simp_all add: calculate_initial_margin_def calculate_variation_margin_def dec_ops whole_eval)

lemma margin_example_run:
  "\<exists>calls d'. recalculate_margins (/) 0 60 (Some example_trace) margin_db = Inr (calls, d')"
proof -
  have fold: "recalculate_margins (/) 0 60 (Some example_trace) margin_db =
      fold_tx (recalculate_position 0 60 example_trace) [margin_example] [] margin_db"
    by (simp only: recalculate_margins_def bind_tx_def return_tx_def gets_tx_def
        margin_example_positions option.case sum.case prod.case)
  show ?thesis
    unfolding fold
    by (simp add: bind_tx_def return_tx_def gets_tx_def recalculate_position_def margin_example_def
        mark_price_def need_price_def Let_def margin_example_amounts update_margin_requirement_def
        upsert_requirement_def fresh_uuid_def numeric_def check_vocab_def foreign_key_def guard_tx_def
        modify_tx_def check_shortfall_def requirement_of_def mr_shortfall_def issue_margin_call_def
        insert_call_def service_transition_def insert_transition_def insert_outbox_event_eq has_defs
        margin_db_def example_defs schema_defs whole_eval num_fits_def)
qed

text \<open>C26. A recalculation calls exactly the shortfalls: for each open position whose initial
  margin (position times mark times rate, in the column's precision) exceeds what its member
  has posted, there is one call, for the difference, in the order of the positions.\<close>

theorem recalculation_calls:
  assumes "recalculate_margins pgdiv now minutes (Some tr) d = Inr (calls, d')"
  shows "map call_terms calls =
     concat (map (due_terms (posted_initial d)) (margin_positions pgdiv d))"
  using assms fold_recalculate_calls by (fastforce simp: recalculate_margins_def tx_simps)

theorem recalculation_calls_witness:
  "\<exists>calls d'. recalculate_margins (/) 0 60 (Some example_trace) margin_db = Inr (calls, d') \<and>
     map call_terms calls = [(Some 2, Some 3, Some 100)]"
proof -
  obtain calls d' where run: "recalculate_margins (/) 0 60 (Some example_trace) margin_db = Inr (calls, d')"
    using margin_example_run by blast
  have "posted_initial margin_db 2 3 = 0"
    by (simp add: posted_initial_def requirement_of_def margin_db_def example_defs)
  then have "due_terms (posted_initial margin_db) margin_example = [(Some 2, Some 3, Some 100)]"
    by (simp add: due_terms_def initial_due_def initial_required_def mark_price_def margin_example_def
        margin_example_amounts whole_eval)
  with recalculation_calls [OF run] run show ?thesis by (simp add: margin_example_positions)
qed

text \<open>Initial margin is never negative and grows with the size of the position, whichever side
  it is on.\<close>

theorem initial_margin_monotone:
  assumes "\<bar>q\<bar> \<le> \<bar>q'\<bar>" "0 \<le> price" "0 \<le> rate"
  shows "0 \<le> calculate_initial_margin q price rate \<and>
     calculate_initial_margin q price rate \<le> calculate_initial_margin q' price rate \<and>
     calculate_initial_margin (- q) price rate = calculate_initial_margin q price rate"
proof -
  have "dabs q \<le> dabs q'" unfolding dabs_def using assms(1) by (intro dec_round_mono)
  then have "dmul (dabs q) price \<le> dmul (dabs q') price"
    unfolding dmul_def using assms(2) by (intro dec_round_mono mult_right_mono)
  then have "dmul (dmul (dabs q) price) rate \<le> dmul (dmul (dabs q') price) rate"
    unfolding dmul_def [of "dmul _ _"] using assms(3) by (intro dec_round_mono mult_right_mono)
  moreover have "0 \<le> dmul (dmul (dabs q) price) rate"
    using assms by (intro dmul_nonneg dabs_nonneg)
  ultimately show ?thesis by (simp add: calculate_initial_margin_def dabs_def)
qed

theorem initial_margin_monotone_witness:
  "0 \<le> calculate_initial_margin (- 3) 100 (1 / 10) \<and>
   calculate_initial_margin (- 3) 100 (1 / 10) \<le> calculate_initial_margin 10 100 (1 / 10)"
  using initial_margin_monotone [of "- 3" 10 100 "1 / 10"] by simp

text \<open>Variation margin is zero-sum: at the same current and previous mark, what the long side
  is charged is exactly what the short side is credited, rounding included.\<close>

theorem variation_margin_zero_sum:
  "calculate_variation_margin q current previous + calculate_variation_margin (- q) current previous = 0"
  by (simp add: calculate_variation_margin_def dmul_def dec_round_minus)

lemma recalculate_position_vm:
  assumes "recalculate_position now mins tr p cs d = Inr (cs', d')" "mark_price p = Some x"
    "mg_avg_price p = Some a" "calculate_variation_margin (mg_net_quantity p) x a \<noteq> 0"
    "margin_account (mg_member_id p) ''MARGIN_VM'' ''AVAILABLE'' d = Some av"
    "margin_account (mg_member_id p) ''MARGIN_VM'' ''LOCKED'' d = Some lo"
  shows "''VARIATION_MARGIN'' \<in> set (chk_journal_type (db_schema d))"
proof -
  let ?m = "mg_member_id p" and ?i = "mg_instrument_id p"
  from assms(1-4) obtain d1 d2 where
    1: "update_margin_requirement ?m ?i ''INITIAL''
         (calculate_initial_margin (mg_net_quantity p) x (mg_rate_im p)) d = Inr ((), d1)" and
    2: "process_variation_margin ?m ?i (calculate_variation_margin (mg_net_quantity p) x a) d1 = Inr ((), d2)"
    by (auto simp: recalculate_position_def need_price_def tx_simps Let_def)
  have ev: "evolves d d1" by (rule acrossD [OF ev_margin_parts(1) 1])
  then have "margin_account ?m ''MARGIN_VM'' pool d1 = margin_account ?m ''MARGIN_VM'' pool d" for pool
    by (simp add: margin_account_def find_account_def evolves_def)
  with 2 assms(5,6) have "''VARIATION_MARGIN'' \<in> set (chk_journal_type (db_schema d1))"
    by (auto simp: process_variation_margin_def tx_simps insert_journal_Inr)
  with ev show ?thesis by (simp add: evolves_def)
qed

lemma fold_recalculate_member:
  "fold_tx (recalculate_position now mins tr) ps cs d = Inr (r, d') \<Longrightarrow> p \<in> set ps \<Longrightarrow>
   \<exists>cs1 e cs2 e'. evolves d e \<and> recalculate_position now mins tr p cs1 e = Inr (cs2, e')"
proof (induction ps arbitrary: cs d)
  case (Cons q ps)
  then obtain cs1 d1 where 1: "recalculate_position now mins tr q cs d = Inr (cs1, d1)"
    and 2: "fold_tx (recalculate_position now mins tr) ps cs1 d1 = Inr (r, d')"
    by (auto simp: tx_simps)
  show ?case
  proof (cases "p = q")
    case True
    with 1 show ?thesis using ev.refl by blast
  next
    case False
    with Cons.IH [OF 2] Cons.prems(2) acrossD [OF ev_recalculate_position 1] ev.trans
    show ?thesis by (metis set_ConsD)
  qed
qed simp

text \<open>On the migrated schema no variation margin can be posted: the journal type is not in the
  vocabulary of migration 004, so one position that has moved from its average price, with the
  accounts in place, makes the whole recalculation raise.\<close>

theorem variation_margin_refused:
  assumes "db_schema d = migrated_schema" "p \<in> set (margin_positions pgdiv d)"
    and "mark_price p = Some x" "mg_avg_price p = Some a"
    and "calculate_variation_margin (mg_net_quantity p) x a \<noteq> 0"
    and "margin_account (mg_member_id p) ''MARGIN_VM'' ''AVAILABLE'' d = Some av"
    and "margin_account (mg_member_id p) ''MARGIN_VM'' ''LOCKED'' d = Some lo"
  shows "\<exists>e. recalculate_margins pgdiv now minutes (Some tr) d = Inl e"
proof (cases "recalculate_margins pgdiv now minutes (Some tr) d")
  case (Inr r)
  then obtain cs d' where "fold_tx (recalculate_position now minutes tr) (margin_positions pgdiv d) [] d = Inr (cs, d')"
    by (cases r) (auto simp: recalculate_margins_def tx_simps)
  from fold_recalculate_member [OF this assms(2)] obtain cs1 e cs2 e' where
    ev: "evolves d e" and run: "recalculate_position now minutes tr p cs1 e = Inr (cs2, e')" by blast
  from ev have same: "margin_account m ty pool e = margin_account m ty pool d"
    "db_schema e = db_schema d" for m ty pool
    by (simp_all add: margin_account_def find_account_def evolves_def)
  have "''VARIATION_MARGIN'' \<in> set (chk_journal_type (db_schema d))"
    using recalculate_position_vm [OF run assms(3-5)] assms(6,7) unfolding same by blast
  then show ?thesis using assms(1) by (simp add: schema_defs)
qed simp

theorem variation_margin_refused_witness:
  "\<exists>e. recalculate_margins (/) 0 60 (Some example_trace)
     (margin_db\<lparr>db_latest_prices := [(3, 110)],
        db_accounts := [\<lparr>a_id = 4, a_member_id = 2, a_account_type = ''MARGIN_VM'', a_currency = ''USD'',
            a_pool = ''AVAILABLE''\<rparr>,
          \<lparr>a_id = 5, a_member_id = 2, a_account_type = ''MARGIN_VM'', a_currency = ''USD'',
            a_pool = ''LOCKED''\<rparr>]\<rparr>) = Inl e"
    (is "\<exists>e. recalculate_margins _ _ _ _ ?d = _")
proof -
  have "margin_positions (/) ?d = [margin_example\<lparr>mg_latest_price := Some 110\<rparr>]"
    by (simp add: margin_positions_def member_positions_def position_of_def margin_db_def
        example_defs margin_example_def)
  moreover have "calculate_variation_margin 10 110 100 = 100"
    by (simp add: calculate_variation_margin_def dec_ops whole_eval)
  ultimately show ?thesis
    by (intro variation_margin_refused [where p = "margin_example\<lparr>mg_latest_price := Some 110\<rparr>"
          and x = 110 and a = 100 and av = 4 and lo = 5])
      (simp_all add: margin_example_def mark_price_def margin_account_def find_account_def,
       simp add: margin_db_def example_defs)
qed

end
