(* ===== verification/Gateway.thy ===== *)
theory Gateway
  imports Reconcile Margin "HOL-Library.List_Lexorder" "HOL-Library.Char_ord"
begin

section \<open>The API gateway\<close>

text \<open>
  \<open>ccp_shared/auth.py\<close> and \<open>services/api-gateway/src/api_gateway\<close>: \<open>dependencies.py\<close> (roles),
  \<open>schemas.py\<close> and the endpoints of \<open>main.py\<close>. A request is its headers, with lower-case names,
  and its parsed body. An endpoint is a transaction whose exception is the answer: an
  \<open>HTTPException\<close> with its code, any other exception being answered with 500 by the framework.
  The connection is closed after the request, which rolls back what was not committed.
\<close>

subsection \<open>Roles and permissions\<close>

datatype Role = ADMIN | OPERATOR | SYSTEM | SIGNER | VIEWER

fun Role_value :: "Role \<Rightarrow> string" where
  "Role_value ADMIN = ''admin''"
| "Role_value OPERATOR = ''operator''"
| "Role_value SYSTEM = ''system''"
| "Role_value SIGNER = ''signer''"
| "Role_value VIEWER = ''viewer''"

definition Role_members :: "Role list" where
  "Role_members = [ADMIN, OPERATOR, SYSTEM, SIGNER, VIEWER]"

fun role_permissions :: "Role \<Rightarrow> string list" where
  "role_permissions ADMIN =
     [''trade.submit'', ''trade.read'', ''member.read'', ''member.manage'', ''withdrawal.approve'',
      ''netting.trigger'', ''reconcile.run'', ''dlq.read'']"
| "role_permissions OPERATOR = [''trade.submit'', ''trade.read'', ''member.read'', ''netting.trigger'']"
| "role_permissions SYSTEM = [''event.publish'', ''state.transition'', ''settlement.execute'']"
| "role_permissions SIGNER = [''sign.transaction'']"
| "role_permissions VIEWER = [''trade.read'', ''member.read'']"

definition resolve_role :: "(string \<times> string) list \<Rightarrow> string \<Rightarrow> Role option" where
  "resolve_role api_keys key =
     (case map_of api_keys key of None \<Rightarrow> None | Some name \<Rightarrow> enum_of Role_value Role_members name)"

definition has_permission :: "Role \<Rightarrow> string \<Rightarrow> bool" where
  "has_permission role permission \<longleftrightarrow> permission \<in> set (role_permissions role)"

text \<open>\<open>get_current_role\<close>, on the parsed \<open>API_KEYS\<close> of the settings.\<close>

definition get_current_role :: "(string \<times> string) list \<Rightarrow> payload \<Rightarrow> exn + Role" where
  "get_current_role api_keys headers =
     (let auth_header = (case pget_str headers ''authorization'' of Some h \<Rightarrow> h | None \<Rightarrow> []) in
      if take 7 auth_header \<noteq> ''Bearer '' then Inl (HTTPException 401)
      else if api_keys = [] then Inr ADMIN
      else (case resolve_role api_keys (drop 7 auth_header) of
          None \<Rightarrow> Inl (HTTPException 401) | Some role \<Rightarrow> Inr role))"

definition require_permission :: "(string \<times> string) list \<Rightarrow> string \<Rightarrow> payload \<Rightarrow> Role ccp" where
  "require_permission api_keys permission headers =
     bind_tx (lift_tx (get_current_role api_keys headers)) (\<lambda>role.
     bind_tx (guard_tx (has_permission role permission) (HTTPException 403)) (\<lambda>_.
     return_tx role))"

subsection \<open>Submitting a trade\<close>

record trade_submit_request =
  rq_external_trade_id :: string
  rq_instrument_id :: uuid
  rq_buyer_member_id :: uuid
  rq_seller_member_id :: uuid
  rq_quantity :: rat
  rq_price :: rat

text \<open>\<open>trace_middleware\<close>; the column of a trace id is a \<open>UUID\<close>, so the header is one.\<close>

definition trace_middleware :: "payload \<Rightarrow> trace_context ccp" where
  "trace_middleware headers =
     bind_tx fresh_uuid (\<lambda>u. return_tx
       \<lparr>tr_trace_id = (case pget_id headers ''x-trace-id'' of Some t \<Rightarrow> t | None \<Rightarrow> u),
        tr_actor = ''api-gateway:'' @
          (case pget_str headers ''x-actor'' of Some a \<Rightarrow> a | None \<Rightarrow> ''anonymous''),
        tr_parent_event_id = None\<rparr>)"

text \<open>
  The key of the request: none when the header is missing or empty. \<open>processed_events.event_id\<close>
  is a \<open>UUID\<close>, other text is refused by the server.
\<close>

definition idempotency_key :: "payload \<Rightarrow> uuid option ccp" where
  "idempotency_key headers =
     (case pget headers ''idempotency-key'' of
        None \<Rightarrow> return_tx None
      | Some (PId k) \<Rightarrow> return_tx (Some k)
      | Some v \<Rightarrow> if v = PStr [] then return_tx None
          else raise_tx (ExternalError ''invalid input syntax for type uuid''))"

definition check_idempotency :: "uuid \<Rightarrow> db \<Rightarrow> trade_row option" where
  "check_idempotency key d =
     (case fetchone (\<lambda>r. pe_service_name r = ''api-gateway'' \<and> pe_event_id r = key) (db_processed d) of
        None \<Rightarrow> None
      | Some r \<Rightarrow> (case pe_reference_id r of
          None \<Rightarrow> None | Some tid \<Rightarrow> fetchone (\<lambda>t. t_id t = tid) (db_trades d)))"

definition mark_idempotent :: "uuid \<Rightarrow> uuid \<Rightarrow> unit ccp" where
  "mark_idempotent key tid =
     bind_tx (insert_processed ''api-gateway'' key (Some tid)) (\<lambda>_. return_tx ())"

definition insert_submitted_trade :: "trade_submit_request \<Rightarrow> trade_row ccp" where
  "insert_submitted_trade rq =
     insert_trade (rq_external_trade_id rq) (rq_instrument_id rq) (rq_buyer_member_id rq)
       (rq_seller_member_id rq) (rq_quantity rq) (rq_price rq) ''submitted''"

definition trade_event_payload :: "trade_row \<Rightarrow> trace_context \<Rightarrow> payload" where
  "trade_event_payload row trace =
     [(''trade_id'', PId (t_id row)), (''external_trade_id'', PStr (t_external_trade_id row)),
      (''instrument_id'', PId (t_instrument_id row)),
      (''buyer_member_id'', PId (t_buyer_member_id row)),
      (''seller_member_id'', PId (t_seller_member_id row)),
      (''quantity'', PDec (t_quantity row)), (''price'', PDec (t_price row)),
      (''actor'', PStr (tr_actor trace))]"

definition insert_trade_outbox_event :: "trade_row \<Rightarrow> trace_context \<Rightarrow> unit ccp" where
  "insert_trade_outbox_event row trace =
     bind_tx (insert_outbox_event ''trade'' (t_id row) ''trade.submitted'' ''trades.submitted''
        (trade_event_payload row trace) (Some (tr_trace_id trace))) (\<lambda>_. return_tx ())"

definition submit_errors :: "exn \<Rightarrow> exn" where
  "submit_errors e = (case e of ForeignKeyViolation _ \<Rightarrow> HTTPException 422
     | UniqueViolation _ \<Rightarrow> HTTPException 409 | _ \<Rightarrow> e)"

definition submit_new_trade :: "uuid option \<Rightarrow> trade_submit_request \<Rightarrow> trace_context \<Rightarrow> trade_row ccp" where
  "submit_new_trade key rq trace =
     catch_tx
       (bind_tx (insert_submitted_trade rq) (\<lambda>row.
        bind_tx (insert_trade_outbox_event row trace) (\<lambda>_.
        bind_tx (case key of None \<Rightarrow> return_tx () | Some k \<Rightarrow> mark_idempotent k (t_id row)) (\<lambda>_.
        bind_tx commit (\<lambda>_. return_tx row)))))
       (\<lambda>e. raise_tx (submit_errors e))"

definition submit_trade ::
    "(string \<times> string) list \<Rightarrow> payload \<Rightarrow> trade_submit_request \<Rightarrow> trade_row ccp" where
  "submit_trade api_keys headers rq =
     bind_tx (trace_middleware headers) (\<lambda>trace.
     bind_tx (require_permission api_keys ''trade.submit'' headers) (\<lambda>_.
     bind_tx (idempotency_key headers) (\<lambda>key.
     bind_tx (gets_tx (\<lambda>d. case key of None \<Rightarrow> None | Some k \<Rightarrow> check_idempotency k d)) (\<lambda>existing.
     case existing of
       Some t \<Rightarrow> return_tx t
     | None \<Rightarrow> submit_new_trade key rq trace))))"

subsection \<open>The read endpoints\<close>

definition get_trade :: "(string \<times> string) list \<Rightarrow> payload \<Rightarrow> uuid \<Rightarrow> trade_row ccp" where
  "get_trade api_keys headers tid =
     bind_tx (require_permission api_keys ''trade.read'' headers) (\<lambda>_.
     bind_tx (gets_tx (\<lambda>d. fetchone (\<lambda>t. t_id t = tid) (db_trades d))) (\<lambda>row.
     case row of None \<Rightarrow> raise_tx (HTTPException 404) | Some t \<Rightarrow> return_tx t))"

text \<open>\<open>ORDER BY name\<close>, by the code points of the text.\<close>

definition list_members :: "(string \<times> string) list \<Rightarrow> payload \<Rightarrow> member_row list ccp" where
  "list_members api_keys headers =
     bind_tx (require_permission api_keys ''member.read'' headers) (\<lambda>_.
     gets_tx (\<lambda>d. sort_key m_name (filter (\<lambda>m. m_status m = ''active'') (db_members d))))"

text \<open>\<open>GET /admin/dlq\<close>: never more than 200 rows.\<close>

definition list_dead_letter_events ::
    "(string \<times> string) list \<Rightarrow> payload \<Rightarrow> int \<Rightarrow> dead_letter_row list ccp" where
  "list_dead_letter_events api_keys headers limit =
     bind_tx (require_permission api_keys ''dlq.read'' headers) (\<lambda>_.
     select_limit (min limit 200) (\<lambda>d. order_desc dl_created_at (db_dead_letters d)))"

definition get_member_positions ::
    "(rat \<Rightarrow> rat \<Rightarrow> rat) \<Rightarrow> (string \<times> string) list \<Rightarrow> payload \<Rightarrow> uuid \<Rightarrow> member_position list ccp" where
  "get_member_positions pgdiv api_keys headers m =
     bind_tx (require_permission api_keys ''member.read'' headers) (\<lambda>_.
     gets_tx (\<lambda>d. filter (\<lambda>p. mp_member_id p = m) (member_positions pgdiv d)))"

definition get_member_accounts ::
    "(string \<times> string) list \<Rightarrow> payload \<Rightarrow> uuid \<Rightarrow> (account_row \<times> rat) list ccp" where
  "get_member_accounts api_keys headers m =
     bind_tx (require_permission api_keys ''member.read'' headers) (\<lambda>_.
     gets_tx (\<lambda>d. map (\<lambda>a. (a, acct_balance d (a_id a)))
       (filter (\<lambda>a. a_member_id a = m) (db_accounts d))))"

subsection \<open>The gateway's own reconciliation\<close>

definition gateway_global_balance :: "db \<Rightarrow> bool" where
  "gateway_global_balance d =
     (let es = confirmed_entries d in
      if es = [] then True else (\<Sum>e\<leftarrow>es. je_debit e) = (\<Sum>e\<leftarrow>es. je_credit e))"

definition gateway_journal_integrity :: "db \<Rightarrow> bool" where
  "gateway_journal_integrity d =
     (length (filter (\<lambda>(j, es). (\<Sum>e\<leftarrow>es. je_debit e) \<noteq> (\<Sum>e\<leftarrow>es. je_credit e))
        (group_by je_journal_id (confirmed_entries d))) = 0)"

definition gateway_reconcile_row ::
    "(uuid \<rightharpoonup> rat) \<Rightarrow> account_result list \<times> nat \<Rightarrow> uuid \<times> rat \<Rightarrow> account_result list \<times> nat" where
  "gateway_reconcile_row actuals = (\<lambda>(details, mismatches) (a, expected).
     let actual = (case actuals a of None \<Rightarrow> 0 | Some x \<Rightarrow> x);
         diff = dsub expected actual;
         status = (if diff = 0 then ''ok'' else ''mismatch'');
         mismatches' = (if diff \<noteq> 0 then mismatches + 1 else mismatches) in
     (details @ [\<lparr>ar_account_id = a, ar_expected_balance = expected, ar_actual_balance = actual,
        ar_difference = diff, ar_status = status\<rparr>], mismatches'))"

definition gateway_reconciliation ::
    "(string \<times> string) list \<Rightarrow> payload \<Rightarrow> reconciliation_report ccp" where
  "gateway_reconciliation api_keys headers =
     bind_tx (require_permission api_keys ''reconcile.run'' headers) (\<lambda>_.
     gets_tx (\<lambda>d.
       let global_ok = gateway_global_balance d;
           journal_ok = gateway_journal_integrity d;
           recomputed = recomputed_rows d;
           (details, mismatches) = foldl (gateway_reconcile_row (actual_balances d)) ([], 0) recomputed in
       \<lparr>rr_status = (if mismatches = 0 \<and> global_ok \<and> journal_ok then ''pass'' else ''fail''),
        rr_global_balance_ok = global_ok, rr_journal_integrity_ok = journal_ok,
        rr_accounts_checked = length recomputed, rr_mismatches = mismatches,
        rr_details = details\<rparr>))"

subsection \<open>Preservation\<close>

lemma ev_gateway [evolving]:
  "across evolves (trace_middleware h)" "across evolves (require_permission keys p h)"
  "across evolves (idempotency_key h)" "across evolves (mark_idempotent k t)"
  "across evolves (insert_submitted_trade rq)" "across evolves (insert_trade_outbox_event row tr)"
  unfolding trace_middleware_def require_permission_def idempotency_key_def mark_idempotent_def
    insert_submitted_trade_def insert_trade_outbox_event_def
  by (auto intro!: evolving split: option.split pval.split)

lemma ev_submit_trade [evolving]: "across evolves (submit_trade keys h rq)"
  unfolding submit_trade_def submit_new_trade_def by (auto intro!: evolving split: option.split)

subsection \<open>Submitting in closed form\<close>

lemma middleware_run:
  "trace_middleware h d = Inr (tr, d1) \<longleftrightarrow> d1 = d\<lparr>db_next_uuid := Suc (db_next_uuid d)\<rparr> \<and>
     tr = \<lparr>tr_trace_id = (case pget_id h ''x-trace-id'' of Some t \<Rightarrow> t | None \<Rightarrow> db_next_uuid d),
       tr_actor = ''api-gateway:'' @ (case pget_str h ''x-actor'' of Some a \<Rightarrow> a | None \<Rightarrow> ''anonymous''),
       tr_parent_event_id = None\<rparr>"
  by (auto simp: trace_middleware_def fresh_uuid_def run_simps)

definition may :: "(string \<times> string) list \<Rightarrow> payload \<Rightarrow> string \<Rightarrow> bool" where
  "may keys h p \<longleftrightarrow> (\<exists>role. get_current_role keys h = Inr role \<and> has_permission role p)"

lemma require_permission_may:
  "may keys h p \<Longrightarrow> \<exists>role. require_permission keys p h = return_tx role"
  "\<not> may keys h p \<Longrightarrow> \<exists>c. (c = 401 \<or> c = 403) \<and> require_permission keys p h = raise_tx (HTTPException c)"
proof -
  show "may keys h p \<Longrightarrow> \<exists>role. require_permission keys p h = return_tx role"
    by (auto simp: may_def require_permission_def run_simps)
  assume no: "\<not> may keys h p"
  show "\<exists>c. (c = 401 \<or> c = 403) \<and> require_permission keys p h = raise_tx (HTTPException c)"
  proof (cases "get_current_role keys h")
    case (Inl e)
    then have "e = HTTPException 401"
      by (auto simp: get_current_role_def Let_def split: if_splits option.splits)
    with Inl show ?thesis by (auto simp: require_permission_def run_simps)
  next
    case (Inr role)
    with no show ?thesis by (auto simp: may_def require_permission_def run_simps)
  qed
qed

text \<open>The state after a request was accepted.\<close>

definition submitted_row :: "trade_submit_request \<Rightarrow> db \<Rightarrow> trade_row" where
  "submitted_row rq d = \<lparr>t_id = Suc (db_next_uuid d), t_external_trade_id = rq_external_trade_id rq,
     t_instrument_id = rq_instrument_id rq, t_buyer_member_id = rq_buyer_member_id rq,
     t_seller_member_id = rq_seller_member_id rq, t_quantity = num_round (rq_quantity rq),
     t_price = num_round (rq_price rq), t_status = ''submitted'', t_submitted_at = db_now d\<rparr>"

definition submitted_event :: "trade_row \<Rightarrow> trace_context \<Rightarrow> uuid \<Rightarrow> int \<Rightarrow> outbox_row" where
  "submitted_event row tr u now = \<lparr>ob_id = Suc u, ob_aggregate_type = ''trade'',
     ob_aggregate_id = t_id row, ob_event_type = ''trade.submitted'', ob_topic = ''trades.submitted'',
     ob_payload = outbox_payload (trade_event_payload row tr) u (Some (tr_trace_id tr)),
     ob_trace_id = Some (tr_trace_id tr), ob_created_at = now, ob_published_at = None\<rparr>"

definition submitted_db :: "trade_submit_request \<Rightarrow> trace_context \<Rightarrow> uuid option \<Rightarrow> db \<Rightarrow> db" where
  "submitted_db rq tr key d = d\<lparr>
     db_trades := db_trades d @ [submitted_row rq d],
     db_outbox := db_outbox d @
       [submitted_event (submitted_row rq d) tr (db_next_uuid d + 2) (db_now d)],
     db_processed := db_processed d @ (case key of None \<Rightarrow> []
       | Some k \<Rightarrow> [\<lparr>pe_service_name = ''api-gateway'', pe_event_id = k,
           pe_reference_id = Some (t_id (submitted_row rq d))\<rparr>]),
     db_next_uuid := db_next_uuid d + 4\<rparr>"

definition acceptable :: "trade_submit_request \<Rightarrow> db \<Rightarrow> bool" where
  "acceptable rq d \<longleftrightarrow> num_fits (num_round (rq_quantity rq)) \<and> num_fits (num_round (rq_price rq)) \<and>
     ''submitted'' \<in> set (chk_trade_status (db_schema d)) \<and>
     (\<forall>r \<in> set (db_trades d). t_external_trade_id r \<noteq> rq_external_trade_id rq) \<and>
     has_instrument (rq_instrument_id rq) d \<and> has_member (rq_buyer_member_id rq) d \<and>
     has_member (rq_seller_member_id rq) d"

definition key_free :: "uuid option \<Rightarrow> db \<Rightarrow> bool" where
  "key_free key d \<longleftrightarrow> (\<forall>k. key = Some k \<longrightarrow> \<not> processed ''api-gateway'' k d)"

lemma insert_submitted_trade_run:
  "acceptable rq d \<Longrightarrow> insert_submitted_trade rq (d\<lparr>db_next_uuid := Suc (db_next_uuid d)\<rparr>) =
     Inr (submitted_row rq d, d\<lparr>db_next_uuid := db_next_uuid d + 2,
       db_trades := db_trades d @ [submitted_row rq d]\<rparr>)"
  by (simp add: insert_submitted_trade_def insert_trade_def acceptable_def fresh_uuid_def numeric_def
      check_vocab_def foreign_key_def has_defs submitted_row_def Let_def run_simps)

lemma insert_submitted_trade_refused:
  "\<not> acceptable rq d \<Longrightarrow> \<exists>e. insert_submitted_trade rq (d\<lparr>db_next_uuid := Suc (db_next_uuid d)\<rparr>) = Inl e"
  by (auto simp: insert_submitted_trade_def insert_trade_def acceptable_def fresh_uuid_def numeric_def
      check_vocab_def foreign_key_def has_defs Let_def run_simps)

lemma submit_new_trade_run:
  assumes "acceptable rq d" "key_free key d" "db_deferred d = []"
  shows "submit_new_trade key rq tr (d\<lparr>db_next_uuid := Suc (db_next_uuid d)\<rparr>) =
    Inr (submitted_row rq d, submitted_db rq tr key d)"
proof -
  let ?u = "db_next_uuid d + 2"
  let ?d2 = "d\<lparr>db_next_uuid := ?u, db_trades := db_trades d @ [submitted_row rq d]\<rparr>"
  let ?d3 = "?d2\<lparr>db_next_uuid := db_next_uuid d + 4, db_outbox := db_outbox d @
     [submitted_event (submitted_row rq d) tr ?u (db_now d)]\<rparr>"
  have outbox: "insert_trade_outbox_event (submitted_row rq d) tr ?d2 = Inr ((), ?d3)"
    by (simp add: insert_trade_outbox_event_def insert_outbox_event_eq submitted_event_def run_simps)
  have mark: "(case key of None \<Rightarrow> return_tx () | Some k \<Rightarrow> mark_idempotent k (t_id (submitted_row rq d))) ?d3 =
      Inr ((), submitted_db rq tr key d)"
    using assms(2)
    by (auto simp: mark_idempotent_def insert_processed_def key_free_def processed_def submitted_db_def
        run_simps split: option.split)
  have "commit (submitted_db rq tr key d) = Inr ((), submitted_db rq tr key d)"
    using assms(3) by (simp add: commit_Inr submitted_db_def)
  with insert_submitted_trade_run [OF assms(1)] outbox mark show ?thesis
    by (simp add: submit_new_trade_def catch_tx_def bind_tx_def return_tx_def)
qed

lemma idempotency_key_some:
  "pget h ''idempotency-key'' = Some (PId k) \<Longrightarrow> idempotency_key h = return_tx (Some k)"
  "pget h ''idempotency-key'' = None \<Longrightarrow> idempotency_key h = return_tx None"
  by (simp_all add: idempotency_key_def)

lemma key_free_check: "key_free (Some k) d \<Longrightarrow> check_idempotency k d = None"
  by (auto simp: key_free_def check_idempotency_def processed_def fetchone_None
      dest: fetchone_Some split: option.split)

lemma check_idempotency_frame [simp]:
  "check_idempotency k (d\<lparr>db_next_uuid := n\<rparr>) = check_idempotency k d"
  by (simp add: check_idempotency_def split: option.split)

definition request_trace :: "payload \<Rightarrow> db \<Rightarrow> trace_context" where
  "request_trace h d = \<lparr>tr_trace_id = (case pget_id h ''x-trace-id'' of Some t \<Rightarrow> t | None \<Rightarrow> db_next_uuid d),
     tr_actor = ''api-gateway:'' @ (case pget_str h ''x-actor'' of Some a \<Rightarrow> a | None \<Rightarrow> ''anonymous''),
     tr_parent_event_id = None\<rparr>"

lemma submit_trade_accepts:
  assumes "may keys h ''trade.submit''" "idempotency_key h = return_tx key" "acceptable rq d"
    "key_free key d" "db_deferred d = []"
  shows "submit_trade keys h rq d = Inr (submitted_row rq d, submitted_db rq (request_trace h d) key d)"
proof -
  let ?d1 = "d\<lparr>db_next_uuid := Suc (db_next_uuid d)\<rparr>"
  obtain role where role: "require_permission keys ''trade.submit'' h = return_tx role"
    using require_permission_may(1) [OF assms(1)] by blast
  have "trace_middleware h d = Inr (request_trace h d, ?d1)"
    by (simp add: middleware_run request_trace_def)
  moreover have "(case key of None \<Rightarrow> None | Some k \<Rightarrow> check_idempotency k ?d1) = None"
    using key_free_check [of _ d] assms(4) by (cases key) simp_all
  ultimately show ?thesis
    using submit_new_trade_run [OF assms(3-5)] role assms(2)
    by (simp add: submit_trade_def bind_tx_def return_tx_def gets_tx_def)
qed

lemma submitted_db_evolves: "acceptable rq d \<Longrightarrow> ids_wf d \<Longrightarrow> ids_wf (submitted_db rq tr key d)"
  by (auto simp: ids_wf_def Let_def fresh_ids_def submitted_db_def submitted_row_def submitted_event_def)

lemma trade_terms_id: "trade_terms r = trade_terms q \<Longrightarrow> t_id r = t_id q"
  by (cases r, cases q) (simp add: trade_terms_def)

lemma fetch_trade_terms:
  assumes "prefix (map trade_terms ts) (map trade_terms ts')" "fetchone (\<lambda>t. t_id t = i) ts = Some r"
  shows "\<exists>r'. fetchone (\<lambda>t. t_id t = i) ts' = Some r' \<and> trade_terms r' = trade_terms r"
  using assms
proof (induction ts arbitrary: ts')
  case (Cons t ts)
  then obtain t' rest where ts': "ts' = t' # rest" "trade_terms t' = trade_terms t"
    "prefix (map trade_terms ts) (map trade_terms rest)"
    by (cases ts') auto
  then have "t_id t' = t_id t" by (intro trade_terms_id)
  with Cons ts' show ?case by (auto split: if_splits)
qed simp

text \<open>A key that was marked leads every later request to the trade it was marked with.\<close>

lemma check_idempotency_later:
  assumes "check_idempotency k d = Some r" "evolves d d'"
  shows "\<exists>r'. check_idempotency k d' = Some r' \<and> trade_terms r' = trade_terms r"
proof -
  from assms(1) obtain p tid where p:
    "fetchone (\<lambda>r. pe_service_name r = ''api-gateway'' \<and> pe_event_id r = k) (db_processed d) = Some p"
    "pe_reference_id p = Some tid" "fetchone (\<lambda>t. t_id t = tid) (db_trades d) = Some r"
    by (auto simp: check_idempotency_def split: option.splits)
  from assms(2) obtain new where "db_processed d' = db_processed d @ new"
    by (auto simp: evolves_def grows_def prefix_def)
  with p(1) have "fetchone (\<lambda>r. pe_service_name r = ''api-gateway'' \<and> pe_event_id r = k)
      (db_processed d') = Some p"
    by (simp add: fetchone_append)
  moreover from assms(2) have "prefix (map trade_terms (db_trades d)) (map trade_terms (db_trades d'))"
    by (simp add: evolves_def grows_def)
  from fetch_trade_terms [OF this p(3)] obtain r' where
    "fetchone (\<lambda>t. t_id t = tid) (db_trades d') = Some r'" "trade_terms r' = trade_terms r" by blast
  ultimately show ?thesis using p(2) by (simp add: check_idempotency_def)
qed

lemma submitted_check:
  assumes "key_free (Some k) d" "ids_wf d"
  shows "check_idempotency k (submitted_db rq tr (Some k) d) = Some (submitted_row rq d)"
proof -
  have "fetchone (\<lambda>r. pe_service_name r = ''api-gateway'' \<and> pe_event_id r = k) (db_processed d) = None"
    using assms(1) by (auto simp: key_free_def processed_def fetchone_None)
  moreover have "fetchone (\<lambda>t. t_id t = Suc (db_next_uuid d)) (db_trades d) = None"
    using assms(2) by (force simp: fetchone_None ids_wf_def Let_def fresh_ids_def)
  ultimately show ?thesis
    by (simp add: check_idempotency_def submitted_db_def submitted_row_def fetchone_append)
qed

subsection \<open>Properties\<close>


definition example_keys :: "(string \<times> string) list" where
  "example_keys = [(''alpha'', ''operator''), (''beta'', ''viewer'')]"

definition example_headers :: "string \<Rightarrow> uuid option \<Rightarrow> payload" where
  "example_headers token key = [(''authorization'', PStr (''Bearer '' @ token)), (''x-actor'', PStr ''ann'')] @
     (case key of None \<Rightarrow> [] | Some k \<Rightarrow> [(''idempotency-key'', PId k)])"

definition example_request :: trade_submit_request where
  "example_request = \<lparr>rq_external_trade_id = ''Y'', rq_instrument_id = 3, rq_buyer_member_id = 1,
     rq_seller_member_id = 2, rq_quantity = 10, rq_price = 100\<rparr>"

lemma example_submit:
  "may example_keys (example_headers ''alpha'' key) ''trade.submit''"
  "\<not> may example_keys (example_headers ''beta'' key) ''trade.submit''"
  "acceptable example_request example_db"
proof -
  have "get_current_role example_keys (example_headers ''alpha'' key) = Inr OPERATOR"
    "get_current_role example_keys (example_headers ''beta'' key) = Inr VIEWER"
    by (simp_all add: get_current_role_def example_headers_def example_keys_def pget_str_def pget_def
        resolve_role_def enum_of_def Role_members_def Let_def)
  then show "may example_keys (example_headers ''alpha'' key) ''trade.submit''"
    "\<not> may example_keys (example_headers ''beta'' key) ''trade.submit''"
    by (simp_all add: may_def has_permission_def)
  show "acceptable example_request example_db"
    by (simp add: acceptable_def example_request_def example_defs schema_defs has_member_def
        has_instrument_def num_fits_def num_round_numeral)
qed


text \<open>C28. An idempotency key names one trade for good: after a request with a fresh key was accepted,
  every later request with that key, whatever trade it asks for and whatever the services have
  done in between, is answered with the first trade and writes nothing.\<close>

theorem submit_trade_idempotent:
  assumes "idempotency_key h = return_tx (Some k)" "key_free (Some k) d" "ids_wf d" "ledger_committed d"
    "acceptable rq d" "may keys h ''trade.submit''" "submit_trade keys h rq d = Inr (row, d1)"
    "evolves d1 d2" "idempotency_key h2 = return_tx (Some k)" "may keys2 h2 ''trade.submit''"
  shows "\<exists>row2. submit_trade keys2 h2 rq2 d2 = Inr (row2, d2\<lparr>db_next_uuid := Suc (db_next_uuid d2)\<rparr>) \<and>
    trade_terms row2 = trade_terms row"
proof -
  have first: "row = submitted_row rq d" "d1 = submitted_db rq (request_trace h d) (Some k) d"
    using submit_trade_accepts [OF assms(6,1,5,2)] assms(4,7) by (simp_all add: ledger_committed_def)
  obtain row2 where row2: "check_idempotency k d2 = Some row2" "trade_terms row2 = trade_terms row"
    using check_idempotency_later [OF submitted_check [OF assms(2,3)] assms(8) [unfolded first(2)]]
    by (auto simp: first(1))
  obtain role where "require_permission keys2 ''trade.submit'' h2 = return_tx role"
    using require_permission_may(1) [OF assms(10)] by blast
  moreover have "trace_middleware h2 d2 =
      Inr (request_trace h2 d2, d2\<lparr>db_next_uuid := Suc (db_next_uuid d2)\<rparr>)"
    by (simp add: middleware_run request_trace_def)
  ultimately show ?thesis using row2 assms(9)
    by (simp add: submit_trade_def bind_tx_def return_tx_def gets_tx_def)
qed

theorem submit_trade_idempotent_witness:
  "\<exists>d1 row2. submit_trade example_keys (example_headers ''alpha'' (Some 70)) example_request example_db =
     Inr (submitted_row example_request example_db, d1) \<and>
   submit_trade example_keys (example_headers ''alpha'' (Some 70))
     (example_request\<lparr>rq_quantity := 99\<rparr>) d1 = Inr (row2, d1\<lparr>db_next_uuid := Suc (db_next_uuid d1)\<rparr>) \<and>
   t_quantity row2 = 10"
proof -
  let ?h = "example_headers ''alpha'' (Some 70)"
  have key: "idempotency_key ?h = return_tx (Some 70)"
    by (intro idempotency_key_some) (simp add: example_headers_def pget_def)
  have free: "key_free (Some 70) example_db" "ids_wf example_db"
    by (simp_all add: key_free_def processed_def example_defs ids_wf_def fresh_ids_def)
  obtain d1 where d1: "submit_trade example_keys ?h example_request example_db =
      Inr (submitted_row example_request example_db, d1)"
    using submit_trade_accepts [OF example_submit(1) key example_submit(3) free(1)] example_committed
    by (simp add: ledger_committed_def)
  from submit_trade_idempotent [OF key free example_committed example_submit(3,1) d1 ev.refl key
      example_submit(1), of "example_request\<lparr>rq_quantity := 99\<rparr>"]
  obtain row2 where row2: "submit_trade example_keys ?h (example_request\<lparr>rq_quantity := 99\<rparr>) d1 =
      Inr (row2, d1\<lparr>db_next_uuid := Suc (db_next_uuid d1)\<rparr>)"
    "trade_terms row2 = trade_terms (submitted_row example_request example_db)" by blast
  have "t_quantity row2 = t_quantity (submitted_row example_request example_db)"
    using row2(2) by (cases row2) (simp add: trade_terms_def submitted_row_def)
  then show ?thesis using d1 row2(1)
    by (simp add: submitted_row_def example_request_def num_round_numeral)
qed

text \<open>The gateway's reconciliation is the reconciliation engine's: for a caller with the
  permission it returns the same report, for every other 401 or 403, and it never writes.\<close>

theorem gateway_reconciles_alike:
  "if may keys h ''reconcile.run'' then gateway_reconciliation keys h d = Inr (run_reconciliation d, d)
   else \<exists>c. (c = 401 \<or> c = 403) \<and> gateway_reconciliation keys h d = Inl (HTTPException c)"
proof -
  have row: "gateway_reconcile_row actuals = reconcile_row actuals" for actuals
    by (intro ext) (auto simp: gateway_reconcile_row_def reconcile_row_def compare_account_def Let_def
        split: prod.split)
  have checks: "gateway_global_balance d = check_global_balance d"
    "gateway_journal_integrity d = check_journal_integrity d"
    by (simp_all add: gateway_global_balance_def check_global_balance_def gateway_journal_integrity_def
        check_journal_integrity_def unbalanced_journals_def)
  show ?thesis
    using require_permission_may [of keys h "''reconcile.run''"]
    by (auto simp: gateway_reconciliation_def run_reconciliation_def row checks Let_def run_simps
        split: prod.split)
qed

text \<open>Without configured keys every bearer token is an administrator's, also the empty one.\<close>

lemma unconfigured_keys_admit_everyone:
  "get_current_role [] [(''authorization'', PStr (''Bearer '' @ token))] = Inr ADMIN"
  by (simp add: get_current_role_def pget_str_def pget_def)

text \<open>The listing of the dead letters shows the latest ones to those who may read them.\<close>

lemma dead_letters_listed:
  assumes "list_dead_letter_events keys h n d = Inr (rows, d')"
  shows "may keys h ''dlq.read'' \<and> d' = d \<and> length rows \<le> 200 \<and>
    (\<forall>q \<in> set (db_dead_letters d). q \<in> set rows \<or> (\<forall>r \<in> set rows. dl_created_at q \<le> dl_created_at r))"
proof (cases "may keys h ''dlq.read''")
  case True
  then obtain role where "require_permission keys ''dlq.read'' h = return_tx role"
    using require_permission_may(1) by blast
  with assms have rows: "rows = take (nat (min n 200)) (order_desc dl_created_at (db_dead_letters d))" "d' = d"
    by (auto simp: list_dead_letter_events_def select_limit_def tx_simps)
  then show ?thesis using True order_desc_limit [OF _ rows(1)] by simp
next
  case False
  then show ?thesis using assms require_permission_may(2) [of keys h "''dlq.read''"]
    by (auto simp: list_dead_letter_events_def run_simps)
qed

text \<open>A key that is not a UUID is refused, although the header is free text.\<close>

lemma text_key_refused:
  assumes "pget h ''idempotency-key'' = Some (PStr s)" "s \<noteq> []"
  shows "\<exists>e. submit_trade keys h rq d = Inl e"
  using assms require_permission_may [of keys h "''trade.submit''"]
  by (cases "may keys h ''trade.submit''")
    (auto simp: submit_trade_def idempotency_key_def trace_middleware_def fresh_uuid_def run_simps)

end
