(* ===== verification/Access.thy ===== *)
theory Access
  imports Gateway
begin

section \<open>Settings and guarded connections\<close>

text \<open>
  \<open>ccp_shared/config.py\<close> (the settings and the connection strings they give),
  \<open>ccp_shared/db/readonly.py\<close> (a connection that only takes queries) and
  \<open>ccp_shared/db/transactions.py\<close> (a transaction that checks the balance of the pending
  journals). Queries are ASCII text. No service uses the two wrappers.
\<close>

subsection \<open>The settings\<close>

record ccp_settings =
  postgres_host :: string
  postgres_port :: nat
  postgres_db :: string
  postgres_admin_user :: string
  postgres_admin_password :: string
  postgres_ledger_user :: string
  postgres_ledger_password :: string
  postgres_readonly_user :: string
  postgres_readonly_password :: string
  kafka_bootstrap_servers :: string
  api_gateway_port :: nat
  price_oracle_interval_seconds :: nat
  outbox_poll_interval_seconds :: nat
  outbox_batch_size :: nat
  margin_call_deadline_minutes :: nat
  mpc_threshold :: nat
  mpc_total_nodes :: nat
  signing_gateway_host :: string
  signing_gateway_port :: nat
  api_keys :: string

text \<open>The defaults, for the variables the environment does not set.\<close>

definition default_settings :: ccp_settings where
  "default_settings =
     \<lparr>postgres_host = ''localhost'', postgres_port = 5432, postgres_db = ''ccp_clearing'',
      postgres_admin_user = ''admin_user'', postgres_admin_password = ''admin_secret_change_me'',
      postgres_ledger_user = ''ledger_user'', postgres_ledger_password = ''ledger_secret_change_me'',
      postgres_readonly_user = ''readonly_user'',
      postgres_readonly_password = ''readonly_secret_change_me'',
      kafka_bootstrap_servers = ''localhost:9092'', api_gateway_port = 8000,
      price_oracle_interval_seconds = 30, outbox_poll_interval_seconds = 1, outbox_batch_size = 100,
      margin_call_deadline_minutes = 60, mpc_threshold = 2, mpc_total_nodes = 3,
      signing_gateway_host = ''signing-gateway'', signing_gateway_port = 8010, api_keys = ''{}''\<rparr>"

fun nat_str :: "nat \<Rightarrow> string" where
  "nat_str n = (if n < 10 then [char_of (48 + n)] else nat_str (n div 10) @ [char_of (48 + n mod 10)])"

declare nat_str.simps [simp del]

definition dsn :: "string \<Rightarrow> string \<Rightarrow> ccp_settings \<Rightarrow> string" where
  "dsn user password s = ''postgresql://'' @ user @ '':'' @ password @ ''@'' @ postgres_host s @ '':'' @
     nat_str (postgres_port s) @ ''/'' @ postgres_db s"

definition ledger_dsn :: "ccp_settings \<Rightarrow> string" where
  "ledger_dsn s = dsn (postgres_ledger_user s) (postgres_ledger_password s) s"

definition readonly_dsn :: "ccp_settings \<Rightarrow> string" where
  "readonly_dsn s = dsn (postgres_readonly_user s) (postgres_readonly_password s) s"

definition admin_dsn :: "ccp_settings \<Rightarrow> string" where
  "admin_dsn s = dsn (postgres_admin_user s) (postgres_admin_password s) s"

text \<open>\<open>json.loads(self.api_keys)\<close>, with the reading of JSON as a parameter.\<close>

definition parsed_api_keys ::
    "(string \<Rightarrow> exn + (string \<times> string) list) \<Rightarrow> ccp_settings \<Rightarrow> exn + (string \<times> string) list" where
  "parsed_api_keys json_loads s = json_loads (api_keys s)"

subsection \<open>The read-only connection\<close>

text \<open>\<open>str.strip()\<close> and \<open>str.upper()\<close> on ASCII text.\<close>

definition is_space :: "char \<Rightarrow> bool" where
  "is_space c \<longleftrightarrow> (let n = of_char c :: nat in n = 32 \<or> 9 \<le> n \<and> n \<le> 13 \<or> 28 \<le> n \<and> n \<le> 31)"

definition strip :: "string \<Rightarrow> string" where
  "strip s = rev (dropWhile is_space (rev (dropWhile is_space s)))"

definition upper :: "string \<Rightarrow> string" where
  "upper = map (\<lambda>c. let n = of_char c :: nat in if 97 \<le> n \<and> n \<le> 122 then char_of (n - 32) else c)"

definition ALLOWED_PREFIXES :: "string list" where
  "ALLOWED_PREFIXES = [''SELECT'', ''WITH'', ''EXPLAIN'']"

definition query_allowed :: "string \<Rightarrow> bool" where
  "query_allowed query \<longleftrightarrow>
     list_ex (\<lambda>p. take (length p) (upper (strip query)) = p) ALLOWED_PREFIXES"

text \<open>\<open>execute\<close> is that of the connection; without parameters it is called without them.\<close>

definition readonly_execute ::
    "(string \<Rightarrow> pval list option \<Rightarrow> 'a ccp) \<Rightarrow> string \<Rightarrow> pval list option \<Rightarrow> 'a ccp" where
  "readonly_execute execute query params =
     (if \<not> query_allowed query then
        raise_tx (ValidationError [PStr ''ReadOnlyConnection only allows SELECT queries, got: '',
          PStr (take 50 query)])
      else case params of Some ps \<Rightarrow> execute query (Some ps) | None \<Rightarrow> execute query None)"

subsection \<open>The ledger transaction\<close>

text \<open>
  The query of \<open>_validate_journal_balance\<close> names the columns \<open>direction\<close> and \<open>amount\<close>; the server
  resolves the columns before it runs a query. The two columns are arguments, for a table that
  has them.
\<close>

definition journal_entries_columns :: "string list" where
  "journal_entries_columns =
     [''id'', ''journal_id'', ''account_id'', ''debit'', ''credit'', ''created_at'']"

definition balance_query_columns :: "string list" where
  "balance_query_columns = [''direction'', ''amount'', ''journal_id'']"

definition direction_sum ::
    "(entry_row \<Rightarrow> string) \<Rightarrow> (entry_row \<Rightarrow> rat) \<Rightarrow> string \<Rightarrow> entry_row list \<Rightarrow> rat" where
  "direction_sum direction amount side rows =
     (\<Sum>e\<leftarrow>rows. if direction e = side then amount e else 0)"

definition pending_groups :: "db \<Rightarrow> (uuid \<times> entry_row list) list" where
  "pending_groups d = group_by je_journal_id (filter (\<lambda>e. \<exists>j \<in> set (db_journals d).
     j_id j = je_journal_id e \<and> j_status j = ''pending'') (db_entries d))"

definition validate_pending_balance ::
    "string list \<Rightarrow> (entry_row \<Rightarrow> string) \<Rightarrow> (entry_row \<Rightarrow> rat) \<Rightarrow> unit ccp" where
  "validate_pending_balance columns direction amount =
     (case filter (\<lambda>c. c \<notin> set columns) balance_query_columns of
        c # _ \<Rightarrow> raise_tx (UndefinedColumn c)
      | [] \<Rightarrow>
         bind_tx (gets_tx (\<lambda>d. fetchone (\<lambda>(j, rows). direction_sum direction amount ''debit'' rows \<noteq>
            direction_sum direction amount ''credit'' rows) (pending_groups d))) (\<lambda>row.
         case row of
           None \<Rightarrow> return_tx ()
         | Some (j, rows) \<Rightarrow>
             (let debits = direction_sum direction amount ''debit'' rows;
                  credits = direction_sum direction amount ''credit'' rows in
              raise_tx (LedgerImbalanceError [PStr ''Journal '', PId j, PStr '' imbalanced: debits='',
                PDec debits, PStr '', credits='', PDec credits] j debits credits))))"

text \<open>The block of \<open>conn.transaction()\<close> commits where it is the outermost one.\<close>

definition ledger_transaction ::
    "bool \<Rightarrow> string list \<Rightarrow> (entry_row \<Rightarrow> string) \<Rightarrow> (entry_row \<Rightarrow> rat) \<Rightarrow> 'a ccp \<Rightarrow> 'a ccp" where
  "ledger_transaction outermost columns direction amount body =
     bind_tx body (\<lambda>x.
     bind_tx (validate_pending_balance columns direction amount) (\<lambda>_.
     bind_tx (if outermost then commit else return_tx ()) (\<lambda>_. return_tx x)))"

subsection \<open>What the guards give\<close>

lemma ev_ledger_transaction [evolving]:
  "across evolves body \<Longrightarrow> across evolves (ledger_transaction outer cols dir amt body)"
  unfolding ledger_transaction_def validate_pending_balance_def Let_def
  by (auto intro!: evolving split: list.split option.split)

text \<open>The user and the password are not quoted: different settings give the same string.\<close>

lemma dsn_ambiguous:
  "ledger_dsn (s\<lparr>postgres_ledger_password := p @ ''@'' @ h, postgres_host := k\<rparr>) =
   ledger_dsn (s\<lparr>postgres_ledger_password := p, postgres_host := h @ ''@'' @ k\<rparr>)"
  by (simp add: ledger_dsn_def dsn_def)

text \<open>With the default settings every bearer token is an administrator's.\<close>

lemma default_settings_admit_everyone:
  assumes "json_loads ''{}'' = Inr []"
  shows "(case parsed_api_keys json_loads default_settings of Inl e \<Rightarrow> Inl e
     | Inr keys \<Rightarrow> get_current_role keys [(''authorization'', PStr (''Bearer '' @ token))]) = Inr ADMIN"
  using assms unconfigured_keys_admit_everyone [of token]
  by (simp add: parsed_api_keys_def default_settings_def)

text \<open>A refused query never reaches the connection, an allowed one reaches it unchanged.\<close>

lemma readonly_execute_cases:
  "readonly_execute execute query params = (if query_allowed query then execute query params
     else raise_tx (ValidationError [PStr ''ReadOnlyConnection only allows SELECT queries, got: '',
       PStr (take 50 query)]))"
  by (simp add: readonly_execute_def split: option.split)

text \<open>The guard looks at the first word only: a statement that modifies data in a common table
  expression, or that is explained with \<open>ANALYZE\<close>, goes through.\<close>

lemma readonly_lets_writes_through:
  "query_allowed ''WITH d AS (DELETE FROM outbox_events RETURNING id) SELECT id FROM d''"
  "query_allowed ''EXPLAIN ANALYZE DELETE FROM outbox_events''"
  by (simp_all add: query_allowed_def ALLOWED_PREFIXES_def strip_def upper_def is_space_def Let_def
      char_of_def of_char_def)

text \<open>The check of the transaction fails on the table the migrations create, so no transaction
  of \<open>ledger_transaction\<close> ever commits.\<close>

lemma ledger_transaction_never_commits:
  "\<exists>e. ledger_transaction outer journal_entries_columns dir amt body d = Inl e"
  by (auto simp: ledger_transaction_def validate_pending_balance_def journal_entries_columns_def
      balance_query_columns_def bind_tx_def raise_tx_def split: sum.splits)

text \<open>On a table with those columns it would be the check it is meant to be.\<close>

lemma ledger_transaction_checks:
  assumes "set balance_query_columns \<subseteq> set cols" "body d = Inr (x, e)"
  shows "(\<exists>r. ledger_transaction False cols dir amt body d = Inr r) \<longleftrightarrow>
    (\<forall>j rows. (j, rows) \<in> set (pending_groups e) \<longrightarrow>
       direction_sum dir amt ''debit'' rows = direction_sum dir amt ''credit'' rows)"
proof -
  have "filter (\<lambda>c. c \<notin> set cols) balance_query_columns = []"
    using assms(1) by (auto simp: filter_empty_conv)
  then have "(\<exists>r. ledger_transaction False cols dir amt body d = Inr r) \<longleftrightarrow>
      fetchone (\<lambda>(j, rows). direction_sum dir amt ''debit'' rows \<noteq> direction_sum dir amt ''credit'' rows)
        (pending_groups e) = None"
    using assms(2) by (auto simp: ledger_transaction_def validate_pending_balance_def bind_tx_def
        gets_tx_def return_tx_def raise_tx_def Let_def split: option.splits prod.splits)
  then show ?thesis by (auto simp: fetchone_None)
qed

end
