(* ===== verification/Messaging.thy ===== *)
theory Messaging
  imports Session
begin

section \<open>Messaging: producer, outbox publisher, consumer with dead letters\<close>

text \<open>
  \<open>ccp_shared/kafka/producer.py\<close> and \<open>consumer.py\<close>, and the service
  \<open>services/outbox-publisher/src/outbox_publisher/publisher.py\<close>. The client library
  \<open>confluent_kafka\<close> is a parameter (the record \<open>kafka\<close> of its operations over its own state), and
  so is PostgreSQL's cast of text to \<open>jsonb\<close>. What is assumed of the client where a property
  needs it is \<open>documented_client\<close>.
\<close>

subsection \<open>\<open>kafka/producer.py\<close>\<close>

record kafka_message =
  km_topic :: string
  km_key :: pval
  km_value :: payload
  km_headers :: "(string \<times> pval) list"

record 'k kafka =
  kf_produce :: "kafka_message \<Rightarrow> ('k, exn, unit) tx"
  kf_poll :: "('k, exn, unit) tx"
  kf_flush :: "('k, exn, nat) tx"

definition producer_produce ::
    "'k kafka \<Rightarrow> string \<Rightarrow> pval \<Rightarrow> payload \<Rightarrow> (string \<times> pval) list \<Rightarrow> ('k, unit) act" where
  "producer_produce kf topic key value headers =
     bind_act (outside (kf_produce kf
       \<lparr>km_topic = topic, km_key = key, km_value = value, km_headers = headers\<rparr>)) (\<lambda>_.
     outside (kf_poll kf))"

definition producer_flush :: "'k kafka \<Rightarrow> ('k, nat) act" where
  "producer_flush kf = outside (kf_flush kf)"

subsection \<open>\<open>outbox_publisher/publisher.py\<close>\<close>

text \<open>
  \<open>ORDER BY created_at LIMIT n FOR UPDATE SKIP LOCKED\<close>; \<open>locked\<close> are the rows that another
  publisher holds.
\<close>

definition fetch_unpublished_batch :: "(uuid \<Rightarrow> bool) \<Rightarrow> nat \<Rightarrow> db \<Rightarrow> outbox_row list" where
  "fetch_unpublished_batch locked n d = take n (sort_key ob_created_at
     (filter (\<lambda>r. ob_published_at r = None \<and> \<not> locked (ob_id r)) (db_outbox d)))"

text \<open>\<open>payload.get("event_id", str(event["id"]))\<close> and its \<open>encode\<close>, which only text has.\<close>

definition event_header :: "outbox_row \<Rightarrow> pval" where
  "event_header r = (case pget (ob_payload r) ''event_id'' of Some v \<Rightarrow> v | None \<Rightarrow> PId (ob_id r))"

fun is_text :: "pval \<Rightarrow> bool" where
  "is_text (PStr _) = True"
| "is_text (PId _) = True"
| "is_text (PDec _) = True"
| "is_text (PTime _) = True"
| "is_text (PMsg _) = True"
| "is_text _ = False"

definition publish_event :: "'k kafka \<Rightarrow> outbox_row \<Rightarrow> uuid list \<Rightarrow> ('k, uuid list) act" where
  "publish_event kf r published =
     (if is_text (event_header r)
      then bind_act (producer_produce kf (ob_topic r) (PId (ob_aggregate_id r)) (ob_payload r)
             [(''event_id'', event_header r)]) (\<lambda>_.
           return_act (published @ [ob_id r]))
      else raise_act (TypeError ''encode''))"

text \<open>The result of \<open>flush\<close>, the number of messages still queued, is dropped.\<close>

definition publish_batch :: "'k kafka \<Rightarrow> outbox_row list \<Rightarrow> ('k, uuid list) act" where
  "publish_batch kf events =
     bind_act (fold_act (publish_event kf) events []) (\<lambda>published.
     bind_act (producer_flush kf) (\<lambda>_. return_act published))"

definition mark_published :: "uuid list \<Rightarrow> unit ccp" where
  "mark_published ids =
     (if ids = [] then return_tx ()
      else modify_tx (\<lambda>d. d\<lparr>db_outbox := update_where (\<lambda>r. ob_id r \<in> set ids)
             (\<lambda>r. r\<lparr>ob_published_at := Some (db_now d)\<rparr>) (db_outbox d)\<rparr>))"

definition process_batch :: "(uuid \<Rightarrow> bool) \<Rightarrow> nat \<Rightarrow> 'k kafka \<Rightarrow> ('k, nat) act" where
  "process_batch locked n kf =
     catch_act
       (bind_act (sql (gets_tx (fetch_unpublished_batch locked n))) (\<lambda>events.
        if events = [] then bind_act rollback_act (\<lambda>_. return_act 0)
        else bind_act (publish_batch kf events) (\<lambda>published.
             bind_act (sql (mark_published published)) (\<lambda>_.
             bind_act commit_act (\<lambda>_.
             return_act (length published))))))
       (\<lambda>_. bind_act rollback_act (\<lambda>_. return_act 0))"

text \<open>One turn of \<open>poll_and_publish\<close> on a connection of its own.\<close>

definition publisher_turn :: "(uuid \<Rightarrow> bool) \<Rightarrow> nat \<Rightarrow> 'k kafka \<Rightarrow> db \<times> 'k \<Rightarrow> db \<times> 'k" where
  "publisher_turn locked n kf = (\<lambda>(d, k). close_session (snd (process_batch locked n kf (connect d k))))"

definition outbox_metrics :: "db \<Rightarrow> nat \<times> nat" where
  "outbox_metrics d =
     (length (filter (\<lambda>r. ob_published_at r \<noteq> None) (db_outbox d)),
      length (filter (\<lambda>r. ob_published_at r = None) (db_outbox d)))"

subsection \<open>\<open>kafka/consumer.py\<close>\<close>

text \<open>
  What \<open>poll\<close> returns: nothing, an error event, or a message, whose bytes are JSON text or are
  not.
\<close>

datatype message_value = Json pval | Garbled pval

record raw_message =
  rm_topic :: string
  rm_key :: "string option"
  rm_value :: message_value

datatype polled = NoMessage | PollError | Polled raw_message

text \<open>The text \<open>_send_to_dlq\<close> inserts is cast to \<open>jsonb\<close> by the server.\<close>

definition insert_dead_letter ::
    "(message_value \<Rightarrow> pval option) \<Rightarrow> string \<Rightarrow> raw_message \<Rightarrow> pval \<Rightarrow> unit ccp" where
  "insert_dead_letter jsonb group_id m err =
     (case jsonb (rm_value m) of
        None \<Rightarrow> raise_tx (ExternalError ''invalid input syntax for type json'')
      | Some v \<Rightarrow> bind_tx fresh_uuid (\<lambda>i. modify_tx (\<lambda>d. d\<lparr>db_dead_letters := db_dead_letters d @
          [\<lparr>dl_id = i, dl_service_name = group_id, dl_topic = rm_topic m, dl_event_key = rm_key m,
            dl_payload = v, dl_error_message = err, dl_created_at = db_now d, dl_retry_count = 0\<rparr>]\<rparr>)))"

text \<open>Its \<open>except\<close> clause only logs.\<close>

definition send_to_dlq ::
    "(message_value \<Rightarrow> pval option) \<Rightarrow> string \<Rightarrow> raw_message \<Rightarrow> pval \<Rightarrow> db \<Rightarrow> db" where
  "send_to_dlq jsonb group_id m err = state_after (with_connection (insert_dead_letter jsonb group_id m err))"

text \<open>The second component of the state are the messages whose offsets are committed.\<close>

definition poll_step ::
    "(message_value \<Rightarrow> pval option) \<Rightarrow> string \<Rightarrow> (string \<Rightarrow> string option \<Rightarrow> pval \<Rightarrow> unit ccp) \<Rightarrow>
     db \<times> raw_message list \<Rightarrow> polled \<Rightarrow> db \<times> raw_message list" where
  "poll_step jsonb group_id callback st p =
     (case p of NoMessage \<Rightarrow> st | PollError \<Rightarrow> st
      | Polled m \<Rightarrow> (case st of (d, offsets) \<Rightarrow>
          (case rm_value m of
             Garbled _ \<Rightarrow> (send_to_dlq jsonb group_id m (PStr ''JSONDecodeError'') d, offsets @ [m])
           | Json v \<Rightarrow>
             (case callback (rm_topic m) (rm_key m) v d of
                Inl e \<Rightarrow> (send_to_dlq jsonb group_id m (exn_str e) d, offsets @ [m])
              | Inr (_, d') \<Rightarrow> (d', offsets @ [m])))))"

text \<open>The loop over the results of \<open>poll\<close> until the consumer is stopped.\<close>

definition consumer_poll_loop ::
    "(message_value \<Rightarrow> pval option) \<Rightarrow> string \<Rightarrow> (string \<Rightarrow> string option \<Rightarrow> pval \<Rightarrow> unit ccp) \<Rightarrow>
     polled list \<Rightarrow> db \<times> raw_message list \<Rightarrow> db \<times> raw_message list" where
  "consumer_poll_loop jsonb group_id callback polls st = foldl (poll_step jsonb group_id callback) st polls"

text \<open>The callbacks of the services take a JSON object.\<close>

definition on_object :: "(payload \<Rightarrow> unit ccp) \<Rightarrow> string \<Rightarrow> string option \<Rightarrow> pval \<Rightarrow> unit ccp" where
  "on_object handler topic key v =
     (case v of PObj event \<Rightarrow> handler event | _ \<Rightarrow> raise_tx (TypeError ''not a mapping''))"

subsection \<open>Preservation\<close>

lemma ev_mark_published [evolving]: "across evolves (mark_published ids)"
proof (rule acrossI)
  fix d d' x
  assume "mark_published ids d = Inr (x, d')"
  then have "d' = d \<or> d' = d\<lparr>db_outbox := update_where (\<lambda>r. ob_id r \<in> set ids)
      (\<lambda>r. r\<lparr>ob_published_at := Some (db_now d)\<rparr>) (db_outbox d)\<rparr>"
    by (auto simp: mark_published_def tx_simps split: if_splits)
  then show "evolves d d'"
    by (auto simp: evolves_def grows_def ids_wf_def all_confirmed_def Let_def map_update_where)
qed

lemma ev_insert_dead_letter [evolving]: "across evolves (insert_dead_letter jsonb g m err)"
  by (rule acrossI) (auto simp: insert_dead_letter_def fresh_uuid_def evolve_simps split: option.splits)

lemma evolves_send_to_dlq: "evolves d (send_to_dlq jsonb g m err d)"
  unfolding send_to_dlq_def by (intro ev_state_after ev_with_connection evolving)

subsection \<open>What the publisher does\<close>

text \<open>
  \<open>sent\<close> reads from the client's state the messages it has accepted, queued or delivered. The
  documentation promises no more than that an accepted message stays with the client, in the
  order of the calls.
\<close>

definition documented_client :: "'k kafka \<Rightarrow> ('k \<Rightarrow> kafka_message list) \<Rightarrow> bool" where
  "documented_client kf sent \<longleftrightarrow>
     (\<forall>m s x s'. kf_produce kf m s = Inr (x, s') \<longrightarrow> sent s' = sent s @ [m]) \<and>
     (\<forall>s x s'. kf_poll kf s = Inr (x, s') \<longrightarrow> sent s' = sent s) \<and>
     (\<forall>s x s'. kf_flush kf s = Inr (x, s') \<longrightarrow> sent s' = sent s)"

text \<open>No local queue overflow and no other error of the client.\<close>

definition available_client :: "'k kafka \<Rightarrow> bool" where
  "available_client kf \<longleftrightarrow> (\<forall>m s. \<exists>s'. kf_produce kf m s = Inr ((), s')) \<and>
     (\<forall>s. \<exists>s'. kf_poll kf s = Inr ((), s')) \<and> (\<forall>s. \<exists>n s'. kf_flush kf s = Inr (n, s'))"

definition message_of :: "outbox_row \<Rightarrow> kafka_message" where
  "message_of r = \<lparr>km_topic = ob_topic r, km_key = PId (ob_aggregate_id r),
     km_value = ob_payload r, km_headers = [(''event_id'', event_header r)]\<rparr>"

definition marked :: "uuid list \<Rightarrow> db \<Rightarrow> db" where
  "marked ids d = d\<lparr>db_outbox := update_where (\<lambda>r. ob_id r \<in> set ids)
     (\<lambda>r. r\<lparr>ob_published_at := Some (db_now d)\<rparr>) (db_outbox d)\<rparr>"

definition unpublished :: "db \<Rightarrow> outbox_row list" where
  "unpublished d = sort_key ob_created_at (filter (\<lambda>r. ob_published_at r = None) (db_outbox d))"

lemma fetch_single: "fetch_unpublished_batch (\<lambda>_. False) n d = take n (unpublished d)"
  by (simp add: fetch_unpublished_batch_def unpublished_def)

lemma message_of_marked [simp]: "message_of (r\<lparr>ob_published_at := t\<rparr>) = message_of r"
  by (simp add: message_of_def event_header_def split: option.split)

lemma outside_cases:
  obtains e where "m (ss_outside w) = Inl e" "outside m w = (Inl e, w)"
  | x s where "m (ss_outside w) = Inr (x, s)" "outside m w = (Inr x, w\<lparr>ss_outside := s\<rparr>)"
  by (cases "m (ss_outside w)") (auto simp: outside_def)

text \<open>Publishing touches nothing but the client, and hands it a prefix of the batch in order.\<close>

lemma publish_event_run:
  assumes "documented_client kf sent" "publish_event kf r acc w = (res, w')"
  shows "\<exists>k. w' = w\<lparr>ss_outside := k\<rparr> \<and>
    (sent k = sent (ss_outside w) \<and> (\<exists>e. res = Inl e) \<or>
     sent k = sent (ss_outside w) @ [message_of r] \<and> (\<forall>ids. res = Inr ids \<longrightarrow> ids = acc @ [ob_id r]))"
proof (cases "is_text (event_header r)")
  case False
  then show ?thesis using assms(2) by (auto simp: publish_event_def intro!: exI [of _ "ss_outside w"])
next
  case enc: True
  let ?m = "message_of r"
  show ?thesis
  proof (cases rule: outside_cases [of "kf_produce kf ?m" w])
    case (1 e)
    then show ?thesis using assms(2) enc
      by (auto simp: publish_event_def producer_produce_def message_of_def bind_act_def
          intro!: exI [of _ "ss_outside w"])
  next
    case (2 x s)
    then have sent: "sent s = sent (ss_outside w) @ [?m]"
      using assms(1) by (auto simp: documented_client_def)
    show ?thesis
    proof (cases rule: outside_cases [of "kf_poll kf" "w\<lparr>ss_outside := s\<rparr>"])
      case (1 e)
      then show ?thesis using assms(2) enc 2 sent
        by (auto simp: publish_event_def producer_produce_def message_of_def bind_act_def)
    next
      case p: (2 y s')
      then have "sent s' = sent s" using assms(1) by (auto simp: documented_client_def)
      then show ?thesis using assms(2) enc 2 p sent
        by (auto simp: publish_event_def producer_produce_def message_of_def bind_act_def)
    qed
  qed
qed

lemma publish_events_run:
  assumes "documented_client kf sent" "fold_act (publish_event kf) rows acc w = (res, w')"
  shows "\<exists>k sofar. w' = w\<lparr>ss_outside := k\<rparr> \<and> prefix sofar rows \<and>
     sent k = sent (ss_outside w) @ map message_of sofar \<and>
     (\<forall>ids. res = Inr ids \<longrightarrow> sofar = rows \<and> ids = acc @ map ob_id rows)"
  using assms(2)
proof (induction rows arbitrary: acc w)
  case Nil
  then show ?case by (auto intro!: exI [of _ "ss_outside w"])
next
  case (Cons r rows)
  obtain res1 w1 where one: "publish_event kf r acc w = (res1, w1)" by fastforce
  from publish_event_run [OF assms(1) one] obtain k where k: "w1 = w\<lparr>ss_outside := k\<rparr>"
    "sent k = sent (ss_outside w) \<and> (\<exists>e. res1 = Inl e) \<or>
     sent k = sent (ss_outside w) @ [message_of r] \<and> (\<forall>ids. res1 = Inr ids \<longrightarrow> ids = acc @ [ob_id r])"
    by blast
  show ?case
  proof (cases res1)
    case (Inl e)
    with one Cons.prems have res: "res = Inl e" "w' = w1" by (simp_all add: bind_act_def)
    from k(2) show ?thesis
    proof
      assume "sent k = sent (ss_outside w) \<and> (\<exists>e. res1 = Inl e)"
      then show ?thesis using k(1) res by (intro exI [of _ k] exI [of _ "[]"]) simp
    next
      assume "sent k = sent (ss_outside w) @ [message_of r] \<and>
        (\<forall>ids. res1 = Inr ids \<longrightarrow> ids = acc @ [ob_id r])"
      then show ?thesis using k(1) res by (intro exI [of _ k] exI [of _ "[r]"]) simp
    qed
  next
    case (Inr ids)
    with k have ids: "ids = acc @ [ob_id r]" "sent k = sent (ss_outside w) @ [message_of r]" by auto
    from one Inr Cons.prems have "fold_act (publish_event kf) rows ids w1 = (res, w')"
      by (simp add: bind_act_def)
    from Cons.IH [OF this] ids k(1) obtain k2 sofar where
      "w' = w1\<lparr>ss_outside := k2\<rparr>" "prefix sofar rows"
      "sent k2 = sent k @ map message_of sofar"
      "\<forall>l. res = Inr l \<longrightarrow> sofar = rows \<and> l = ids @ map ob_id rows"
      by auto
    then show ?thesis using ids k(1)
      by (intro exI [of _ k2] exI [of _ "r # sofar"]) simp
  qed
qed

lemma publish_batch_run:
  assumes "documented_client kf sent" "publish_batch kf rows w = (res, w')"
  shows "\<exists>k sofar. w' = w\<lparr>ss_outside := k\<rparr> \<and> prefix sofar rows \<and>
     sent k = sent (ss_outside w) @ map message_of sofar \<and>
     (\<forall>ids. res = Inr ids \<longrightarrow> sofar = rows \<and> ids = map ob_id rows)"
proof -
  obtain res1 w1 where one: "fold_act (publish_event kf) rows [] w = (res1, w1)" by fastforce
  from publish_events_run [OF assms(1) one] obtain k sofar where k: "w1 = w\<lparr>ss_outside := k\<rparr>"
    "prefix sofar rows" "sent k = sent (ss_outside w) @ map message_of sofar"
    "\<forall>ids. res1 = Inr ids \<longrightarrow> sofar = rows \<and> ids = map ob_id rows"
    by auto
  show ?thesis
  proof (cases rule: outside_cases [of "kf_flush kf" w1])
    case (1 e)
    then show ?thesis using assms(2) one k
      by (cases res1) (auto simp: publish_batch_def producer_flush_def bind_act_def)
  next
    case (2 x s)
    then have "sent s = sent k" using assms(1) k(1) by (auto simp: documented_client_def)
    then show ?thesis using assms(2) one k 2
      by (cases res1) (auto simp: publish_batch_def producer_flush_def bind_act_def)
  qed
qed

lemma mark_published_marked: "mark_published ids d = Inr ((), marked ids d)"
  by (simp add: mark_published_def marked_def update_where_none run_simps)

lemma marked_fields [simp]: "db_deferred (marked ids d) = db_deferred d"
  by (simp add: marked_def)

text \<open>A turn either leaves the database alone or marks exactly the batch it has handed over.\<close>

lemma publisher_turn_cases:
  assumes "documented_client kf sent" "db_deferred d = []"
    "publisher_turn locked n kf (d, k) = (d', k')"
  shows "\<exists>sofar. prefix sofar (fetch_unpublished_batch locked n d) \<and>
     sent k' = sent k @ map message_of sofar \<and>
     (d' = d \<and> (fetch_unpublished_batch locked n d = [] \<or>
        (\<exists>e. fst (publish_batch kf (fetch_unpublished_batch locked n d)
           ((connect d k)\<lparr>ss_status := INTRANS\<rparr>)) = Inl e)) \<or>
      sofar = fetch_unpublished_batch locked n d \<and>
        d' = marked (map ob_id (fetch_unpublished_batch locked n d)) d)"
proof -
  let ?batch = "fetch_unpublished_batch locked n d"
  let ?w = "(connect d k)\<lparr>ss_status := INTRANS\<rparr>"
  have first: "sql (gets_tx (fetch_unpublished_batch locked n)) (connect d k) = (Inr ?batch, ?w)"
    by (simp add: sql_def connect_def gets_tx_def)
  show ?thesis
  proof (cases "?batch = []")
    case True
    then show ?thesis using assms(3) first
      by (auto simp: publisher_turn_def process_batch_def bind_act_def catch_act_def rollback_act_def
          return_act_def close_session_def connect_def)
  next
    case False
    obtain res w1 where pub: "publish_batch kf ?batch ?w = (res, w1)" by fastforce
    from publish_batch_run [OF assms(1) pub] obtain k1 sofar where k1: "w1 = ?w\<lparr>ss_outside := k1\<rparr>"
      "prefix sofar ?batch" "sent k1 = sent k @ map message_of sofar"
      "\<forall>ids. res = Inr ids \<longrightarrow> sofar = ?batch \<and> ids = map ob_id ?batch"
      by (auto simp: connect_def)
    show ?thesis
    proof (cases res)
      case (Inl e)
      then have "(d', k') = (d, k1)" using assms(3) first pub k1(1) False
        by (simp add: publisher_turn_def process_batch_def bind_act_def catch_act_def
            rollback_act_def return_act_def close_session_def connect_def)
      then show ?thesis using k1 pub Inl by auto
    next
      case (Inr ids)
      let ?d = "marked (map ob_id ?batch) d"
      have commit: "commit ?d = Inr ((), ?d)" using assms(2) commit_Inr [of ?d ?d] by simp
      have "(d', k') = (?d, k1)" using assms(3) first pub k1 False Inr commit
        by (simp add: publisher_turn_def process_batch_def bind_act_def catch_act_def sql_def
            mark_published_marked commit_act_def return_act_def close_session_def connect_def)
      then show ?thesis using k1 Inr by auto
    qed
  qed
qed

lemma publish_events_ok:
  assumes "available_client kf" "\<And>r. r \<in> set rows \<Longrightarrow> is_text (event_header r)"
  shows "\<exists>w'. fold_act (publish_event kf) rows acc w = (Inr (acc @ map ob_id rows), w')"
  using assms(2)
proof (induction rows arbitrary: acc w)
  case (Cons r rows)
  let ?m = "\<lparr>km_topic = ob_topic r, km_key = PId (ob_aggregate_id r), km_value = ob_payload r,
     km_headers = [(''event_id'', event_header r)]\<rparr>"
  obtain s where s: "kf_produce kf ?m (ss_outside w) = Inr ((), s)"
    using assms(1) by (metis available_client_def)
  obtain s' where s': "kf_poll kf s = Inr ((), s')"
    using assms(1) by (metis available_client_def)
  have "publish_event kf r acc w = (Inr (acc @ [ob_id r]), w\<lparr>ss_outside := s'\<rparr>)"
    using Cons.prems [of r] s s' by (simp add: publish_event_def producer_produce_def bind_act_def outside_def)
  then show ?case
    using Cons.IH [of "acc @ [ob_id r]" "w\<lparr>ss_outside := s'\<rparr>"] Cons.prems by (simp add: bind_act_def)
qed simp

lemma publish_batch_ok:
  assumes "available_client kf" "\<And>r. r \<in> set rows \<Longrightarrow> is_text (event_header r)"
  shows "fst (publish_batch kf rows w) = Inr (map ob_id rows)"
proof -
  obtain w1 where w1: "fold_act (publish_event kf) rows [] w = (Inr (map ob_id rows), w1)"
    using publish_events_ok [OF assms, where acc = "[]" and w = w] by auto
  obtain n s where "kf_flush kf (ss_outside w1) = Inr (n, s)"
    using assms(1) by (metis available_client_def)
  with w1 show ?thesis
    by (simp add: publish_batch_def producer_flush_def bind_act_def outside_def)
qed

definition text_headers :: "db \<Rightarrow> bool" where
  "text_headers d \<longleftrightarrow> (\<forall>r \<in> set (db_outbox d). is_text (event_header r))"

lemma marked_nil: "marked [] d = d"
  by (simp add: marked_def update_where_none)

lemma publisher_turn_single:
  assumes "documented_client kf sent" "available_client kf" "db_deferred d = []" "text_headers d"
    "publisher_turn (\<lambda>_. False) n kf (d, k) = (d', k')"
  shows "sent k' = sent k @ map message_of (take n (unpublished d)) \<and>
    d' = marked (map ob_id (take n (unpublished d))) d"
proof -
  have ok: "fst (publish_batch kf (take n (unpublished d)) w) = Inr (map ob_id (take n (unpublished d)))"
    for w using assms(2,4)
    by (intro publish_batch_ok) (auto simp: text_headers_def unpublished_def dest: in_set_takeD)
  show ?thesis
    using publisher_turn_cases [OF assms(1,3,5)] ok
    by (auto simp: fetch_single marked_nil)
qed

lemma unpublished_marked:
  assumes "distinct (map ob_id (db_outbox d))"
  shows "unpublished (marked (map ob_id (take n (unpublished d))) d) = drop n (unpublished d)"
proof -
  let ?L = "unpublished d" and ?ids = "ob_id ` set (take n (unpublished d))"
  have "mset (map ob_id ?L) = mset (map ob_id (filter (\<lambda>r. ob_published_at r = None) (db_outbox d)))"
    by (simp add: unpublished_def)
  then have dist: "distinct (map ob_id ?L)"
    using assms by (metis distinct_map_filter mset_eq_imp_distinct_iff)
  have "filter (\<lambda>r. ob_published_at r = None) (update_where (\<lambda>r. ob_id r \<in> I)
        (\<lambda>r. r\<lparr>ob_published_at := Some t\<rparr>) rows) =
      filter (\<lambda>r. ob_id r \<notin> I) (filter (\<lambda>r. ob_published_at r = None) rows)" for I t rows
    by (induction rows) auto
  then have "filter (\<lambda>r. ob_published_at r = None) (db_outbox (marked (map ob_id (take n ?L)) d)) =
      filter (\<lambda>r. ob_id r \<notin> ?ids) (filter (\<lambda>r. ob_published_at r = None) (db_outbox d))"
    by (simp add: marked_def)
  then have "unpublished (marked (map ob_id (take n ?L)) d) =
      sort_key ob_created_at (filter (\<lambda>r. ob_id r \<notin> ?ids) (filter (\<lambda>r. ob_published_at r = None) (db_outbox d)))"
    by (simp add: unpublished_def)
  also have "\<dots> = filter (\<lambda>r. ob_id r \<notin> ?ids) ?L"
    by (simp only: unpublished_def filter_sort)
  also have "\<dots> = filter (\<lambda>r. ob_id r \<notin> ?ids) (take n ?L @ drop n ?L)" by simp
  also have "\<dots> = drop n ?L"
  proof -
    have "ob_id ` set (take n ?L) \<inter> ob_id ` set (drop n ?L) = {}"
      using dist by (metis append_take_drop_id distinct_append list.set_map map_append)
    then have "filter (\<lambda>r. ob_id r \<notin> ?ids) (drop n ?L) = drop n ?L"
      by (intro filter_True) blast
    then show ?thesis by (simp only: filter_append) (auto simp: filter_empty_conv)
  qed
  finally show ?thesis .
qed

lemma outbox_turns:
  assumes "documented_client kf sent" "available_client kf" "db_deferred d = []" "text_headers d"
    "distinct (map ob_id (db_outbox d))"
    "(publisher_turn (\<lambda>_. False) n kf ^^ j) (d, k) = (d', k')"
  shows "sent k' = sent k @ map message_of (take (j * n) (unpublished d)) \<and>
    unpublished d' = drop (j * n) (unpublished d) \<and> db_deferred d' = [] \<and> text_headers d' \<and>
    distinct (map ob_id (db_outbox d'))"
  using assms(6)
proof (induction j arbitrary: d' k')
  case 0
  with assms show ?case by simp
next
  case (Suc j)
  obtain d1 k1 where st: "(publisher_turn (\<lambda>_. False) n kf ^^ j) (d, k) = (d1, k1)" by fastforce
  note IH = Suc.IH [OF st]
  from st Suc.prems have turn: "publisher_turn (\<lambda>_. False) n kf (d1, k1) = (d', k')" by simp
  from publisher_turn_single [OF assms(1,2) _ _ turn] IH
  have run: "sent k' = sent k1 @ map message_of (take n (unpublished d1))"
    "d' = marked (map ob_id (take n (unpublished d1))) d1" by auto
  have hdr: "text_headers d'" using IH run(2)
    by (auto simp: text_headers_def marked_def set_update_where event_header_def split: option.splits)
  have dist: "distinct (map ob_id (db_outbox d'))" using IH run(2)
    by (simp add: marked_def map_update_where)
  have "unpublished d' = drop n (unpublished d1)"
    unfolding run(2) using IH by (intro unpublished_marked) simp
  moreover have "take (j * n) L @ take n (drop (j * n) L) = take (Suc j * n) L" for L :: "outbox_row list"
    by (simp add: take_add [symmetric] add.commute)
  ultimately show ?case using IH run hdr dist
    by (simp add: add.commute map_append [symmetric] del: map_append)
qed

definition published_sent :: "('k \<Rightarrow> kafka_message list) \<Rightarrow> db \<Rightarrow> 'k \<Rightarrow> bool" where
  "published_sent sent d k \<longleftrightarrow> (\<forall>r \<in> set (db_outbox d). ob_published_at r \<noteq> None \<longrightarrow>
     message_of r \<in> set (sent k))"

lemma publisher_turn_sent:
  assumes "documented_client kf sent" "db_deferred d = []" "distinct (map ob_id (db_outbox d))"
    "published_sent sent d k" "publisher_turn locked n kf (d, k) = (d', k')"
  shows "published_sent sent d' k'"
proof -
  let ?batch = "fetch_unpublished_batch locked n d"
  from publisher_turn_cases [OF assms(1,2,5)] obtain sofar where
    sent: "sent k' = sent k @ map message_of sofar" and
    alt: "d' = d \<or> sofar = ?batch \<and> d' = marked (map ob_id ?batch) d" by blast
  from alt show ?thesis
  proof
    assume "d' = d"
    then show ?thesis using assms(4) sent by (auto simp: published_sent_def)
  next
    assume m: "sofar = ?batch \<and> d' = marked (map ob_id ?batch) d"
    have batch: "set ?batch \<subseteq> set (db_outbox d)"
      by (auto simp: fetch_unpublished_batch_def dest: in_set_takeD)
    have same: "r = q" if "r \<in> set (db_outbox d)" "q \<in> set ?batch" "ob_id r = ob_id q" for r q
      using assms(3) that batch by (auto simp: distinct_map inj_on_def)
    show ?thesis unfolding published_sent_def
    proof (intro ballI impI)
      fix r' assume r': "r' \<in> set (db_outbox d')" "ob_published_at r' \<noteq> None"
      then obtain r where r: "r \<in> set (db_outbox d)"
        "(ob_id r \<in> ob_id ` set ?batch \<and> r' = r\<lparr>ob_published_at := Some (db_now d)\<rparr>) \<or> r' = r"
        using m by (auto simp: marked_def set_update_where)
      show "message_of r' \<in> set (sent k')"
      proof (cases "r' = r")
        case True
        then show ?thesis using r r' assms(4) sent by (simp add: published_sent_def)
      next
        case False
        with r(2) have "message_of r' = message_of r" "ob_id r \<in> ob_id ` set ?batch" by auto
        moreover from this same [OF r(1)] have "r \<in> set ?batch" by auto
        ultimately show ?thesis using sent m by auto
      qed
    qed
  qed
qed

subsection \<open>What the consumer does\<close>

text \<open>An object that came over the wire can be stored as \<open>jsonb\<close>.\<close>

definition casts_objects :: "(message_value \<Rightarrow> pval option) \<Rightarrow> bool" where
  "casts_objects jsonb \<longleftrightarrow> (\<forall>event. jsonb (Json (PObj event)) = Some (PObj event))"

definition dead_lettered :: "raw_message \<Rightarrow> db \<Rightarrow> bool" where
  "dead_lettered m d \<longleftrightarrow> (\<exists>r \<in> set (db_dead_letters d). dl_topic r = rm_topic m \<and>
     dl_event_key r = rm_key m \<and> Json (dl_payload r) = rm_value m)"

lemma dead_lettered_evolves: "dead_lettered m d \<Longrightarrow> evolves d d' \<Longrightarrow> dead_lettered m d'"
  by (auto simp: dead_lettered_def evolves_def grows_def prefix_def bex_Un)

lemma dlq_keeps_object:
  assumes "casts_objects jsonb" "rm_value m = Json (PObj event)" "ledger_committed d"
  shows "dead_lettered m (send_to_dlq jsonb g m err d)"
proof -
  let ?row = "\<lparr>dl_id = db_next_uuid d, dl_service_name = g, dl_topic = rm_topic m,
      dl_event_key = rm_key m, dl_payload = PObj event, dl_error_message = err,
      dl_created_at = db_now d, dl_retry_count = 0\<rparr>"
  let ?d = "d\<lparr>db_next_uuid := Suc (db_next_uuid d), db_dead_letters := db_dead_letters d @ [?row]\<rparr>"
  have "commit ?d = Inr ((), ?d)"
    using assms(3) by (simp add: commit_Inr ledger_committed_def)
  then have "send_to_dlq jsonb g m err d = ?d"
    using assms(1,2) by (simp add: send_to_dlq_def state_after_def with_connection_def
        insert_dead_letter_def fresh_uuid_def casts_objects_def run_simps)
  then show ?thesis using assms(2) by (simp add: dead_lettered_def)
qed

lemma send_to_dlq_committed:
  assumes "ledger_committed d"
  shows "ledger_committed (send_to_dlq jsonb g m err d)"
  unfolding send_to_dlq_def
  using assms by (intro state_after_committed) (auto intro!: evolving)

text \<open>
  One message: its offset is committed whatever happens, the ledger stays committed, and its
  payload is handled or stored.
\<close>

definition accounted :: "(payload \<Rightarrow> unit ccp) \<Rightarrow> raw_message \<Rightarrow> db \<Rightarrow> db \<Rightarrow> bool" where
  "accounted handler m d d' \<longleftrightarrow> dead_lettered m d' \<or>
     (\<exists>event d1 d2. rm_value m = Json (PObj event) \<and> evolves d d1 \<and>
        handler event d1 = Inr ((), d2) \<and> evolves d2 d')"

lemma accounted_evolves: "accounted handler m d d' \<Longrightarrow> evolves d' d'' \<Longrightarrow> accounted handler m d d''"
  unfolding accounted_def by (meson dead_lettered_evolves ev.trans)

lemma accounted_later: "evolves d e \<Longrightarrow> accounted handler m e d' \<Longrightarrow> accounted handler m d d'"
  unfolding accounted_def by (meson ev.trans)

locale message_handler =
  fixes handler :: "payload \<Rightarrow> unit ccp"
  assumes handler_evolves: "across evolves (handler event)"
    and handler_commits: "ledger_wf d \<Longrightarrow> handler event d = Inr ((), d') \<Longrightarrow> ledger_committed d'"
begin

lemma poll_step_message:
  assumes "casts_objects jsonb" "ledger_committed d"
    "poll_step jsonb g (on_object handler) (d, offsets) (Polled m) = (d', offsets')"
  shows "offsets' = offsets @ [m]" "ledger_committed d'" "evolves d d'"
    "rm_value m = Json (PObj event) \<Longrightarrow> accounted handler m d d'"
proof -
  have dlq: "evolves d (send_to_dlq jsonb g m err d)" "ledger_committed (send_to_dlq jsonb g m err d)" for err
    by (rule evolves_send_to_dlq) (rule send_to_dlq_committed [OF assms(2)])
  have "offsets' = offsets @ [m] \<and> ledger_committed d' \<and> evolves d d' \<and>
     (\<forall>event. rm_value m = Json (PObj event) \<longrightarrow> accounted handler m d d')"
  proof (cases "\<exists>event. rm_value m = Json (PObj event)")
    case False
    then have "offsets' = offsets @ [m] \<and> (\<exists>err. d' = send_to_dlq jsonb g m err d)"
      using assms(3)
      by (auto simp: poll_step_def on_object_def run_simps split: message_value.splits pval.splits)
    with False dlq show ?thesis by auto
  next
    case True
    then obtain event where event: "rm_value m = Json (PObj event)" by blast
    show ?thesis
    proof (cases "handler event d")
      case (Inl e)
      with assms(3) event have "offsets' = offsets @ [m]" "d' = send_to_dlq jsonb g m (exn_str e) d"
        by (simp_all add: poll_step_def on_object_def)
      then show ?thesis using dlq dlq_keeps_object [OF assms(1) event assms(2)]
        by (simp add: accounted_def)
    next
      case (Inr r)
      then obtain d2 where d2: "handler event d = Inr ((), d2)" by (cases r) auto
      with assms(3) event have "offsets' = offsets @ [m]" "d' = d2"
        by (simp_all add: poll_step_def on_object_def)
      moreover have "ledger_committed d2" using handler_commits [OF _ d2] assms(2)
        by (simp add: ledger_committed_def)
      moreover have "evolves d d2" using acrossD [OF handler_evolves d2] .
      moreover have "accounted handler m d d2"
        unfolding accounted_def using event d2 ev.refl by blast
      ultimately show ?thesis by simp
    qed
  qed
  then show "offsets' = offsets @ [m]" "ledger_committed d'" "evolves d d'"
    "rm_value m = Json (PObj event) \<Longrightarrow> accounted handler m d d'" by auto
qed

lemma poll_loop_messages:
  assumes "casts_objects jsonb" "ledger_committed d"
    "consumer_poll_loop jsonb g (on_object handler) polls (d, offsets) = (d', offsets')"
  shows "offsets' = offsets @ [m. Polled m \<leftarrow> polls] \<and> ledger_committed d' \<and> evolves d d' \<and>
    (\<forall>m event. Polled m \<in> set polls \<longrightarrow> rm_value m = Json (PObj event) \<longrightarrow> accounted handler m d d')"
  using assms(2,3)
proof (induction polls arbitrary: d offsets)
  case Nil
  then show ?case by (simp add: consumer_poll_loop_def)
next
  case (Cons p polls)
  obtain d1 offsets1 where one: "poll_step jsonb g (on_object handler) (d, offsets) p = (d1, offsets1)"
    by fastforce
  with Cons.prems have rest: "consumer_poll_loop jsonb g (on_object handler) polls (d1, offsets1) =
      (d', offsets')" by (simp add: consumer_poll_loop_def)
  show ?case
  proof (cases p)
    case (Polled m)
    note step = poll_step_message [OF assms(1) Cons.prems(1) one [unfolded Polled]]
    note IH = Cons.IH [OF step(2) rest]
    have "accounted handler m d d'" if "rm_value m = Json (PObj event)" for event
      using step(4) [OF that] IH accounted_evolves by blast
    moreover have "accounted handler m' d d'" if "accounted handler m' d1 d'" for m'
      using step(3) that by (rule accounted_later)
    ultimately show ?thesis using IH step Polled by (auto intro: ev.trans)
  qed (use one Cons.IH [OF _ rest] Cons.prems(1) in \<open>auto simp: poll_step_def\<close>)
qed

end

subsection \<open>Properties of the publisher\<close>

text \<open>A client that queues every message and delivers none; \<open>flush\<close> reports the queue.\<close>

definition stuck_client :: "kafka_message list kafka" where
  "stuck_client = \<lparr>kf_produce = (\<lambda>m s. Inr ((), s @ [m])), kf_poll = return_tx (),
     kf_flush = (\<lambda>s. Inr (length s, s))\<rparr>"

lemma stuck_client_ok: "documented_client stuck_client (\<lambda>s. s)" "available_client stuck_client"
  by (auto simp: documented_client_def available_client_def stuck_client_def return_tx_def)

definition example_event :: "uuid \<Rightarrow> int \<Rightarrow> outbox_row" where
  "example_event i t = \<lparr>ob_id = i, ob_aggregate_type = ''trade'', ob_aggregate_id = i,
     ob_event_type = ''trade.novated'', ob_topic = ''trade.novated'',
     ob_payload = [(''event_id'', PId (i + 10))], ob_trace_id = None, ob_created_at = t,
     ob_published_at = None\<rparr>"

definition outbox_db :: db where
  "outbox_db = (empty_db migrated_schema)\<lparr>db_outbox := [example_event 2 30, example_event 3 20],
     db_now := 40, db_next_uuid := 4\<rparr>"

lemmas outbox_example_defs = outbox_db_def empty_db_def example_event_def

lemma outbox_db_ok: "db_deferred outbox_db = []" "text_headers outbox_db"
  "distinct (map ob_id (db_outbox outbox_db))"
  "unpublished outbox_db = [example_event 3 20, example_event 2 30]"
  by (simp_all add: outbox_example_defs text_headers_def event_header_def pget_def unpublished_def)

text \<open>C11. The outbox drains in order: as long as the Kafka client raises no error, every turn of a
  single publisher hands over the next \<open>n\<close> unpublished events in the order of their creation and
  marks exactly them, so \<open>j\<close> turns publish the first \<open>j * n\<close> events and leave the rest.\<close>

theorem outbox_drains_in_order:
  assumes "documented_client kf sent" "available_client kf" "db_deferred d = []" "text_headers d"
    "distinct (map ob_id (db_outbox d))"
    "(publisher_turn (\<lambda>_. False) n kf ^^ j) (d, k) = (d', k')"
  shows "sent k' = sent k @ map message_of (take (j * n) (unpublished d)) \<and>
    snd (outbox_metrics d') = snd (outbox_metrics d) - j * n"
proof -
  have "snd (outbox_metrics e) = length (unpublished e)" for e
    by (simp add: outbox_metrics_def unpublished_def)
  then show ?thesis using outbox_turns [OF assms] by simp
qed

theorem outbox_drains_in_order_witness:
  "map km_key (snd ((publisher_turn (\<lambda>_. False) 1 stuck_client ^^ 2) (outbox_db, []))) = [PId 3, PId 2]"
proof -
  obtain d' k' where run: "(publisher_turn (\<lambda>_. False) 1 stuck_client ^^ 2) (outbox_db, []) = (d', k')"
    by fastforce
  from outbox_drains_in_order [OF stuck_client_ok outbox_db_ok(1-3) run]
  have "map km_key k' = [PId 3, PId 2]"
    by (simp add: outbox_db_ok(4) message_of_def) (simp add: example_event_def)
  then show ?thesis unfolding run by simp
qed



text \<open>
  The publisher does not look at what \<open>flush\<close> returns: with the stuck client both events are
  marked as published while both are still queued.
\<close>

lemma flush_result_ignored:
  "outbox_metrics (fst (publisher_turn (\<lambda>_. False) 5 stuck_client (outbox_db, []))) = (2, 0)"
  "\<exists>k. kf_flush stuck_client (snd (publisher_turn (\<lambda>_. False) 5 stuck_client (outbox_db, []))) = Inr (2, k)"
proof -
  obtain d' k' where run: "publisher_turn (\<lambda>_. False) 5 stuck_client (outbox_db, []) = (d', k')"
    by fastforce
  from publisher_turn_single [OF stuck_client_ok outbox_db_ok(1,2) run]
  have "length k' = 2" "d' = marked [3, 2] outbox_db"
    by (simp_all add: outbox_db_ok(4)) (simp add: example_event_def)
  with run have "outbox_metrics d' = (2, 0)" "\<exists>k. kf_flush stuck_client k' = Inr (2, k)"
    using \<open>length k' = 2\<close>
    by (simp_all add: outbox_metrics_def marked_def outbox_example_defs stuck_client_def)
  then show "outbox_metrics (fst (publisher_turn (\<lambda>_. False) 5 stuck_client (outbox_db, []))) = (2, 0)"
    "\<exists>k. kf_flush stuck_client (snd (publisher_turn (\<lambda>_. False) 5 stuck_client (outbox_db, []))) = Inr (2, k)"
    unfolding run by simp_all
qed

text \<open>Bytes that are not JSON and that \<open>jsonb\<close> refuses are dropped with their offset committed.\<close>

lemma garbled_message_dropped:
  assumes "rm_value m = Garbled b" "jsonb (Garbled b) = None"
  shows "poll_step jsonb g callback (d, offsets) (Polled m) = (d, offsets @ [m])"
  using assms by (simp add: poll_step_def send_to_dlq_def state_after_def with_connection_def
      insert_dead_letter_def run_simps)

end
