(* ===== verification/Netting.thy ===== *)
theory Netting
  imports Novation
begin

section \<open>The netting engine\<close>

text \<open>
  \<open>services/netting-engine/src/netting_engine/\<close>: \<open>netting.py\<close>, the consumer of
  \<open>netting.cycle.triggered\<close> and the trigger endpoint of \<open>main.py\<close>. A cycle aggregates the open
  legs, nets them per member and instrument, writes one obligation and one settlement
  instruction per net position that is not flat, and marks the legs \<open>netted\<close>. A dict that is
  keyed by a pair is a list of pairs in insertion order.
\<close>

subsection \<open>Positions and obligations\<close>

record position =
  ps_member_id :: uuid
  ps_instrument_id :: uuid
  ps_side :: string
  ps_total_quantity :: rat
  ps_total_value :: rat
  ps_latest_price :: "rat option"
  ps_settlement_type :: "string option"

record net_group =
  g_buy_qty :: rat
  g_sell_qty :: rat
  g_latest_price :: rat
  g_settlement_type :: string

record net_obligation =
  ob_member_id :: uuid
  ob_instrument_id :: uuid
  ob_net_quantity :: rat
  ob_net_amount :: rat
  ob_settlement_amount :: rat
  ob_settlement_type :: string

definition position_key :: "position \<Rightarrow> uuid \<times> uuid" where
  "position_key p = (ps_member_id p, ps_instrument_id p)"

definition new_group :: "position \<Rightarrow> net_group" where
  "new_group p = \<lparr>g_buy_qty = 0, g_sell_qty = 0,
     g_latest_price = (case ps_latest_price p of Some x \<Rightarrow> x | None \<Rightarrow> 0),
     g_settlement_type = (case ps_settlement_type p of Some s \<Rightarrow> s
        | None \<Rightarrow> SettlementType_value CASH)\<rparr>"

definition add_to_group :: "position \<Rightarrow> net_group \<Rightarrow> net_group" where
  "add_to_group p g =
     (let g' = (if ps_side p = ''BUY''
                then g\<lparr>g_buy_qty := dadd (g_buy_qty g) (ps_total_quantity p)\<rparr>
                else g\<lparr>g_sell_qty := dadd (g_sell_qty g) (ps_total_quantity p)\<rparr>)
      in case ps_latest_price p of None \<Rightarrow> g' | Some x \<Rightarrow> g'\<lparr>g_latest_price := x\<rparr>)"

type_synonym grouped = "((uuid \<times> uuid) \<times> net_group) list"

definition add_position :: "grouped \<Rightarrow> position \<Rightarrow> grouped" where
  "add_position gs p =
     (let k = position_key p;
          gs' = (if k \<in> set (map fst gs) then gs else gs @ [(k, new_group p)])
      in map (\<lambda>(k', g). (k', if k' = k then add_to_group p g else g)) gs')"

definition group_positions :: "position list \<Rightarrow> grouped" where
  "group_positions ps = foldl add_position [] ps"

definition obligation_of :: "(uuid \<times> uuid) \<times> net_group \<Rightarrow> net_obligation option" where
  "obligation_of kg = (case kg of ((m, i), g) \<Rightarrow>
     let net_qty = dsub (g_buy_qty g) (g_sell_qty g) in
     if net_qty = 0 then None
     else let net_amount = dmul net_qty (g_latest_price g) in
          Some \<lparr>ob_member_id = m, ob_instrument_id = i, ob_net_quantity = net_qty,
                ob_net_amount = net_amount, ob_settlement_amount = dabs net_amount,
                ob_settlement_type = g_settlement_type g\<rparr>)"

definition calculate_net_obligations :: "position list \<Rightarrow> net_obligation list" where
  "calculate_net_obligations ps = List.map_filter obligation_of (group_positions ps)"

subsection \<open>Reading the book\<close>

definition included :: "int \<Rightarrow> novated_row \<Rightarrow> bool" where
  "included cut_off l \<longleftrightarrow> n_status l = ''open'' \<and> n_novated_at l \<le> cut_off"

definition leg_key :: "novated_row \<Rightarrow> uuid \<times> uuid \<times> string" where
  "leg_key l = (n_member_id l, n_instrument_id l, n_side l)"

definition position_of_group :: "(uuid \<times> uuid \<times> string) \<times> novated_row list \<Rightarrow> position" where
  "position_of_group kg = (case kg of ((m, i, side), ls) \<Rightarrow>
     \<lparr>ps_member_id = m, ps_instrument_id = i, ps_side = side,
      ps_total_quantity = (\<Sum>l\<leftarrow>ls. n_quantity l),
      ps_total_value = (\<Sum>l\<leftarrow>ls. n_quantity l * n_price l),
      ps_latest_price = None, ps_settlement_type = None\<rparr>)"

definition fetch_open_positions :: "int \<Rightarrow> db \<Rightarrow> position list" where
  "fetch_open_positions cut_off d =
     map position_of_group (group_by leg_key (filter (included cut_off) (db_novated d)))"

text \<open>
  \<open>ORDER BY received_at DESC LIMIT 1\<close>: of several prices received at the same instant the
  model takes the first inserted.
\<close>

definition latest_price :: "uuid \<Rightarrow> db \<Rightarrow> rat option" where
  "latest_price i d =
     map_option pf_price (foldl (\<lambda>best r. case best of None \<Rightarrow> Some r
        | Some b \<Rightarrow> if pf_received_at b < pf_received_at r then Some r else Some b) None
       (filter (\<lambda>r. pf_instrument_id r = i) (db_prices d)))"

definition price_map :: "db \<Rightarrow> uuid \<Rightarrow> (rat \<times> string) option" where
  "price_map d i =
     map_option (\<lambda>r. (case latest_price i d of Some x \<Rightarrow> x | None \<Rightarrow> 0, i_settlement_type r))
       (fetchone (\<lambda>r. i_id r = i) (db_instruments d))"

definition enrich_position :: "db \<Rightarrow> position \<Rightarrow> position" where
  "enrich_position d p =
     (case price_map d (ps_instrument_id p) of
        Some (price, stype) \<Rightarrow>
          p\<lparr>ps_latest_price := Some price, ps_settlement_type := Some stype\<rparr>
      | None \<Rightarrow>
          p\<lparr>ps_latest_price := Some 0, ps_settlement_type := Some (SettlementType_value CASH)\<rparr>)"

definition enrich_with_prices :: "position list \<Rightarrow> db \<Rightarrow> position list" where
  "enrich_with_prices ps d = map (enrich_position d) ps"

subsection \<open>Writing the result of a cycle\<close>

definition get_ccp_member_id :: "uuid ccp" where
  "get_ccp_member_id =
     bind_tx (gets_tx find_ccp) (\<lambda>row.
     case row of None \<Rightarrow> raise_tx (RuntimeError ''CCP House Account not found in members table'')
     | Some m \<Rightarrow> return_tx (m_id m))"

definition instruction_parties :: "uuid \<Rightarrow> net_obligation \<Rightarrow> uuid \<times> uuid" where
  "instruction_parties ccp obl =
     (if 0 < ob_net_amount obl then (ob_member_id obl, ccp) else (ccp, ob_member_id obl))"

definition insert_obligation_and_instruction :: "uuid \<Rightarrow> uuid \<Rightarrow> net_obligation \<Rightarrow> uuid ccp" where
  "insert_obligation_and_instruction cycle ccp obl =
     bind_tx (insert_obligation cycle (ob_member_id obl) (ob_instrument_id obl)
        (ob_net_quantity obl) (ob_net_amount obl) (ob_settlement_amount obl)) (\<lambda>_.
     case instruction_parties ccp obl of (from_member, to_member) \<Rightarrow>
     insert_instruction cycle from_member to_member (ob_instrument_id obl)
        (dabs (ob_net_quantity obl)) (ob_settlement_amount obl) (ob_settlement_type obl)
        (SettlementInstructionStatus_value SI_PENDING))"

definition insert_obligations_and_instructions ::
    "uuid \<Rightarrow> net_obligation list \<Rightarrow> uuid \<Rightarrow> uuid list ccp" where
  "insert_obligations_and_instructions cycle obligations ccp =
     for_tx (insert_obligation_and_instruction cycle ccp) obligations"

definition mark_trades_closed :: "int \<Rightarrow> nat ccp" where
  "mark_trades_closed cut_off = update_novated_status (included cut_off) ''netted''"

definition record_state_transition ::
    "uuid \<Rightarrow> string \<Rightarrow> string \<Rightarrow> string \<Rightarrow> trace_context option \<Rightarrow> unit ccp" where
  "record_state_transition eid etype from_st to_st trace =
     insert_transition
       \<lparr>st_entity_type = etype, st_entity_id = eid, st_from_status = Some from_st,
        st_to_status = to_st, st_reason = None,
        st_transitioned_by = (case trace of Some t \<Rightarrow> ''netting-engine:'' @ tr_actor t
           | None \<Rightarrow> ''netting-engine''),
        st_trace_id = map_option tr_trace_id trace, st_actor = map_option tr_actor trace\<rparr>"

record netting_result =
  nr_cycle_id :: uuid
  nr_obligation_count :: nat
  nr_instruction_count :: nat
  nr_trades_netted :: nat

definition run_netting_cycle ::
    "NettingCycleType \<Rightarrow> int \<Rightarrow> trace_context option \<Rightarrow> netting_result ccp" where
  "run_netting_cycle cycle_type cut_off tr =
     bind_tx (case tr of None \<Rightarrow> new_system ''netting-engine'' | Some t \<Rightarrow> return_tx t) (\<lambda>trace.
     bind_tx (insert_cycle (NettingCycleType_value cycle_type)
        (NettingCycleStatus_value NC_INITIATED) cut_off) (\<lambda>cycle.
     bind_tx (record_state_transition cycle (StateEntityType_value SE_NETTING_CYCLE)
        (NettingCycleStatus_value NC_INITIATED) (NettingCycleStatus_value NC_CALCULATING)
        (Some trace)) (\<lambda>_.
     bind_tx (update_cycle_status cycle (NettingCycleStatus_value NC_CALCULATING)) (\<lambda>_.
     bind_tx get_ccp_member_id (\<lambda>ccp.
     bind_tx (gets_tx (fetch_open_positions cut_off)) (\<lambda>raw.
     bind_tx (gets_tx (enrich_with_prices raw)) (\<lambda>positions.
     let obligations = calculate_net_obligations positions in
     bind_tx (insert_obligations_and_instructions cycle obligations ccp) (\<lambda>instruction_ids.
     bind_tx (mark_trades_closed cut_off) (\<lambda>trades_netted.
     bind_tx (record_state_transition cycle (StateEntityType_value SE_NETTING_CYCLE)
        (NettingCycleStatus_value NC_CALCULATING) (NettingCycleStatus_value NC_CONFIRMED)
        (Some trace)) (\<lambda>_.
     bind_tx (update_cycle_status cycle (NettingCycleStatus_value NC_CONFIRMED)) (\<lambda>_.
     bind_tx (insert_outbox_event ''netting_cycle'' cycle ''netting.cycle.completed''
        ''netting.cycle.completed''
        [(''cycle_id'', PId cycle), (''cycle_type'', PStr (NettingCycleType_value cycle_type)),
         (''obligation_count'', PNat (length obligations)), (''trades_netted'', PNat trades_netted)]
        (Some (tr_trace_id trace))) (\<lambda>_.
     bind_tx (for_tx (\<lambda>instr. insert_outbox_event ''settlement_instruction'' instr
        ''settlement.instruction.created'' ''settlement.instructions.created''
        [(''instruction_id'', PId instr), (''cycle_id'', PId cycle)]
        (Some (tr_trace_id trace))) instruction_ids) (\<lambda>_.
     return_tx \<lparr>nr_cycle_id = cycle, nr_obligation_count = length obligations,
        nr_instruction_count = length instruction_ids,
        nr_trades_netted = trades_netted\<rparr>)))))))))))))"

subsection \<open>The consumer and the endpoint\<close>

text \<open>\<open>datetime.fromisoformat(s)\<close> when the field is there and not empty, the clock otherwise.\<close>

definition parse_cut_off :: "int \<Rightarrow> payload \<Rightarrow> int ccp" where
  "parse_cut_off now value =
     (case pget value ''cut_off_time'' of
        None \<Rightarrow> return_tx now
      | Some PNone \<Rightarrow> return_tx now
      | Some (PStr []) \<Rightarrow> return_tx now
      | Some (PTime t) \<Rightarrow> return_tx t
      | Some _ \<Rightarrow> raise_tx (ValueError ''Invalid isoformat string''))"

definition handle_netting_trigger :: "int \<Rightarrow> payload \<Rightarrow> unit ccp" where
  "handle_netting_trigger now value =
     bind_tx (from_kafka_payload value) (\<lambda>trace.
     let cycle_type_str = (case pget_str value ''cycle_type'' of Some s \<Rightarrow> s
           | None \<Rightarrow> NettingCycleType_value SCHEDULED) in
     case enum_of NettingCycleType_value NettingCycleType_members cycle_type_str of
       None \<Rightarrow> raise_tx (ValueError cycle_type_str)
     | Some cycle_type \<Rightarrow>
         bind_tx (parse_cut_off now value) (\<lambda>cut_off.
         handle_once ''netting-engine'' (pget_id value ''event_id'')
           (bind_tx (run_netting_cycle cycle_type cut_off (Some trace)) (\<lambda>_. return_tx ()))))"

text \<open>
  The endpoint's connection has run no statement before, so the \<open>conn.transaction()\<close> of the
  cycle is the outermost block and commits at its end.
\<close>

definition trigger_netting :: "int \<Rightarrow> int option \<Rightarrow> string option \<Rightarrow> netting_result ccp" where
  "trigger_netting now cut_off cycle_type =
     (let ct = (case cycle_type of Some s \<Rightarrow> s | None \<Rightarrow> ''ad_hoc'') in
      case enum_of NettingCycleType_value NettingCycleType_members ct of
        None \<Rightarrow> raise_tx (HTTPException 400)
      | Some netting_type \<Rightarrow>
          with_connection (run_netting_cycle netting_type
            (case cut_off of Some t \<Rightarrow> t | None \<Rightarrow> now) None))"

text \<open>\<open>GET /netting/cycles\<close> and \<open>GET /netting/cycles/{cycle_id}/obligations\<close>: the rows they print.\<close>

definition list_cycles :: "int \<Rightarrow> cycle_row list ccp" where
  "list_cycles limit = select_limit limit (\<lambda>d. order_desc nc_created_at (db_cycles d))"

definition get_obligations :: "uuid \<Rightarrow> db \<Rightarrow> obligation_row list" where
  "get_obligations cycle_id d =
     sort_key no_member_id (sort_key no_instrument_id
       (filter (\<lambda>r. no_netting_cycle_id r = cycle_id) (db_obligations d)))"

subsection \<open>Preservation\<close>

lemma ev_netting_parts [evolving]:
  "across evolves get_ccp_member_id" "across evolves (mark_trades_closed c)"
  "across evolves (record_state_transition e t f s tr)"
  "across evolves (insert_obligation_and_instruction cy ccp obl)"
  "across evolves (insert_obligations_and_instructions cy obls ccp)"
  unfolding get_ccp_member_id_def mark_trades_closed_def record_state_transition_def
    insert_obligation_and_instruction_def insert_obligations_and_instructions_def
  by (auto intro!: evolving)

lemma ev_run_netting_cycle [evolving]: "across evolves (run_netting_cycle ct co tr)"
  unfolding run_netting_cycle_def Let_def by (auto intro!: evolving)

lemma ev_parse_cut_off [evolving]: "across evolves (parse_cut_off now v)"
  unfolding parse_cut_off_def
  by (auto intro!: evolving split: option.split pval.split list.split)

lemma ev_handle_netting_trigger [evolving]: "across evolves (handle_netting_trigger now v)"
  unfolding handle_netting_trigger_def Let_def by (auto intro!: evolving)

lemma ev_trigger_netting [evolving]: "across evolves (trigger_netting now co ct)"
  unfolding trigger_netting_def Let_def by (auto intro!: evolving split: option.split)

subsection \<open>Exact sums\<close>

lemma sum_list_abs_le: "\<bar>sum_list xs\<bar> \<le> (\<Sum>x\<leftarrow>xs. \<bar>x :: rat\<bar>)"
  by (induction xs) auto

lemma sum_abs_nonneg: "0 \<le> (\<Sum>x\<leftarrow>xs. \<bar>f x :: rat\<bar>)"
  by (induction xs) auto

lemma dsum_exact:
  assumes "\<And>x. x \<in> set xs \<Longrightarrow> num_round x = x" "(\<Sum>x\<leftarrow>xs. \<bar>x\<bar>) < 10 ^ 20"
  shows "dsum xs = sum_list xs"
proof -
  have "dec_round (0 + sum_list ys) = 0 + sum_list ys" if "prefix ys xs" for ys
  proof -
    from that obtain zs where xs: "xs = ys @ zs" by (auto simp: prefix_def)
    have "\<bar>sum_list ys\<bar> \<le> (\<Sum>y\<leftarrow>ys. \<bar>y\<bar>)" by (rule sum_list_abs_le)
    also have "\<dots> < 10 ^ 20" using assms(2) sum_abs_nonneg [of "\<lambda>x. x" zs] by (simp add: xs)
    finally have "num_valued (sum_list ys)"
      using assms(1) num_valued_sum [of ys "\<lambda>x. x"] by (simp add: num_valued_def num_fits_def xs)
    then show ?thesis by (simp add: num_valued_dec)
  qed
  from foldl_dadd_exact [of xs 0, OF this] show ?thesis by (simp add: dsum_def)
qed

subsection \<open>Grouping\<close>

lemma group_by_filter_sum:
  fixes f :: "'r \<Rightarrow> 'a::comm_monoid_add"
  shows "(\<Sum>(k, g)\<leftarrow>filter (\<lambda>kg. P (fst kg)) (group_by key rows). \<Sum>r\<leftarrow>g. f r) =
         (\<Sum>r\<leftarrow>filter (\<lambda>r. P (key r)) rows. f r)"
proof -
  let ?f = "\<lambda>r. if P (key r) then f r else 0"
  have "(\<Sum>r\<leftarrow>g. ?f r) = (if P k then \<Sum>r\<leftarrow>g. f r else 0)"
    if "(k, g) \<in> set (group_by key rows)" for k g
  proof -
    have "map ?f g = map (\<lambda>r. if P k then f r else 0) g"
      using group_by_member [OF that] by auto
    then have "sum_list (map ?f g) = sum_list (map (\<lambda>r. if P k then f r else 0) g)"
      by (rule arg_cong)
    also have "\<dots> = (if P k then \<Sum>r\<leftarrow>g. f r else 0)" by simp
    finally show ?thesis .
  qed
  then have "(\<Sum>(k, g)\<leftarrow>group_by key rows. \<Sum>r\<leftarrow>g. ?f r) =
      (\<Sum>kg\<leftarrow>group_by key rows. if P (fst kg) then \<Sum>r\<leftarrow>snd kg. f r else 0)"
    by (intro arg_cong [where f = sum_list] map_cong) auto
  then show ?thesis
    using group_by_sum [of ?f key rows] by (simp add: sum_list_filter_if case_prod_unfold)
qed

definition bought :: "position list \<Rightarrow> uuid \<times> uuid \<Rightarrow> rat" where
  "bought ps k = dsum (map ps_total_quantity
     (filter (\<lambda>p. position_key p = k \<and> ps_side p = ''BUY'') ps))"

definition sold :: "position list \<Rightarrow> uuid \<times> uuid \<Rightarrow> rat" where
  "sold ps k = dsum (map ps_total_quantity
     (filter (\<lambda>p. position_key p = k \<and> ps_side p \<noteq> ''BUY'') ps))"

lemma group_positions_snoc: "group_positions (ps @ [p]) = add_position (group_positions ps) p"
  by (simp add: group_positions_def)

lemma add_position_keys:
  "map fst (add_position gs p) =
     (if position_key p \<in> set (map fst gs) then map fst gs else map fst gs @ [position_key p])"
  by (auto simp: add_position_def Let_def comp_def case_prod_unfold)

lemma group_positions_keys:
  "distinct (map fst (group_positions ps)) \<and>
   set (map fst (group_positions ps)) = position_key ` set ps"
proof (induction ps rule: rev_induct)
  case Nil
  then show ?case by (simp add: group_positions_def)
next
  case (snoc p ps)
  then show ?case by (auto simp: group_positions_snoc add_position_keys simp del: set_map)
qed

lemma dsum_snoc: "dsum (xs @ [x]) = dadd (dsum xs) x"
  by (simp add: dsum_def)

lemma add_to_group_qty:
  "g_buy_qty (add_to_group p g) =
     (if ps_side p = ''BUY'' then dadd (g_buy_qty g) (ps_total_quantity p) else g_buy_qty g)"
  "g_sell_qty (add_to_group p g) =
     (if ps_side p = ''BUY'' then g_sell_qty g else dadd (g_sell_qty g) (ps_total_quantity p))"
  by (auto simp: add_to_group_def Let_def split: option.split)

lemma group_positions_qty:
  "(k, g) \<in> set (group_positions ps) \<Longrightarrow> g_buy_qty g = bought ps k \<and> g_sell_qty g = sold ps k"
proof (induction ps arbitrary: g rule: rev_induct)
  case Nil
  then show ?case by (simp add: group_positions_def)
next
  case (snoc p ps)
  let ?gs = "group_positions ps"
  have empty: "bought ps k = 0 \<and> sold ps k = 0" if "k \<notin> set (map fst ?gs)"
  proof -
    have "position_key p \<noteq> k" if "p \<in> set ps" for p
      using that \<open>k \<notin> set (map fst ?gs)\<close> group_positions_keys [of ps] by auto
    then have "filter (\<lambda>p. position_key p = k \<and> Q p) ps = []" for Q
      by (auto simp: filter_empty_conv)
    then show ?thesis by (simp add: bought_def sold_def dsum_def)
  qed
  show ?case
  proof (cases "k = position_key p")
    case False
    then have "(k, g) \<in> set ?gs"
      using snoc.prems by (auto simp: group_positions_snoc add_position_def Let_def split: if_splits)
    with snoc.IH False show ?thesis by (simp add: bought_def sold_def)
  next
    case True
    with snoc.prems obtain g0 where g0: "g = add_to_group p g0"
      "(k, g0) \<in> set ?gs \<or> (k \<notin> set (map fst ?gs) \<and> g0 = new_group p)"
      by (auto simp: group_positions_snoc add_position_def Let_def split: if_splits)
    then have "g_buy_qty g0 = bought ps k \<and> g_sell_qty g0 = sold ps k"
      using snoc.IH empty by (auto simp: new_group_def)
    with g0(1) True show ?thesis
      by (auto simp: bought_def sold_def add_to_group_qty dsum_snoc)
  qed
qed


definition net_quantity_of :: "position list \<Rightarrow> uuid \<times> uuid \<Rightarrow> rat" where
  "net_quantity_of ps k = dsub (bought ps k) (sold ps k)"

lemma obligations_map_filter:
  "calculate_net_obligations ps =
     map (the \<circ> obligation_of) (filter (\<lambda>kg. net_quantity_of ps (fst kg) \<noteq> 0) (group_positions ps))"
proof -
  have "filter (\<lambda>kg. obligation_of kg \<noteq> None) (group_positions ps) =
      filter (\<lambda>kg. net_quantity_of ps (fst kg) \<noteq> 0) (group_positions ps)"
    by (rule filter_cong)
      (auto simp: obligation_of_def net_quantity_of_def Let_def dest!: group_positions_qty)
  then show ?thesis
    by (simp add: calculate_net_obligations_def List.map_filter_def)
qed

lemma obligation_of_fields:
  assumes "(k, g) \<in> set (group_positions ps)" "net_quantity_of ps k \<noteq> 0"
  shows "ob_net_quantity (the (obligation_of (k, g))) = net_quantity_of ps k"
    "(ob_member_id (the (obligation_of (k, g))), ob_instrument_id (the (obligation_of (k, g)))) = k"
    "ob_net_amount (the (obligation_of (k, g))) = dmul (net_quantity_of ps k) (g_latest_price g)"
    "ob_settlement_amount (the (obligation_of (k, g))) =
       dabs (ob_net_amount (the (obligation_of (k, g))))"
  using assms group_positions_qty [OF assms(1)]
  by (auto simp: obligation_of_def net_quantity_of_def Let_def split: prod.split)

text \<open>The obligations of one instrument add up to its net quantities, flat positions included.\<close>

lemma obligations_instrument_sum:
  "(\<Sum>o'\<leftarrow>filter (\<lambda>o'. ob_instrument_id o' = i) (calculate_net_obligations ps). ob_net_quantity o') =
   (\<Sum>k\<leftarrow>map fst (group_positions ps). if snd k = i then net_quantity_of ps k else 0)"
proof -
  have "(\<Sum>o'\<leftarrow>filter (\<lambda>o'. ob_instrument_id o' = i)
        (map (the \<circ> obligation_of) (filter (\<lambda>kg. net_quantity_of ps (fst kg) \<noteq> 0) gs)).
        ob_net_quantity o') =
      (\<Sum>kg\<leftarrow>gs. if snd (fst kg) = i then net_quantity_of ps (fst kg) else 0)"
    if "set gs \<subseteq> set (group_positions ps)" for gs
    using that
  proof (induction gs)
    case (Cons kg gs)
    obtain k g where kg: "kg = (k, g)" by (cases kg)
    with Cons.prems have "(k, g) \<in> set (group_positions ps)" by auto
    from obligation_of_fields [OF this] Cons kg show ?case by (cases k) auto
  qed simp
  from this [of "group_positions ps"] show ?thesis
    by (simp add: obligations_map_filter comp_def)
qed


subsection \<open>From legs to net quantities\<close>

definition signed :: "novated_row list \<Rightarrow> uuid \<times> uuid \<Rightarrow> rat" where
  "signed ls k = (\<Sum>l\<leftarrow>filter (\<lambda>l. (n_member_id l, n_instrument_id l) = k) ls. leg_signed l)"

text \<open>
  The quantities are column values and their total stays below the bound of the column, so
  that no sum of them needs more than the 28 digits of a \<open>Decimal\<close>.
\<close>

definition legs_exact :: "novated_row list \<Rightarrow> bool" where
  "legs_exact ls \<longleftrightarrow> (\<forall>l \<in> set ls. num_round (n_quantity l) = n_quantity l) \<and>
     (\<Sum>l\<leftarrow>ls. \<bar>n_quantity l\<bar>) < 10 ^ 20"

lemma abs_sum_le: "\<bar>\<Sum>x\<leftarrow>xs. f x\<bar> \<le> (\<Sum>x\<leftarrow>xs. \<bar>f x :: rat\<bar>)"
  by (induction xs) auto

lemma abs_filter_le: "(\<Sum>x\<leftarrow>filter P xs. \<bar>f x :: rat\<bar>) \<le> (\<Sum>x\<leftarrow>xs. \<bar>f x\<bar>)"
  by (induction xs) auto

lemma dsum_groups:
  assumes "legs_exact ls"
  shows "dsum (map (\<lambda>kg. \<Sum>l\<leftarrow>snd kg. n_quantity l)
           (filter (\<lambda>kg. P (fst kg)) (group_by key ls))) =
         (\<Sum>l\<leftarrow>filter (\<lambda>l. P (key l)) ls. n_quantity l)"
proof -
  let ?gs = "filter (\<lambda>kg. P (fst kg)) (group_by key ls)"
  have grp: "set (snd kg) \<subseteq> set ls" if "kg \<in> set ?gs" for kg
    using that group_by_member [of "fst kg" "snd kg" key ls] by auto
  have "dsum (map (\<lambda>kg. \<Sum>l\<leftarrow>snd kg. n_quantity l) ?gs) =
      sum_list (map (\<lambda>kg. \<Sum>l\<leftarrow>snd kg. n_quantity l) ?gs)"
  proof (rule dsum_exact)
    fix x assume "x \<in> set (map (\<lambda>kg. \<Sum>l\<leftarrow>snd kg. n_quantity l) ?gs)"
    then show "num_round x = x"
      using assms grp unfolding legs_exact_def by (auto intro!: num_valued_sum)
  next
    have "(\<Sum>x\<leftarrow>map (\<lambda>kg. \<Sum>l\<leftarrow>snd kg. n_quantity l) ?gs. \<bar>x\<bar>) =
        (\<Sum>kg\<leftarrow>?gs. \<bar>\<Sum>l\<leftarrow>snd kg. n_quantity l\<bar>)" by (simp add: comp_def)
    also have "\<dots> \<le> (\<Sum>kg\<leftarrow>?gs. \<Sum>l\<leftarrow>snd kg. \<bar>n_quantity l\<bar>)"
      by (rule sum_list_mono) (rule abs_sum_le)
    also have "\<dots> = (\<Sum>l\<leftarrow>filter (\<lambda>l. P (key l)) ls. \<bar>n_quantity l\<bar>)"
      using group_by_filter_sum [where P = P and key = key and rows = ls and f = "\<lambda>l. \<bar>n_quantity l\<bar>"] by (simp add: case_prod_unfold)
    also have "\<dots> \<le> (\<Sum>l\<leftarrow>ls. \<bar>n_quantity l\<bar>)" by (rule abs_filter_le)
    also have "\<dots> < 10 ^ 20" using assms by (simp add: legs_exact_def)
    finally show "(\<Sum>x\<leftarrow>map (\<lambda>kg. \<Sum>l\<leftarrow>snd kg. n_quantity l) ?gs. \<bar>x\<bar>) < 10 ^ 20" .
  qed
  also have "\<dots> = (\<Sum>l\<leftarrow>filter (\<lambda>l. P (key l)) ls. n_quantity l)"
    using group_by_filter_sum [where P = P and key = key and rows = ls and f = n_quantity] by (simp add: case_prod_unfold)
  finally show ?thesis .
qed

lemma enriched_fields [simp]:
  "position_key (enrich_position d p) = position_key p"
  "ps_side (enrich_position d p) = ps_side p"
  "ps_total_quantity (enrich_position d p) = ps_total_quantity p"
  by (auto simp: enrich_position_def position_key_def split: option.split prod.split)

definition cycle_positions :: "int \<Rightarrow> db \<Rightarrow> position list" where
  "cycle_positions cut_off d = enrich_with_prices (fetch_open_positions cut_off d) d"

definition open_legs :: "int \<Rightarrow> db \<Rightarrow> novated_row list" where
  "open_legs cut_off d = filter (included cut_off) (db_novated d)"

lemma position_of_group_simps:
  "position_key (position_of_group kg) = (fst (fst kg), fst (snd (fst kg)))"
  "ps_side (position_of_group kg) = snd (snd (fst kg))"
  "ps_total_quantity (position_of_group kg) = (\<Sum>l\<leftarrow>snd kg. n_quantity l)"
  by (simp_all add: position_of_group_def position_key_def split: prod.split)

lemma cycle_positions_keys:
  "position_key ` set (cycle_positions c d) =
   (\<lambda>l. (n_member_id l, n_instrument_id l)) ` set (open_legs c d)"
proof -
  have "position_key ` set (cycle_positions c d) =
      (\<lambda>k. (fst k, fst (snd k))) ` set (map fst (group_by leg_key (open_legs c d)))"
    by (simp add: cycle_positions_def enrich_with_prices_def fetch_open_positions_def
        open_legs_def image_image position_of_group_simps)
  then show ?thesis unfolding group_by_keys by (simp add: image_image leg_key_def)
qed

lemma cycle_totals:
  assumes "legs_exact (open_legs c d)"
  shows "bought (cycle_positions c d) k = (\<Sum>l\<leftarrow>filter (\<lambda>l. (n_member_id l, n_instrument_id l) = k \<and>
           n_side l = ''BUY'') (open_legs c d). n_quantity l)"
    and "sold (cycle_positions c d) k = (\<Sum>l\<leftarrow>filter (\<lambda>l. (n_member_id l, n_instrument_id l) = k \<and>
           n_side l \<noteq> ''BUY'') (open_legs c d). n_quantity l)"
  using dsum_groups [OF assms, of "\<lambda>x. (fst x, fst (snd x)) = k \<and> snd (snd x) = ''BUY''" leg_key]
    dsum_groups [OF assms, of "\<lambda>x. (fst x, fst (snd x)) = k \<and> snd (snd x) \<noteq> ''BUY''" leg_key]
  by (simp_all add: bought_def sold_def cycle_positions_def enrich_with_prices_def
      fetch_open_positions_def open_legs_def filter_map comp_def position_of_group_simps leg_key_def)

lemma bought_minus_sold:
  "(\<Sum>l\<leftarrow>filter (\<lambda>l. P l \<and> n_side l = ''BUY'') ls. n_quantity l) -
   (\<Sum>l\<leftarrow>filter (\<lambda>l. P l \<and> n_side l \<noteq> ''BUY'') ls. n_quantity l) =
   (\<Sum>l\<leftarrow>filter P ls. leg_signed l)"
  by (induction ls) (auto simp: leg_signed_def)

lemma cycle_net_quantity:
  assumes "legs_exact (open_legs c d)"
  shows "net_quantity_of (cycle_positions c d) k = signed (open_legs c d) k"
proof -
  let ?in = "\<lambda>l. (n_member_id l, n_instrument_id l) = k"
  have "bought (cycle_positions c d) k - sold (cycle_positions c d) k = signed (open_legs c d) k"
    unfolding cycle_totals [OF assms] signed_def by (rule bought_minus_sold)
  moreover have "num_valued (signed (open_legs c d) k)"
  proof -
    have "num_round (signed (open_legs c d) k) = signed (open_legs c d) k"
      using assms unfolding signed_def
      by (intro num_valued_sum) (auto simp: leg_signed_def legs_exact_def num_round_minus)
    moreover have "\<bar>signed (open_legs c d) k\<bar> \<le> (\<Sum>l\<leftarrow>filter ?in (open_legs c d). \<bar>n_quantity l\<bar>)"
      unfolding signed_def
      by (rule order_trans [OF abs_sum_le]) (auto intro!: sum_list_mono simp: leg_signed_def)
    moreover have "\<dots> < 10 ^ 20"
      using abs_filter_le [of n_quantity ?in "open_legs c d"] assms by (simp add: legs_exact_def)
    ultimately show ?thesis by (simp add: num_valued_def num_fits_def)
  qed
  ultimately show ?thesis by (simp add: net_quantity_of_def dsub_def num_valued_dec)
qed

text \<open>On a matched book the open legs of an instrument cancel, up to every cut-off.\<close>

lemma matched_cut_off:
  assumes "book_matched d"
  shows "(\<Sum>l\<leftarrow>filter (\<lambda>l. n_instrument_id l = i) (open_legs c d). leg_signed l) = 0"
proof -
  let ?ls = "filter (\<lambda>l. n_instrument_id l = i) (open_legs c d)"
  have zero: "(\<Sum>l\<leftarrow>g. leg_signed l) = 0" if "(t, g) \<in> set (group_by n_novated_at ?ls)" for t g
  proof -
    have "t \<in> n_novated_at ` set ?ls"
      using group_by_keys [of n_novated_at ?ls] that by force
    then have "g = filter (\<lambda>l. leg_slot l = (i, ''open'', t)) (db_novated d)"
      using group_by_member [OF that]
      by (auto simp: open_legs_def included_def leg_slot_def intro: filter_cong)
    with assms show ?thesis by (simp add: book_matched_def)
  qed
  have "(\<Sum>l\<leftarrow>?ls. leg_signed l) = (\<Sum>(t, g)\<leftarrow>group_by n_novated_at ?ls. \<Sum>l\<leftarrow>g. leg_signed l)"
    by (rule group_by_sum [symmetric])
  also have "\<dots> = (\<Sum>x\<leftarrow>group_by n_novated_at ?ls. 0)"
    using zero by (intro arg_cong [where f = sum_list] map_cong) auto
  finally show ?thesis by simp
qed

lemma obligations_conserve:
  assumes "book_matched d" "legs_exact (open_legs c d)"
  shows "(\<Sum>o'\<leftarrow>filter (\<lambda>o'. ob_instrument_id o' = i)
           (calculate_net_obligations (cycle_positions c d)). ob_net_quantity o') = 0"
proof -
  let ?ls = "open_legs c d" and ?ks = "map fst (group_positions (cycle_positions c d))"
  let ?key = "\<lambda>l. (n_member_id l, n_instrument_id l)"
  let ?f = "\<lambda>l. if n_instrument_id l = i then leg_signed l else 0"
  have ks: "distinct ?ks" "\<And>l. l \<in> set ?ls \<Longrightarrow> ?key l \<in> set ?ks"
    using group_positions_keys [of "cycle_positions c d"] cycle_positions_keys [of c d] by auto
  have "(if snd k = i then signed ?ls k else 0) = (\<Sum>l\<leftarrow>filter (\<lambda>l. ?key l = k) ?ls. ?f l)" for k
  proof -
    have "map ?f (filter (\<lambda>l. ?key l = k) ?ls) =
        map (\<lambda>l. if snd k = i then leg_signed l else 0) (filter (\<lambda>l. ?key l = k) ?ls)"
      by auto
    then have "(\<Sum>l\<leftarrow>filter (\<lambda>l. ?key l = k) ?ls. ?f l) =
        (\<Sum>l\<leftarrow>filter (\<lambda>l. ?key l = k) ?ls. if snd k = i then leg_signed l else 0)"
      by (rule arg_cong)
    also have "\<dots> = (if snd k = i then signed ?ls k else 0)" by (simp add: signed_def)
    finally show ?thesis by (rule sym)
  qed
  then have "(\<Sum>k\<leftarrow>?ks. if snd k = i then signed ?ls k else 0) = (\<Sum>l\<leftarrow>?ls. ?f l)"
    using sum_over_keys [OF ks, where f = ?f] by (simp only:)
  also have "\<dots> = 0" using matched_cut_off [OF assms(1), of i c] by (simp add: sum_list_filter_if)
  finally show ?thesis
    unfolding obligations_instrument_sum cycle_net_quantity [OF assms(2)] .
qed


subsection \<open>What a cycle writes\<close>

definition obligation_row_of :: "uuid \<Rightarrow> uuid \<Rightarrow> net_obligation \<Rightarrow> obligation_row" where
  "obligation_row_of cycle n obl =
     \<lparr>no_id = n, no_netting_cycle_id = cycle, no_member_id = ob_member_id obl,
      no_instrument_id = ob_instrument_id obl, no_net_quantity = num_round (ob_net_quantity obl),
      no_net_amount = num_round (ob_net_amount obl),
      no_settlement_amount = num_round (ob_settlement_amount obl)\<rparr>"

definition instruction_row_of :: "uuid \<Rightarrow> uuid \<Rightarrow> uuid \<Rightarrow> net_obligation \<Rightarrow> instruction_row" where
  "instruction_row_of cycle ccp n obl =
     \<lparr>si_id = n, si_settlement_type = ob_settlement_type obl, si_netting_cycle_id = cycle,
      si_from_member_id = fst (instruction_parties ccp obl),
      si_to_member_id = snd (instruction_parties ccp obl),
      si_instrument_id = ob_instrument_id obl,
      si_quantity = num_round (dabs (ob_net_quantity obl)),
      si_amount = num_round (ob_settlement_amount obl), si_chain_id = None, si_tx_hash = None,
      si_status = ''pending'', si_block_number = None, si_confirmations = 0\<rparr>"

fun obligation_rows :: "uuid \<Rightarrow> uuid \<Rightarrow> net_obligation list \<Rightarrow> obligation_row list" where
  "obligation_rows cycle n [] = []"
| "obligation_rows cycle n (o' # os) =
     obligation_row_of cycle n o' # obligation_rows cycle (n + 2) os"

fun instruction_rows :: "uuid \<Rightarrow> uuid \<Rightarrow> uuid \<Rightarrow> net_obligation list \<Rightarrow> instruction_row list" where
  "instruction_rows cycle ccp n [] = []"
| "instruction_rows cycle ccp n (o' # os) =
     instruction_row_of cycle ccp (n + 1) o' # instruction_rows cycle ccp (n + 2) os"

lemma insert_obligation_and_instruction_Inr:
  assumes "insert_obligation_and_instruction cycle ccp obl d = Inr (si, d')"
  shows "si = db_next_uuid d + 1 \<and>
    d' = d\<lparr>db_next_uuid := db_next_uuid d + 2,
      db_obligations := db_obligations d @ [obligation_row_of cycle (db_next_uuid d) obl],
      db_instructions := db_instructions d @
        [instruction_row_of cycle ccp (db_next_uuid d + 1) obl]\<rparr> \<and>
    num_fits (num_round (ob_net_amount obl)) \<and> num_fits (num_round (ob_settlement_amount obl))"
  using assms
  by (auto simp: insert_obligation_and_instruction_def insert_obligation_def insert_instruction_def
      fresh_uuid_def numeric_def check_vocab_def foreign_key_def tx_simps obligation_row_of_def
      instruction_row_of_def split: if_splits prod.splits)

lemma insert_obligations_and_instructions_Inr:
  "insert_obligations_and_instructions cycle obls ccp d = Inr (sis, d') \<Longrightarrow>
   length sis = length obls \<and> (\<forall>obl \<in> set obls. num_fits (num_round (ob_settlement_amount obl))) \<and>
   d' = d\<lparr>db_next_uuid := db_next_uuid d + 2 * length obls,
      db_obligations := db_obligations d @ obligation_rows cycle (db_next_uuid d) obls,
      db_instructions := db_instructions d @ instruction_rows cycle ccp (db_next_uuid d) obls\<rparr>"
proof (induction obls arbitrary: sis d)
  case Nil
  then show ?case by (simp add: insert_obligations_and_instructions_def tx_simps)
next
  case (Cons o' os)
  then obtain si sis' e where
    "insert_obligation_and_instruction cycle ccp o' d = Inr (si, e)" "sis = si # sis'"
    and rest: "insert_obligations_and_instructions cycle os ccp e = Inr (sis', d')"
    by (auto simp: insert_obligations_and_instructions_def tx_simps)
  with insert_obligation_and_instruction_Inr [OF this(1)] Cons.IH [OF rest] show ?case by simp
qed

definition outbox_only :: "db \<Rightarrow> db \<Rightarrow> bool" where
  "outbox_only d d' \<longleftrightarrow> (\<exists>n ob. d' = d\<lparr>db_next_uuid := n, db_outbox := ob\<rparr>)"

interpretation ob: tx_relation outbox_only
proof
  have "d = d\<lparr>db_next_uuid := db_next_uuid d, db_outbox := db_outbox d\<rparr>" for d :: db by simp
  then show "outbox_only d d" for d unfolding outbox_only_def by blast
  show "outbox_only d e \<Longrightarrow> outbox_only e f \<Longrightarrow> outbox_only d f" for d e f
    by (clarsimp simp: outbox_only_def) blast
qed

lemma ob_insert_outbox_event: "across outbox_only (insert_outbox_event a i e t p tid)"
  by (rule acrossI) (simp add: insert_outbox_event_eq outbox_only_def, blast)

lemmas outbox_for = ob.across_for [OF ob_insert_outbox_event, THEN acrossD]

lemma cycle_steps:
  "insert_cycle ct st co d = Inr (cy, d') \<longleftrightarrow> cy = db_next_uuid d \<and>
     ct \<in> set (chk_cycle_type (db_schema d)) \<and> st \<in> set (chk_cycle_status (db_schema d)) \<and>
     d' = d\<lparr>db_next_uuid := Suc (db_next_uuid d), db_cycles := db_cycles d @
       [\<lparr>nc_id = cy, nc_cycle_type = ct, nc_status = st, nc_cut_off_time = co,
         nc_created_at = db_now d\<rparr>]\<rparr>"
  "record_state_transition e et f t (Some tr) d = Inr (u, d') \<longleftrightarrow>
     d' = d\<lparr>db_transitions := db_transitions d @
       [\<lparr>st_entity_type = et, st_entity_id = e, st_from_status = Some f, st_to_status = t,
         st_reason = None, st_transitioned_by = ''netting-engine:'' @ tr_actor tr,
         st_trace_id = Some (tr_trace_id tr), st_actor = Some (tr_actor tr)\<rparr>]\<rparr>"
  "update_cycle_status cy st d = Inr (u, d') \<longleftrightarrow>
     (has_cycle cy d \<longrightarrow> st \<in> set (chk_cycle_status (db_schema d))) \<and>
     d' = d\<lparr>db_cycles := update_where (\<lambda>r. nc_id r = cy) (nc_status_update (\<lambda>_. st)) (db_cycles d)\<rparr>"
  "get_ccp_member_id d = Inr (m, d') \<longleftrightarrow> (\<exists>r. find_ccp d = Some r \<and> m = m_id r) \<and> d' = d"
  "mark_trades_closed c d = Inr (n, d') \<longleftrightarrow> n = length (open_legs c d) \<and>
     (n = 0 \<or> ''netted'' \<in> set (chk_novated_status (db_schema d))) \<and>
     d' = d\<lparr>db_novated :=
       update_where (included c) (n_status_update (\<lambda>_. ''netted'')) (db_novated d)\<rparr>"
  by (auto simp: insert_cycle_def record_state_transition_def insert_transition_def
      update_cycle_status_def get_ccp_member_id_def mark_trades_closed_def open_legs_def
      update_novated_status_def fresh_uuid_def check_vocab_def tx_simps split: option.splits)

lemma cycle_positions_cong:
  assumes "db_novated e = db_novated d" "db_prices e = db_prices d"
    "db_instruments e = db_instruments d"
  shows "enrich_with_prices (fetch_open_positions c e) e = cycle_positions c d"
proof -
  have "price_map e = price_map d"
    using assms by (simp add: fun_eq_iff price_map_def latest_price_def)
  with assms show ?thesis
    by (simp add: cycle_positions_def enrich_with_prices_def fetch_open_positions_def
        enrich_position_def)
qed

lemma run_netting_cycle_Inr:
  assumes "run_netting_cycle ct c tr d = Inr (res, d')"
  defines "obls \<equiv> calculate_net_obligations (cycle_positions c d)"
  obtains cycle ccp n where "find_ccp d = Some ccp"
    "db_obligations d' = db_obligations d @ obligation_rows cycle n obls"
    "db_instructions d' = db_instructions d @ instruction_rows cycle (m_id ccp) n obls"
    "db_novated d' =
       update_where (included c) (n_status_update (\<lambda>_. ''netted'')) (db_novated d)"
    "res = \<lparr>nr_cycle_id = cycle, nr_obligation_count = length obls,
       nr_instruction_count = length obls, nr_trades_netted = length (open_legs c d)\<rparr>"
    "db_prices d' = db_prices d" "db_instruments d' = db_instruments d"
    "db_entries d' = db_entries d" "db_members d' = db_members d"
    "\<forall>obl \<in> set obls. num_fits (num_round (ob_settlement_amount obl))"
proof -
  from assms(1) obtain trace d0 where d0: "\<exists>n. d0 = d\<lparr>db_next_uuid := n\<rparr>"
    and run: "run_netting_cycle ct c (Some trace) d0 = Inr (res, d')"
    unfolding run_netting_cycle_def bind_tx_Inr [of "case tr of None \<Rightarrow> _ | Some t \<Rightarrow> _ t"]
    by (auto dest!: trace_case_Inr)
  obtain cycle d1 d2 d3 ccp sis d4 n d5 d6 d7 e d8 es where
    1: "insert_cycle (NettingCycleType_value ct) ''initiated'' c d0 = Inr (cycle, d1)" and
    2: "record_state_transition cycle ''netting_cycle'' ''initiated'' ''calculating'' (Some trace) d1
      = Inr ((), d2)" and
    3: "update_cycle_status cycle ''calculating'' d2 = Inr ((), d3)" and
    4: "get_ccp_member_id d3 = Inr (ccp, d3)" and
    5: "insert_obligations_and_instructions cycle (calculate_net_obligations
        (enrich_with_prices (fetch_open_positions c d3) d3)) ccp d3 = Inr (sis, d4)" and
    6: "mark_trades_closed c d4 = Inr (n, d5)" and
    7: "record_state_transition cycle ''netting_cycle'' ''calculating'' ''confirmed'' (Some trace) d5
      = Inr ((), d6)" and
    8: "update_cycle_status cycle ''confirmed'' d6 = Inr ((), d7)" and
    9: "outbox_only d7 d8" "outbox_only d8 d'" and
    res: "res = \<lparr>nr_cycle_id = cycle, nr_obligation_count = length (calculate_net_obligations
        (enrich_with_prices (fetch_open_positions c d3) d3)), nr_instruction_count = length sis,
        nr_trades_netted = n\<rparr>"
    using run unfolding run_netting_cycle_def Let_def option.case bind_return_tx
    by (auto simp: tx_simps dest!: outbox_for acrossD [OF ob_insert_outbox_event]
        simp: cycle_steps(4))
  have d3: "db_novated d3 = db_novated d" "db_prices d3 = db_prices d"
    "db_instruments d3 = db_instruments d" "db_members d3 = db_members d"
    "db_obligations d3 = db_obligations d" "db_instructions d3 = db_instructions d"
    "db_entries d3 = db_entries d"
    using d0 1 2 3 by (auto simp: cycle_steps)
  then have pos3: "enrich_with_prices (fetch_open_positions c d3) d3 = cycle_positions c d"
    by (intro cycle_positions_cong)
  from 4 d3 obtain r where r: "find_ccp d = Some r" "ccp = m_id r"
    by (auto simp: cycle_steps find_ccp_def)
  note d4 = insert_obligations_and_instructions_Inr [OF 5 [unfolded pos3]]
  have d': "db_novated d' = db_novated d5" "db_prices d' = db_prices d4"
    "db_instruments d' = db_instruments d4" "db_obligations d' = db_obligations d4"
    "db_instructions d' = db_instructions d4" "db_entries d' = db_entries d4"
    "db_members d' = db_members d4"
    using 6 7 8 9 by (auto simp: cycle_steps outbox_only_def)
  have n: "n = length (open_legs c d)" and
    d5: "db_novated d5 = update_where (included c) (n_status_update (\<lambda>_. ''netted'')) (db_novated d)"
    using 6 d3 d4 by (auto simp: cycle_steps open_legs_def)
  show thesis
    by (rule that [OF r(1), of cycle "db_next_uuid d3"])
      (simp_all add: d' d5 d4 d3 n res r(2) pos3 obls_def)
qed

subsection \<open>Consequences of a cycle\<close>

lemma obligation_rows_sum:
  "(\<Sum>r\<leftarrow>filter (\<lambda>r. no_instrument_id r = i) (obligation_rows cy n obls). no_net_quantity r) =
   (\<Sum>obl\<leftarrow>filter (\<lambda>obl. ob_instrument_id obl = i) obls. num_round (ob_net_quantity obl))"
  by (induction cy n obls rule: obligation_rows.induct) (auto simp: obligation_row_of_def)

lemma signed_num_round:
  "legs_exact ls \<Longrightarrow> num_round (signed ls k) = signed ls k"
  unfolding signed_def
  by (intro num_valued_sum) (auto simp: leg_signed_def legs_exact_def num_round_minus)

lemma cycle_obligation_quantity:
  assumes "legs_exact (open_legs c d)" "obl \<in> set (calculate_net_obligations (cycle_positions c d))"
  shows "ob_net_quantity obl = signed (open_legs c d) (ob_member_id obl, ob_instrument_id obl)"
proof -
  from assms(2) obtain k g where kg: "(k, g) \<in> set (group_positions (cycle_positions c d))"
    "net_quantity_of (cycle_positions c d) k \<noteq> 0" "obl = the (obligation_of (k, g))"
    unfolding obligations_map_filter by (auto simp: comp_def)
  from obligation_of_fields [OF kg(1,2)] show ?thesis
    unfolding kg(3) cycle_net_quantity [OF assms(1)] by simp
qed

lemma group_by_in_keys:
  "k \<in> key ` set rows \<Longrightarrow> \<exists>g. (k, g) \<in> set (group_by key rows)"
  using group_by_keys [of key rows] by force

lemma leg_signed_status [simp]: "leg_signed (n_status_update f l) = leg_signed l"
  by (simp add: leg_signed_def)

text \<open>Every slot of the netted book is a slot of the old book, two of them, or empty.\<close>

lemma netted_slot_sum:
  fixes ls :: "novated_row list" and c :: int
  defines "slot_sum \<equiv> \<lambda>xs s. \<Sum>l\<leftarrow>filter (\<lambda>l. leg_slot l = s) xs. leg_signed l"
    and "ls' \<equiv> update_where (included c) (n_status_update (\<lambda>_. ''netted'')) ls"
  shows "slot_sum ls' (i, st, t) \<in> {0, slot_sum ls (i, st, t),
           slot_sum ls (i, st, t) + slot_sum ls (i, ''open'', t)}"
proof -
  have "slot_sum ls' (i, st, t) = 0" if "st = ''open''" "t \<le> c"
    using that unfolding slot_sum_def ls'_def
    by (induction ls) (auto simp: leg_slot_def included_def)
  moreover have "slot_sum ls' (i, st, t) = slot_sum ls (i, st, t)"
    if "\<not> t \<le> c \<or> (st \<noteq> ''open'' \<and> st \<noteq> ''netted'')"
    using that unfolding slot_sum_def ls'_def
    by (induction ls) (auto simp: leg_slot_def included_def)
  moreover have "slot_sum ls' (i, st, t) = slot_sum ls (i, st, t) + slot_sum ls (i, ''open'', t)"
    if "st = ''netted''" "t \<le> c"
    using that unfolding slot_sum_def ls'_def
    by (induction ls) (auto simp: leg_slot_def included_def)
  ultimately show ?thesis by blast
qed

lemma netted_matched:
  assumes "book_matched d"
    and "db_novated d' = update_where (included c) (n_status_update (\<lambda>_. ''netted'')) (db_novated d)"
  shows "book_matched d'"
  unfolding book_matched_def
proof
  fix slot :: "uuid \<times> string \<times> int"
  obtain i st t where slot: "slot = (i, st, t)" by (cases slot)
  show "(\<Sum>l\<leftarrow>filter (\<lambda>l. leg_slot l = slot) (db_novated d'). leg_signed l) = 0"
    using netted_slot_sum [where c = c and ls = "db_novated d" and i = i and st = st and t = t] assms by (simp add: book_matched_def slot)
qed

lemma netted_none_open:
  assumes "db_novated d' = update_where (included c) (n_status_update (\<lambda>_. ''netted'')) (db_novated d)"
    and "c' \<le> c"
  shows "open_legs c' d' = []"
  using assms(2) by (auto simp: open_legs_def assms(1) filter_empty_conv set_update_where included_def)

lemma no_legs_no_obligations: "open_legs c d = [] \<Longrightarrow> calculate_net_obligations (cycle_positions c d) = []"
  by (simp add: cycle_positions_def enrich_with_prices_def fetch_open_positions_def
      open_legs_def calculate_net_obligations_def group_positions_def List.map_filter_def)

lemma num_round_abs: "num_round \<bar>x\<bar> = \<bar>num_round x\<bar>"
  using num_round_minus [of x] num.rd_nonneg [of x] num.rd_nonpos [of x] by (cases "0 \<le> x") auto

text \<open>How a settlement instruction settles the obligation it was made from.\<close>

definition settles :: "uuid \<Rightarrow> obligation_row \<Rightarrow> instruction_row \<Rightarrow> bool" where
  "settles ccp obl si \<longleftrightarrow>
     si_netting_cycle_id si = no_netting_cycle_id obl \<and>
     si_instrument_id si = no_instrument_id obl \<and>
     si_quantity si = \<bar>no_net_quantity obl\<bar> \<and> si_amount si = \<bar>no_net_amount obl\<bar> \<and>
     no_settlement_amount obl = \<bar>no_net_amount obl\<bar> \<and> si_status si = ''pending'' \<and>
     {si_from_member_id si, si_to_member_id si} = {no_member_id obl, ccp} \<and>
     (0 < no_net_amount obl \<longrightarrow> si_from_member_id si = no_member_id obl) \<and>
     (no_net_amount obl < 0 \<longrightarrow> si_to_member_id si = no_member_id obl)"

lemma rows_settle:
  assumes "\<And>obl. obl \<in> set obls \<Longrightarrow> ob_settlement_amount obl = \<bar>ob_net_amount obl\<bar> \<and>
      dabs (ob_net_quantity obl) = \<bar>ob_net_quantity obl\<bar>"
  shows "list_all2 (settles ccp) (obligation_rows cy n obls) (instruction_rows cy ccp n obls)"
  using assms
proof (induction cy n obls rule: obligation_rows.induct)
  case (2 cy n obl obls)
  have "settles ccp (obligation_row_of cy n obl) (instruction_row_of cy ccp (n + 1) obl)"
    using 2(2) [of obl] num.rd_nonpos [of "ob_net_amount obl"] num.rd_nonneg [of "ob_net_amount obl"]
    by (auto simp: settles_def obligation_row_of_def instruction_row_of_def num_round_abs
        instruction_parties_def)
  with 2 show ?case by simp
qed simp

lemma dabs_ops: "dabs (dsub x y) = \<bar>dsub x y\<bar>" "dabs (dmul x y) = \<bar>dmul x y\<bar>"
  by (simp_all add: dabs_exact dsub_def dmul_def dec_round_idem)

definition obligation_key :: "net_obligation \<Rightarrow> uuid \<times> uuid" where
  "obligation_key obl = (ob_member_id obl, ob_instrument_id obl)"

lemma obligation_member:
  assumes "obl \<in> set (calculate_net_obligations ps)"
  shows "ob_net_quantity obl = net_quantity_of ps (obligation_key obl)"
    and "ob_settlement_amount obl = \<bar>ob_net_amount obl\<bar>"
    and "dabs (ob_net_quantity obl) = \<bar>ob_net_quantity obl\<bar>"
proof -
  from assms obtain k g where kg: "(k, g) \<in> set (group_positions ps)"
    "net_quantity_of ps k \<noteq> 0" "obl = the (obligation_of (k, g))"
    unfolding obligations_map_filter by (auto simp: comp_def)
  note f = obligation_of_fields [OF kg(1,2), folded kg(3)]
  show "ob_net_quantity obl = net_quantity_of ps (obligation_key obl)"
    using f(1,2) by (simp add: obligation_key_def)
  show "ob_settlement_amount obl = \<bar>ob_net_amount obl\<bar>" using f(3,4) by (simp add: dabs_ops)
  show "dabs (ob_net_quantity obl) = \<bar>ob_net_quantity obl\<bar>"
    using f(1) by (simp add: net_quantity_of_def dabs_ops)
qed

lemma obligation_keys:
  "map obligation_key (calculate_net_obligations ps) =
     map fst (filter (\<lambda>kg. net_quantity_of ps (fst kg) \<noteq> 0) (group_positions ps))"
proof -
  have "obligation_key (the (obligation_of kg)) = fst kg"
    if "kg \<in> set (filter (\<lambda>kg. net_quantity_of ps (fst kg) \<noteq> 0) (group_positions ps))" for kg
    using that obligation_of_fields(2) [of "fst kg" "snd kg" ps] by (simp add: obligation_key_def)
  then show ?thesis unfolding obligations_map_filter by simp
qed

lemma net_quantity_outside: "k \<notin> position_key ` set ps \<Longrightarrow> bought ps k = sold ps k"
proof -
  assume "k \<notin> position_key ` set ps"
  then have "filter (\<lambda>p. position_key p = k \<and> Q p) ps = []" for Q
    by (auto simp: filter_empty_conv)
  then show "bought ps k = sold ps k" by (simp add: bought_def sold_def)
qed

lemma net_quantity_zero: "net_quantity_of ps k = 0 \<longleftrightarrow> bought ps k = sold ps k"
  by (simp add: net_quantity_of_def dsub_def)

subsection \<open>A cycle goes through\<close>

text \<open>What the rows a cycle writes need to pass the constraints.\<close>

definition obligation_ok :: "db \<Rightarrow> net_obligation \<Rightarrow> bool" where
  "obligation_ok d obl \<longleftrightarrow> has_member (ob_member_id obl) d \<and> has_instrument (ob_instrument_id obl) d \<and>
     num_fits (num_round (ob_net_quantity obl)) \<and> num_fits (num_round (ob_net_amount obl)) \<and>
     ob_settlement_type obl \<in> set (chk_settlement_type (db_schema d))"

definition netting_vocab :: "NettingCycleType \<Rightarrow> schema \<Rightarrow> bool" where
  "netting_vocab ct s \<longleftrightarrow> NettingCycleType_value ct \<in> set (chk_cycle_type s) \<and>
     {''initiated'', ''calculating'', ''confirmed''} \<subseteq> set (chk_cycle_status s) \<and>
     ''netted'' \<in> set (chk_novated_status s) \<and> ''pending'' \<in> set (chk_settlement_status s)"

lemma num_fits_abs: "num_fits \<bar>x\<bar> = num_fits x"
  by (simp add: num_fits_def)

lemma insert_rows_run:
  assumes "has_cycle cy d" "has_member ccp d" "''pending'' \<in> set (chk_settlement_status (db_schema d))"
    and "\<And>obl. obl \<in> set obls \<Longrightarrow> obligation_ok d obl \<and>
      ob_settlement_amount obl = \<bar>ob_net_amount obl\<bar> \<and>
      dabs (ob_net_quantity obl) = \<bar>ob_net_quantity obl\<bar>"
  shows "\<exists>sis d'. insert_obligations_and_instructions cy obls ccp d = Inr (sis, d')"
  using assms
proof (induction obls arbitrary: d)
  case Nil
  then show ?case by (simp add: insert_obligations_and_instructions_def tx_simps)
next
  case (Cons obl obls)
  let ?e = "d\<lparr>db_next_uuid := db_next_uuid d + 2,
      db_obligations := db_obligations d @ [obligation_row_of cy (db_next_uuid d) obl],
      db_instructions := db_instructions d @
        [instruction_row_of cy ccp (db_next_uuid d + 1) obl]\<rparr>"
  have run: "insert_obligation_and_instruction cy ccp obl d = Inr (db_next_uuid d + 1, ?e)"
    using Cons.prems(1-3) Cons.prems(4) [of obl]
    by (auto simp: insert_obligation_and_instruction_def insert_obligation_def
      insert_instruction_def fresh_uuid_def numeric_def check_vocab_def foreign_key_def run_simps
      obligation_row_of_def instruction_row_of_def obligation_ok_def instruction_parties_def
      has_defs num_round_abs num_fits_abs)
  have "\<exists>sis d'. insert_obligations_and_instructions cy obls ccp ?e = Inr (sis, d')"
    using Cons.prems by (intro Cons.IH) (auto simp: has_defs obligation_ok_def)
  with run show ?case
    by (auto simp: insert_obligations_and_instructions_def bind_tx_def return_tx_def)
qed

lemma run_netting_cycle_run:
  assumes vocab: "netting_vocab ct (db_schema d)" and ccp: "find_ccp d = Some ccp"
    and ok: "\<And>obl. obl \<in> set (calculate_net_obligations (cycle_positions c d)) \<Longrightarrow> obligation_ok d obl"
  shows "\<exists>res d'. run_netting_cycle ct c (Some tr) d = Inr (res, d')"
proof -
  let ?obls = "calculate_net_obligations (cycle_positions c d)"
  let ?v = "NettingCycleType_value ct" and ?cy = "db_next_uuid d"
  obtain d1 where 1: "insert_cycle ?v ''initiated'' c d = Inr (?cy, d1)" "has_cycle ?cy d1"
    using vocab by (auto simp: cycle_steps netting_vocab_def has_cycle_def)
  obtain d2 where 2: "record_state_transition ?cy ''netting_cycle'' ''initiated'' ''calculating''
      (Some tr) d1 = Inr ((), d2)" by (simp add: cycle_steps)
  obtain d3 where 3: "update_cycle_status ?cy ''calculating'' d2 = Inr ((), d3)"
    using vocab 1 2 by (auto simp: cycle_steps netting_vocab_def)
  have frame: "db_members d3 = db_members d" "db_instruments d3 = db_instruments d"
    "db_prices d3 = db_prices d" "db_novated d3 = db_novated d" "db_schema d3 = db_schema d"
    using 1(1) 2 3 by (auto simp: cycle_steps)
  have pos: "enrich_with_prices (fetch_open_positions c d3) d3 = cycle_positions c d"
    using frame by (intro cycle_positions_cong)
  have "has_cycle ?cy d3"
    using 1 2 3 by (auto simp: cycle_steps has_cycle_def set_update_where)
  moreover have "has_member (m_id ccp) d3"
    using ccp by (auto simp: find_ccp_def has_member_def frame dest: fetchone_Some)
  ultimately obtain sis d4 where
    4: "insert_obligations_and_instructions ?cy ?obls (m_id ccp) d3 = Inr (sis, d4)"
    using insert_rows_run [of ?cy d3 "m_id ccp" ?obls] ok vocab obligation_member(2,3)
    by (auto simp: obligation_ok_def has_defs frame netting_vocab_def)
  have frame4: "db_schema d4 = db_schema d"
    using insert_obligations_and_instructions_Inr [OF 4] frame by auto
  obtain n d5 where 5: "mark_trades_closed c d4 = Inr (n, d5)" "db_schema d5 = db_schema d"
    using vocab frame4 by (auto simp: cycle_steps netting_vocab_def)
  obtain d6 where 6: "record_state_transition ?cy ''netting_cycle'' ''calculating'' ''confirmed''
      (Some tr) d5 = Inr ((), d6)" by (simp add: cycle_steps)
  obtain d7 where 7: "update_cycle_status ?cy ''confirmed'' d6 = Inr ((), d7)"
    using vocab 5 6 by (auto simp: cycle_steps netting_vocab_def)
  obtain e d8 where 8: "insert_outbox_event ''netting_cycle'' ?cy ''netting.cycle.completed''
        ''netting.cycle.completed''
        [(''cycle_id'', PId ?cy), (''cycle_type'', PStr ?v),
         (''obligation_count'', PNat (length ?obls)), (''trades_netted'', PNat n)]
        (Some (tr_trace_id tr)) d7 = Inr (e, d8)"
    by (simp add: insert_outbox_event_eq)
  obtain es d9 where 9: "for_tx (\<lambda>instr. insert_outbox_event ''settlement_instruction'' instr
        ''settlement.instruction.created'' ''settlement.instructions.created''
        [(''instruction_id'', PId instr), (''cycle_id'', PId ?cy)]
        (Some (tr_trace_id tr))) sis d8 = Inr (es, d9)"
    using for_tx_total [where f = "\<lambda>instr. insert_outbox_event ''settlement_instruction'' instr
        ''settlement.instruction.created'' ''settlement.instructions.created''
        [(''instruction_id'', PId instr), (''cycle_id'', PId ?cy)]
        (Some (tr_trace_id tr))" and xs = sis and s = d8] by (auto simp: insert_outbox_event_eq)
  have "get_ccp_member_id d3 = Inr (m_id ccp, d3)"
    using ccp frame by (simp add: cycle_steps find_ccp_def)
  then show ?thesis
    using 1(1) 2 3 4 5(1) 6 7 8 9
    by (simp add: run_netting_cycle_def Let_def bind_tx_def return_tx_def gets_tx_def pos)
qed

lemma instruction_rows_amount:
  assumes "\<forall>obl \<in> set obls. num_fits (num_round (ob_settlement_amount obl))"
    and "q \<in> set (instruction_rows cy ccp n obls)"
  shows "num_valued (si_amount q)"
proof -
  have "\<exists>obl \<in> set obls. si_amount q = num_round (ob_settlement_amount obl)"
    using assms(2) by (induction cy ccp n obls rule: instruction_rows.induct) (auto simp: instruction_row_of_def)
  then show ?thesis using assms(1) by (auto simp: num_valued_def num_round_idem)
qed

lemma cycle_settles:
  assumes "run_netting_cycle ct c tr d = Inr (res, d')"
  obtains ccp where "find_ccp d = Some ccp"
    "list_all2 (settles (m_id ccp)) (drop (length (db_obligations d)) (db_obligations d'))
       (drop (length (db_instructions d)) (db_instructions d'))"
    "\<forall>q \<in> set (drop (length (db_instructions d)) (db_instructions d')). num_valued (si_amount q)"
  using assms
  by (rule run_netting_cycle_Inr, intro that)
    (assumption, simp add: rows_settle obligation_member(2,3), auto intro: instruction_rows_amount)

definition netting_example :: db where
  "netting_example = example_db\<lparr>
     db_novated := [plan_leg example_plan 8 1 20 ''BUY'' 1, plan_leg example_plan 8 1 21 ''SELL'' 2],
     db_prices := [\<lparr>pf_instrument_id = 3, pf_price = 120, pf_source = ''x'', pf_received_at = 1\<rparr>],
     db_next_uuid := 22\<rparr>"

lemmas netting_eval = cycle_positions_def enrich_with_prices_def fetch_open_positions_def
  position_of_group_def leg_key_def included_def enrich_position_def price_map_def latest_price_def
  calculate_net_obligations_def group_positions_def add_position_def position_key_def
  new_group_def add_to_group_def Let_def List.map_filter_def obligation_of_def
  netting_example_def example_defs plan_leg_def dec_ops whole_eval

lemma example_obligations:
  "calculate_net_obligations (cycle_positions 5 netting_example) =
     [\<lparr>ob_member_id = 1, ob_instrument_id = 3, ob_net_quantity = 10, ob_net_amount = 1200,
       ob_settlement_amount = 1200, ob_settlement_type = ''cash''\<rparr>,
      \<lparr>ob_member_id = 2, ob_instrument_id = 3, ob_net_quantity = - 10, ob_net_amount = - 1200,
       ob_settlement_amount = 1200, ob_settlement_type = ''cash''\<rparr>]"
  by (simp add: netting_eval)


lemma example_matched: "book_matched netting_example"
  unfolding book_matched_def netting_example_def
  by (auto simp: leg_slot_def leg_signed_def plan_leg_def)

lemma example_exact: "legs_exact (open_legs 5 netting_example)"
  by (simp add: legs_exact_def open_legs_def netting_eval)

lemma example_netting_conditions:
  "netting_vocab MANUAL (db_schema netting_example)"
  "\<exists>ccp. find_ccp netting_example = Some ccp \<and> m_id ccp = 0"
  "obl \<in> set (calculate_net_obligations (cycle_positions 5 netting_example)) \<Longrightarrow>
     obligation_ok netting_example obl"
  unfolding example_obligations
  by (auto simp: netting_vocab_def find_ccp_def obligation_ok_def has_defs num_fits_def
      whole_eval netting_example_def example_defs schema_defs)

lemma example_cycle:
  "\<exists>res d'. run_netting_cycle MANUAL 5 (Some example_trace) netting_example = Inr (res, d')"
  using example_netting_conditions run_netting_cycle_run [of MANUAL netting_example _ 5] by blast

subsection \<open>Properties\<close>

text \<open>C12. The netting algorithm, as a pure function: there is at most one obligation per member
  and instrument, there is one exactly when the buys and sells of the pair differ, and it
  carries their difference as quantity and the absolute value of its amount for settlement.\<close>

theorem net_obligations_correct:
  "distinct (map obligation_key (calculate_net_obligations ps)) \<and>
   set (map obligation_key (calculate_net_obligations ps)) = {k. bought ps k \<noteq> sold ps k} \<and>
   (\<forall>obl \<in> set (calculate_net_obligations ps).
      ob_net_quantity obl = dsub (bought ps (obligation_key obl)) (sold ps (obligation_key obl)) \<and>
      ob_settlement_amount obl = \<bar>ob_net_amount obl\<bar>)"
proof (intro conjI ballI)
  have "distinct (map fst (group_positions ps))" using group_positions_keys by blast
  then show "distinct (map obligation_key (calculate_net_obligations ps))"
    unfolding obligation_keys by (rule distinct_map_filter)
  have "fst ` set (filter (\<lambda>kg. net_quantity_of ps (fst kg) \<noteq> 0) (group_positions ps)) =
      {k \<in> fst ` set (group_positions ps). net_quantity_of ps k \<noteq> 0}" by auto
  also have "\<dots> = {k. bought ps k \<noteq> sold ps k}"
    using group_positions_keys [of ps] net_quantity_outside [of _ ps]
    by (auto simp: net_quantity_zero)
  finally show "set (map obligation_key (calculate_net_obligations ps)) =
      {k. bought ps k \<noteq> sold ps k}" unfolding obligation_keys by simp
qed (use obligation_member in \<open>auto simp: net_quantity_of_def\<close>)

theorem net_obligations_correct_witness:
  "{k. bought (cycle_positions 5 netting_example) k \<noteq> sold (cycle_positions 5 netting_example) k} =
     {(1, 3), (2, 3)}"
  using net_obligations_correct [of "cycle_positions 5 netting_example"]
  by (auto simp: example_obligations obligation_key_def)

text \<open>C27. A cycle goes through: with the clearing house in the members' table, the statuses in
  the vocabulary and rows that meet the constraints, it raises nothing.\<close>

theorem netting_cycle_succeeds:
  assumes "netting_vocab ct (db_schema d)" "find_ccp d = Some ccp"
    and "\<forall>obl \<in> set (calculate_net_obligations (cycle_positions c d)). obligation_ok d obl"
  shows "\<exists>res d'. run_netting_cycle ct c (Some tr) d = Inr (res, d')"
  using assms by (intro run_netting_cycle_run) auto

theorem netting_cycle_succeeds_witness:
  "\<exists>res d'. run_netting_cycle MANUAL 5 (Some example_trace) netting_example = Inr (res, d')"
  using example_netting_conditions netting_cycle_succeeds [of MANUAL netting_example _ 5] by blast

text \<open>C9. Conservation: when the book is matched, the obligations a cycle writes for an instrument
  add up to zero: what some members have to deliver is what the others receive.\<close>

theorem netting_conserves:
  assumes "book_matched d" "legs_exact (open_legs c d)"
    and "run_netting_cycle ct c tr d = Inr (res, d')"
  shows "(\<Sum>r\<leftarrow>filter (\<lambda>r. no_instrument_id r = i)
            (drop (length (db_obligations d)) (db_obligations d')). no_net_quantity r) = 0"
proof -
  let ?obls = "calculate_net_obligations (cycle_positions c d)"
  from assms(3) obtain cy n where
    "db_obligations d' = db_obligations d @ obligation_rows cy n ?obls"
    by (rule run_netting_cycle_Inr)
  then have "(\<Sum>r\<leftarrow>filter (\<lambda>r. no_instrument_id r = i)
      (drop (length (db_obligations d)) (db_obligations d')). no_net_quantity r) =
      (\<Sum>obl\<leftarrow>filter (\<lambda>obl. ob_instrument_id obl = i) ?obls. num_round (ob_net_quantity obl))"
    by (simp add: obligation_rows_sum)
  also have "\<dots> = (\<Sum>obl\<leftarrow>filter (\<lambda>obl. ob_instrument_id obl = i) ?obls. ob_net_quantity obl)"
    using assms(2) by (intro arg_cong [where f = sum_list] map_cong)
      (auto simp: cycle_obligation_quantity signed_num_round)
  finally show ?thesis using obligations_conserve [OF assms(1,2)] by simp
qed

theorem netting_conserves_witness:
  "\<exists>res d'. run_netting_cycle MANUAL 5 (Some example_trace) netting_example = Inr (res, d') \<and>
     (\<Sum>r\<leftarrow>filter (\<lambda>r. no_instrument_id r = 3) (drop 0 (db_obligations d')). no_net_quantity r) = 0"
proof -
  obtain res d' where run:
    "run_netting_cycle MANUAL 5 (Some example_trace) netting_example = Inr (res, d')"
    using example_cycle by blast
  from netting_conserves [OF example_matched example_exact run, of 3]
  have "(\<Sum>r\<leftarrow>filter (\<lambda>r. no_instrument_id r = 3) (drop 0 (db_obligations d')). no_net_quantity r) = 0"
    by (simp add: netting_example_def example_defs)
  with run show ?thesis by blast
qed

text \<open>C33. A leg is netted once: after a cycle no leg up to its cut-off is open, the count it
  reports is the number of legs that were, and a second cycle up to an earlier or the same
  cut-off finds nothing: it writes no obligation and no instruction.\<close>

theorem netting_once:
  assumes "run_netting_cycle ct c tr d = Inr (res, d')"
    and "run_netting_cycle ct' c' tr' d' = Inr (res', d'')" "c' \<le> c"
  shows "nr_trades_netted res = length (open_legs c d) \<and> open_legs c d' = [] \<and>
         nr_trades_netted res' = 0 \<and> nr_obligation_count res' = 0 \<and>
         db_obligations d'' = db_obligations d' \<and> db_instructions d'' = db_instructions d'"
proof -
  from assms(1) have netted: "db_novated d' =
      update_where (included c) (n_status_update (\<lambda>_. ''netted'')) (db_novated d)"
    and count: "nr_trades_netted res = length (open_legs c d)"
    by (auto elim: run_netting_cycle_Inr)
  have none: "open_legs c d' = []" "open_legs c' d' = []"
    using netted_none_open [OF netted] assms(3) by auto
  show ?thesis
    using assms(2) by (rule run_netting_cycle_Inr)
      (simp add: none count no_legs_no_obligations)
qed

theorem netting_once_witness:
  "\<exists>res d' res' d''. run_netting_cycle MANUAL 5 (Some example_trace) netting_example = Inr (res, d') \<and>
     run_netting_cycle MANUAL 5 (Some example_trace) d' = Inr (res', d'') \<and>
     nr_trades_netted res = 2 \<and> nr_trades_netted res' = 0"
proof -
  obtain res d' where run:
    "run_netting_cycle MANUAL 5 (Some example_trace) netting_example = Inr (res, d')"
    using example_cycle by blast
  from acrossD [OF ev_run_netting_cycle run] have schema: "netting_vocab MANUAL (db_schema d')"
    using example_netting_conditions(1) by (simp add: evolves_def)
  from run have open0: "open_legs 5 d' = []" and ccp: "\<exists>r. find_ccp d' = Some r"
    by (auto elim!: run_netting_cycle_Inr intro: netted_none_open simp: find_ccp_def)
  obtain res' d'' where run': "run_netting_cycle MANUAL 5 (Some example_trace) d' = Inr (res', d'')"
    using run_netting_cycle_run [OF schema] ccp no_legs_no_obligations [OF open0] by force
  have "length (open_legs 5 netting_example) = 2"
    by (simp add: open_legs_def netting_eval)
  with run run' netting_once [OF run run'] show ?thesis by fastforce
qed

text \<open>C24. A cycle writes one pending instruction per obligation, in the same order, that settles
  it: between the member and the clearing house, for the absolute quantity and amount, from
  the member when the member owes and to the member when it is owed.\<close>

theorem netting_instructions_settle:
  assumes "run_netting_cycle ct c tr d = Inr (res, d')"
  shows "\<exists>ccp. find_ccp d = Some ccp \<and>
     list_all2 (settles (m_id ccp)) (drop (length (db_obligations d)) (db_obligations d'))
       (drop (length (db_instructions d)) (db_instructions d'))"
  using assms by (rule cycle_settles) blast

theorem netting_instructions_settle_witness:
  "\<exists>res d'. run_netting_cycle MANUAL 5 (Some example_trace) netting_example = Inr (res, d') \<and>
     list_all2 (settles 0) (db_obligations d') (db_instructions d')"
proof -
  obtain res d' where run:
    "run_netting_cycle MANUAL 5 (Some example_trace) netting_example = Inr (res, d')"
    using example_cycle by blast
  from netting_instructions_settle [OF run] example_netting_conditions(2)
  have "list_all2 (settles 0) (db_obligations d') (db_instructions d')"
    by (auto simp: netting_example_def example_defs)
  with run show ?thesis by blast
qed

text \<open>The trigger endpoint with its default cycle type always answers 400: \<open>ad_hoc\<close> is not a
  \<open>NettingCycleType\<close>, and the database is left as it is.\<close>

theorem trigger_default_rejected: "trigger_netting now cut_off None d = Inl (HTTPException 400)"
  by (simp add: trigger_netting_def enum_of_def NettingCycleType_members_def raise_tx_def)

text \<open>The listing of the cycles has the latest ones, in the order of their creation.\<close>

lemma list_cycles_latest:
  assumes "list_cycles n d = Inr (rows, d')"
  shows "d' = d \<and> length rows = min (nat n) (length (db_cycles d)) \<and> set rows \<subseteq> set (db_cycles d) \<and>
    sorted_wrt (\<lambda>r q. nc_created_at q \<le> nc_created_at r) rows \<and>
    (\<forall>q \<in> set (db_cycles d). q \<in> set rows \<or> (\<forall>r \<in> set rows. nc_created_at q \<le> nc_created_at r))"
proof -
  from assms have rows: "rows = take (nat n) (order_desc nc_created_at (db_cycles d))" and "d' = d"
    by (auto simp: list_cycles_def select_limit_def tx_simps)
  moreover have "length rows = min (nat n) (length (db_cycles d))" by (simp add: rows order_desc_def)
  moreover have "set rows \<subseteq> set (db_cycles d)" using set_take_subset rows by fastforce
  moreover have "sorted_wrt (\<lambda>r q. nc_created_at q \<le> nc_created_at r) rows"
    unfolding rows by (rule order_desc_sorted)
  moreover have "\<forall>q \<in> set (db_cycles d). q \<in> set rows \<or> (\<forall>r \<in> set rows. nc_created_at q \<le> nc_created_at r)"
    using order_desc_limit [OF _ rows] by blast
  ultimately show ?thesis by blast
qed

text \<open>The obligations endpoint shows every obligation of the cycle once, and no other.\<close>

lemma get_obligations_complete:
  "mset (get_obligations c d) = mset (filter (\<lambda>r. no_netting_cycle_id r = c) (db_obligations d))"
  by (simp add: get_obligations_def)

end
