(* ===== verification/Collateral.thy ===== *)
theory Collateral
  imports Margin
begin

section \<open>The collateral manager\<close>

text \<open>
  \<open>services/collateral-manager/src/collateral_manager/operations.py\<close> and \<open>consumer.py\<close>:
  deposits, withdrawals and the transfer that answers a margin call. Each operation first
  validates (raising without a trace in the database) and then writes one balanced journal.
\<close>

subsection \<open>Looking accounts up\<close>

definition collateral_account :: "uuid \<Rightarrow> string \<Rightarrow> string \<Rightarrow> string \<Rightarrow> db \<Rightarrow> uuid option" where
  "collateral_account m ty pool currency d = map_option a_id
     (fetchone (\<lambda>a. a_member_id a = m \<and> a_account_type a = ty \<and> a_pool a = pool \<and>
        a_currency a = currency) (db_accounts d))"

definition ccp_account :: "string \<Rightarrow> string \<Rightarrow> string \<Rightarrow> db \<Rightarrow> uuid option" where
  "ccp_account ty pool currency d = map_option a_id
     (fetchone (\<lambda>a. a_account_type a = ty \<and> a_pool a = pool \<and> a_currency a = currency)
       [a. a \<leftarrow> db_accounts d, m \<leftarrow> db_members d, m_id m = a_member_id a \<and> m_lei m = ccp_lei])"

definition collateral_balance :: "uuid \<Rightarrow> db \<Rightarrow> rat" where
  "collateral_balance a d = (if has_account a d then acct_balance d a else 0)"

text \<open>The two entries of an outgoing transfer: the credit is inserted first.\<close>

definition post_transfer :: "uuid \<Rightarrow> uuid \<Rightarrow> uuid \<Rightarrow> rat \<Rightarrow> unit ccp" where
  "post_transfer jid from_acct to_acct amount =
     bind_tx (insert_entry jid from_acct 0 amount) (\<lambda>_.
     insert_entry jid to_acct amount 0)"

definition collateral_event :: "uuid \<Rightarrow> string \<Rightarrow> rat \<Rightarrow> string \<Rightarrow> uuid \<Rightarrow> unit ccp" where
  "collateral_event m event_type amount currency jid =
     bind_tx (insert_outbox_event ''collateral'' m event_type event_type
        [(''member_id'', PId m), (''amount'', PDec amount), (''currency'', PStr currency),
         (''journal_id'', PId jid)] None) (\<lambda>_. return_tx ())"

definition transfer_result :: "uuid \<Rightarrow> uuid \<Rightarrow> rat \<Rightarrow> payload" where
  "transfer_result jid m amount =
     [(''journal_id'', PId jid), (''member_id'', PId m), (''amount'', PDec amount)]"

subsection \<open>The operations\<close>

definition deposit_collateral :: "uuid \<Rightarrow> rat \<Rightarrow> string \<Rightarrow> payload ccp" where
  "deposit_collateral m amount currency =
     bind_tx (guard_tx (0 < amount) (ValidationError [PStr ''Deposit amount must be positive''])) (\<lambda>_.
     bind_tx (gets_tx (collateral_account m ''COLLATERAL'' ''AVAILABLE'' currency)) (\<lambda>member_acct.
     bind_tx (gets_tx (ccp_account ''SETTLEMENT'' ''AVAILABLE'' currency)) (\<lambda>ccp_acct.
     case (member_acct, ccp_acct) of
       (Some ma, Some ca) \<Rightarrow>
         bind_tx (insert_journal ''COLLATERAL_DEPOSIT'' ''member'' m ''confirmed'') (\<lambda>jid.
         bind_tx (post_pair jid ma ca amount) (\<lambda>_.
         bind_tx (collateral_event m ''collateral.deposited'' amount currency jid) (\<lambda>_.
         return_tx (transfer_result jid m amount))))
     | _ \<Rightarrow> raise_tx (ValidationError [PStr ''Accounts not found for member '', PId m]))))"

definition withdraw_collateral :: "uuid \<Rightarrow> rat \<Rightarrow> string \<Rightarrow> payload ccp" where
  "withdraw_collateral m amount currency =
     bind_tx (guard_tx (0 < amount) (ValidationError [PStr ''Withdrawal amount must be positive''])) (\<lambda>_.
     bind_tx (gets_tx (collateral_account m ''COLLATERAL'' ''AVAILABLE'' currency)) (\<lambda>member_acct.
     case member_acct of
       None \<Rightarrow> raise_tx (ValidationError [PStr ''Collateral account not found for member '', PId m])
     | Some ma \<Rightarrow>
       bind_tx (gets_tx (collateral_balance ma)) (\<lambda>balance.
       bind_tx (guard_tx (amount \<le> balance)
          (InsufficientMarginError [PStr ''Insufficient collateral: available='', PDec balance,
             PStr '', requested='', PDec amount] m amount balance)) (\<lambda>_.
       bind_tx (gets_tx (ccp_account ''SETTLEMENT'' ''AVAILABLE'' currency)) (\<lambda>ccp_acct.
       case ccp_acct of
         None \<Rightarrow> raise_tx (ValidationError [PStr ''CCP settlement account not found''])
       | Some ca \<Rightarrow>
         bind_tx (insert_journal ''COLLATERAL_WITHDRAWAL'' ''member'' m ''confirmed'') (\<lambda>jid.
         bind_tx (post_transfer jid ma ca amount) (\<lambda>_.
         bind_tx (collateral_event m ''collateral.withdrawn'' amount currency jid) (\<lambda>_.
         return_tx (transfer_result jid m amount)))))))))"

definition update_posted_margin :: "uuid \<Rightarrow> string \<Rightarrow> rat \<Rightarrow> unit ccp" where
  "update_posted_margin m margin_type amount = add_posted_amount m margin_type amount"

definition transfer_to_margin :: "uuid \<Rightarrow> rat \<Rightarrow> string \<Rightarrow> payload ccp" where
  "transfer_to_margin m amount margin_type =
     bind_tx (guard_tx (0 < amount) (ValidationError [PStr ''Transfer amount must be positive''])) (\<lambda>_.
     bind_tx (gets_tx (collateral_account m ''COLLATERAL'' ''AVAILABLE'' ''USD'')) (\<lambda>coll_acct.
     bind_tx (gets_tx (collateral_account m margin_type ''AVAILABLE'' ''USD'')) (\<lambda>margin_acct.
     case (coll_acct, margin_acct) of
       (Some ca, Some ma) \<Rightarrow>
         bind_tx (gets_tx (collateral_balance ca)) (\<lambda>balance.
         bind_tx (guard_tx (amount \<le> balance)
            (InsufficientMarginError [PStr ''Insufficient collateral for margin transfer'']
               m amount balance)) (\<lambda>_.
         bind_tx (insert_journal ''COLLATERAL_DEPOSIT'' ''margin_call'' m ''confirmed'') (\<lambda>jid.
         bind_tx (post_transfer jid ca ma amount) (\<lambda>_.
         bind_tx (update_posted_margin m margin_type amount) (\<lambda>_.
         return_tx (transfer_result jid m amount))))))
     | _ \<Rightarrow> raise_tx (ValidationError [PStr ''Accounts not found for member '', PId m]))))"

subsection \<open>The consumer\<close>

definition handle_collateral_event :: "string \<Rightarrow> payload \<Rightarrow> unit ccp" where
  "handle_collateral_event event_type event =
     (if event_type = ''collateral.deposit.requested'' then
        bind_tx (need_id event ''member_id'') (\<lambda>m.
        bind_tx (need_dec event ''amount'') (\<lambda>amount.
        bind_tx (deposit_collateral m amount (case pget_str event ''currency'' of Some c \<Rightarrow> c
           | None \<Rightarrow> ''USD'')) (\<lambda>_. return_tx ())))
      else if event_type = ''margin.call.issued'' then
        bind_tx (need_id event ''member_id'') (\<lambda>m.
        bind_tx (need_dec event ''call_amount'') (\<lambda>amount.
        bind_tx (transfer_to_margin m amount ''MARGIN_IM'') (\<lambda>_. return_tx ())))
      else return_tx ())"

definition consume_collateral_event :: "payload \<Rightarrow> unit ccp" where
  "consume_collateral_event event =
     handle_once ''collateral-manager'' (pget_id event ''event_id'')
       (handle_collateral_event (case pget_str event ''event_type'' of Some t \<Rightarrow> t | None \<Rightarrow> []) event)"

subsection \<open>Preservation\<close>

lemma ev_collateral_parts [evolving]:
  "across evolves (post_transfer jid a b x)" "across evolves (collateral_event m et x c jid)"
  "across evolves (update_posted_margin m mt x)"
  unfolding post_transfer_def collateral_event_def update_posted_margin_def
  by (auto intro!: evolving)

lemma ev_collateral_ops [evolving]:
  "across evolves (deposit_collateral m x c)" "across evolves (withdraw_collateral m x c)"
  "across evolves (transfer_to_margin m x mt)"
  unfolding deposit_collateral_def withdraw_collateral_def transfer_to_margin_def
  by (auto intro!: evolving split: option.split)

lemma ev_consume_collateral_event [evolving]:
  "across evolves (handle_collateral_event t e)" "across evolves (consume_collateral_event e)"
  unfolding consume_collateral_event_def handle_collateral_event_def by (intro evolving)+

subsection \<open>Outcomes\<close>

lemma post_transfer_Inr:
  "post_transfer jid a b x d = Inr ((), d') \<longleftrightarrow>
     num_fits (num_round x) \<and> 0 < num_round x \<and> has_journal jid d \<and> has_account a d \<and>
     has_account b d \<and>
     d' = d\<lparr>db_entries := db_entries d @
        [\<lparr>je_journal_id = jid, je_account_id = a, je_debit = 0, je_credit = num_round x\<rparr>,
         \<lparr>je_journal_id = jid, je_account_id = b, je_debit = num_round x, je_credit = 0\<rparr>],
            db_deferred := db_deferred d @ [jid, jid]\<rparr>"
  by (auto simp: post_transfer_def insert_entry_Inr tx_simps num_fits_def has_journal_def
      has_account_def)

definition moves :: "uuid \<Rightarrow> uuid \<Rightarrow> rat \<Rightarrow> db \<Rightarrow> db \<Rightarrow> bool" where
  "moves from_acct to_acct x d d' \<longleftrightarrow>
     acct_balance d' to_acct = acct_balance d to_acct + x \<and>
     acct_balance d' from_acct = acct_balance d from_acct - x \<and>
     (\<forall>a. a \<noteq> from_acct \<and> a \<noteq> to_acct \<longrightarrow> acct_balance d' a = acct_balance d a) \<and>
     (\<forall>j. journal_balanced d' j = journal_balanced d j)"

lemma moves_entries:
  assumes "db_entries e = db_entries d" "a \<noteq> b"
    "db_entries d' = db_entries e @ es" and
    "es = pair_entries jid b a x \<or> es = [\<lparr>je_journal_id = jid, je_account_id = a, je_debit = 0, je_credit = x\<rparr>,
         \<lparr>je_journal_id = jid, je_account_id = b, je_debit = x, je_credit = 0\<rparr>]"
  shows "moves a b x d d'"
  using assms by (auto simp: moves_def acct_balance_def pair_entries_def journal_balanced_def
      journal_entries_of_def split: if_splits)

lemma collateral_event_entries:
  "collateral_event m et x c jid d = Inr (u, d') \<Longrightarrow> db_entries d' = db_entries d"
  by (auto simp: collateral_event_def tx_simps insert_outbox_event_eq)

lemma add_posted_entries: "add_posted_amount m t x d = Inr (u, d') \<Longrightarrow> db_entries d' = db_entries d"
  by (auto simp: add_posted_amount_def tx_simps)

lemma deposit_Inr:
  assumes "deposit_collateral m x c d = Inr (res, d')"
  obtains ma ca where "collateral_account m ''COLLATERAL'' ''AVAILABLE'' c d = Some ma"
    "ccp_account ''SETTLEMENT'' ''AVAILABLE'' c d = Some ca" "0 < x" "0 < num_round x"
    "ma \<noteq> ca \<longrightarrow> moves ca ma (num_round x) d d'"
    "''COLLATERAL_DEPOSIT'' \<in> set (chk_journal_type (db_schema d))" "db_members d' = db_members d"
proof -
  from assms obtain ma ca jid e f where
    a: "collateral_account m ''COLLATERAL'' ''AVAILABLE'' c d = Some ma"
      "ccp_account ''SETTLEMENT'' ''AVAILABLE'' c d = Some ca" "0 < x" and
    1: "insert_journal ''COLLATERAL_DEPOSIT'' ''member'' m ''confirmed'' d = Inr (jid, e)"
      "post_pair jid ma ca x e = Inr ((), f)"
      "collateral_event m ''collateral.deposited'' x c jid f = Inr ((), d')"
    by (auto simp: deposit_collateral_def tx_simps split: option.splits)
  have "db_entries e = db_entries d" "db_entries d' = db_entries e @ pair_entries jid ma ca (num_round x)"
    using 1 by (auto simp: insert_journal_Inr post_pair_Inr dest!: collateral_event_entries)
  then have "ma \<noteq> ca \<longrightarrow> moves ca ma (num_round x) d d'" by (intro impI moves_entries) auto
  moreover have "db_members d' = db_members d"
    using 1 by (auto simp: insert_journal_Inr post_pair_Inr collateral_event_def tx_simps
        insert_outbox_event_eq)
  ultimately show thesis using a 1 that by (auto simp: insert_journal_Inr post_pair_Inr)
qed

lemma withdraw_Inr:
  assumes "withdraw_collateral m x c d = Inr (res, d')"
  obtains ma ca where "collateral_account m ''COLLATERAL'' ''AVAILABLE'' c d = Some ma"
    "ccp_account ''SETTLEMENT'' ''AVAILABLE'' c d = Some ca" "0 < x" "0 < num_round x"
    "x \<le> acct_balance d ma" "ma \<noteq> ca \<longrightarrow> moves ma ca (num_round x) d d'"
    "''COLLATERAL_WITHDRAWAL'' \<in> set (chk_journal_type (db_schema d))"
proof -
  from assms obtain ma ca jid e f where
    a: "collateral_account m ''COLLATERAL'' ''AVAILABLE'' c d = Some ma"
      "ccp_account ''SETTLEMENT'' ''AVAILABLE'' c d = Some ca" "0 < x" "x \<le> collateral_balance ma d" and
    1: "insert_journal ''COLLATERAL_WITHDRAWAL'' ''member'' m ''confirmed'' d = Inr (jid, e)"
      "post_transfer jid ma ca x e = Inr ((), f)"
      "collateral_event m ''collateral.withdrawn'' x c jid f = Inr ((), d')"
    by (auto simp: withdraw_collateral_def tx_simps split: option.splits)
  have "x \<le> acct_balance d ma" using a(3,4) by (auto simp: collateral_balance_def split: if_splits)
  moreover have "db_entries e = db_entries d" "db_entries d' = db_entries e @
      [\<lparr>je_journal_id = jid, je_account_id = ma, je_debit = 0, je_credit = num_round x\<rparr>,
       \<lparr>je_journal_id = jid, je_account_id = ca, je_debit = num_round x, je_credit = 0\<rparr>]"
    using 1 by (auto simp: insert_journal_Inr post_transfer_Inr dest!: collateral_event_entries)
  then have "ma \<noteq> ca \<longrightarrow> moves ma ca (num_round x) d d'" by (intro impI moves_entries) auto
  ultimately show thesis using a 1 that by (auto simp: insert_journal_Inr post_transfer_Inr)
qed

lemma transfer_Inr:
  assumes "transfer_to_margin m x t d = Inr (res, d')"
  obtains ca ma where "collateral_account m ''COLLATERAL'' ''AVAILABLE'' ''USD'' d = Some ca"
    "collateral_account m t ''AVAILABLE'' ''USD'' d = Some ma" "0 < x" "x \<le> acct_balance d ca"
    "ma \<noteq> ca \<longrightarrow> moves ca ma (num_round x) d d'"
    "db_requirements d' = update_where (\<lambda>r. mr_member_id r = m \<and> mr_margin_type r = t)
       (mr_posted_amount_update (\<lambda>p. num_round (p + x))) (db_requirements d)"
    "''COLLATERAL_DEPOSIT'' \<in> set (chk_journal_type (db_schema d))"
proof -
  from assms obtain ca ma jid e f where
    a: "collateral_account m ''COLLATERAL'' ''AVAILABLE'' ''USD'' d = Some ca"
      "collateral_account m t ''AVAILABLE'' ''USD'' d = Some ma" "0 < x" "x \<le> collateral_balance ca d" and
    1: "insert_journal ''COLLATERAL_DEPOSIT'' ''margin_call'' m ''confirmed'' d = Inr (jid, e)"
      "post_transfer jid ca ma x e = Inr ((), f)" "add_posted_amount m t x f = Inr ((), d')"
    by (auto simp: transfer_to_margin_def update_posted_margin_def tx_simps split: option.splits)
  have "x \<le> acct_balance d ca" using a(3,4) by (auto simp: collateral_balance_def split: if_splits)
  moreover have "db_entries e = db_entries d" "db_entries d' = db_entries e @
      [\<lparr>je_journal_id = jid, je_account_id = ca, je_debit = 0, je_credit = num_round x\<rparr>,
       \<lparr>je_journal_id = jid, je_account_id = ma, je_debit = num_round x, je_credit = 0\<rparr>]"
    using 1 by (auto simp: insert_journal_Inr post_transfer_Inr dest!: add_posted_entries)
  then have "ma \<noteq> ca \<longrightarrow> moves ca ma (num_round x) d d'" by (intro impI moves_entries) auto
  moreover have "db_requirements d' = update_where (\<lambda>r. mr_member_id r = m \<and> mr_margin_type r = t)
       (mr_posted_amount_update (\<lambda>p. num_round (p + x))) (db_requirements d)"
    using 1 by (auto simp: insert_journal_Inr post_transfer_Inr add_posted_amount_def tx_simps)
  ultimately show thesis using a 1 that by (auto simp: insert_journal_Inr)
qed

subsection \<open>Properties\<close>

text \<open>A member with a collateral account of 50 and the clearing house's settlement account.\<close>

definition collateral_db :: db where
  "collateral_db = example_db\<lparr>db_schema := widened_schema,
     db_accounts :=
       [\<lparr>a_id = 4, a_member_id = 2, a_account_type = ''COLLATERAL'', a_currency = ''USD'', a_pool = ''AVAILABLE''\<rparr>,
        \<lparr>a_id = 5, a_member_id = 0, a_account_type = ''SETTLEMENT'', a_currency = ''USD'', a_pool = ''AVAILABLE''\<rparr>,
        \<lparr>a_id = 6, a_member_id = 2, a_account_type = ''MARGIN_IM'', a_currency = ''USD'', a_pool = ''AVAILABLE''\<rparr>],
     db_journals := [\<lparr>j_id = 7, j_journal_type = ''ADJUSTMENT'', j_reference_type = ''seed'',
        j_reference_id = Some 0, j_status = ''confirmed''\<rparr>],
     db_entries := [\<lparr>je_journal_id = 7, je_account_id = 4, je_debit = 50, je_credit = 0\<rparr>,
        \<lparr>je_journal_id = 7, je_account_id = 5, je_debit = 0, je_credit = 50\<rparr>]\<rparr>"

lemmas collateral_defs = collateral_db_def example_defs widened_schema_def schema_defs
  JournalType_members_def

lemma collateral_example_accounts:
  "collateral_account 2 ''COLLATERAL'' ''AVAILABLE'' ''USD'' collateral_db = Some 4"
  "ccp_account ''SETTLEMENT'' ''AVAILABLE'' ''USD'' collateral_db = Some 5"
  "acct_balance collateral_db 4 = 50"
  by (simp_all add: collateral_account_def ccp_account_def acct_balance_def collateral_db_def example_defs ccp_lei_def)

lemma collateral_example_wf: "ledger_wf collateral_db"
  by (simp add: ledger_wf_def journal_balanced_def journal_entries_of_def has_journal_def
      has_account_def entry_valid_def num_valued_numeral collateral_db_def example_defs)
    (simp add: num_valued_def num_fits_def)

lemma deposit_run: "\<exists>res d'. deposit_collateral 2 20 ''USD'' collateral_db = Inr (res, d')"
  by (simp add: deposit_collateral_def tx_simps collateral_example_accounts insert_journal_Inr
      post_pair_Inr collateral_event_def insert_outbox_event_eq whole_eval num_fits_def has_defs)
    (simp add: collateral_defs)

lemma withdraw_ok:
  assumes "collateral_account m ''COLLATERAL'' ''AVAILABLE'' c d = Some ma"
    "ccp_account ''SETTLEMENT'' ''AVAILABLE'' c d = Some ca" "0 < x" "num_valued x"
    "x \<le> acct_balance d ma" "''COLLATERAL_WITHDRAWAL'' \<in> set (chk_journal_type (db_schema d))"
    "''confirmed'' \<in> set (chk_journal_status (db_schema d))"
  shows "\<exists>res d'. withdraw_collateral m x c d = Inr (res, d')"
proof -
  have acc: "has_account ma d" "has_account ca d" using assms(1,2)
    by (auto simp: collateral_account_def ccp_account_def has_account_def dest!: fetchone_Some split: if_splits)
  then show ?thesis using assms
    by (simp add: withdraw_collateral_def tx_simps collateral_balance_def insert_journal_Inr
        post_transfer_Inr collateral_event_def insert_outbox_event_eq num_valued_def)
      (simp add: has_journal_def has_account_def)
qed

lemma withdraw_run: "\<exists>res d'. withdraw_collateral 2 20 ''USD'' collateral_db = Inr (res, d')"
  by (rule withdraw_ok [OF collateral_example_accounts(1,2)])
    (simp_all add: collateral_example_accounts num_valued_numeral, simp_all add: collateral_defs)

lemma acct_balance_rounded: "ledger_wf d \<Longrightarrow> num_round (acct_balance d a) = acct_balance d a"
proof -
  assume wf: "ledger_wf d"
  have "num_round (je_debit e - je_credit e) = je_debit e - je_credit e" if "e \<in> set (db_entries d)" for e
    using wf that num_round_minus [of "je_credit e"]
    by (auto simp: ledger_wf_def entry_valid_def num_valued_def)
  then show ?thesis unfolding acct_balance_def by (intro num_valued_sum) auto
qed





text \<open>The answer to a margin call is not credited: the collateral manager looks for
  requirements of the type \<open>MARGIN_IM\<close>, which the table cannot hold, so the transfer leaves
  every requirement, and with it the shortfall that was called, as it was.\<close>

theorem margin_answer_not_credited:
  assumes "transfer_to_margin m x ''MARGIN_IM'' d = Inr (res, d')"
    and "\<And>r. r \<in> set (db_requirements d) \<Longrightarrow> mr_margin_type r \<in> set margin_type_check"
  shows "db_requirements d' = db_requirements d \<and>
     check_shortfall m i ''INITIAL'' d' = check_shortfall m i ''INITIAL'' d"
proof -
  from assms(1) have "db_requirements d' = update_where (\<lambda>r. mr_member_id r = m \<and> mr_margin_type r = ''MARGIN_IM'')
       (mr_posted_amount_update (\<lambda>p. num_round (p + x))) (db_requirements d)"
    by (rule transfer_Inr)
  moreover have "\<not> (mr_member_id r = m \<and> mr_margin_type r = ''MARGIN_IM'')"
    if "r \<in> set (db_requirements d)" for r
    using assms(2) [OF that] by (auto simp: margin_type_check_def)
  ultimately have "db_requirements d' = db_requirements d" by (simp add: update_where_none)
  then show ?thesis by (simp add: check_shortfall_def requirement_of_def)
qed

theorem margin_answer_not_credited_witness:
  "\<exists>res d'. transfer_to_margin 2 20 ''MARGIN_IM'' (collateral_db\<lparr>db_requirements :=
       [\<lparr>mr_id = 8, mr_member_id = 2, mr_instrument_id = 3, mr_margin_type = ''INITIAL'',
         mr_required_amount = 20, mr_posted_amount = 0\<rparr>]\<rparr>) = Inr (res, d') \<and>
     check_shortfall 2 3 ''INITIAL'' d' = 20" (is "\<exists>res d'. transfer_to_margin _ _ _ ?d = _ \<and> _")
proof -
  have "collateral_account 2 ''COLLATERAL'' ''AVAILABLE'' ''USD'' ?d = Some 4"
    "collateral_account 2 ''MARGIN_IM'' ''AVAILABLE'' ''USD'' ?d = Some 6"
    "collateral_balance 4 ?d = 50"
    by (simp_all add: collateral_account_def collateral_balance_def has_account_def acct_balance_def
        collateral_db_def example_defs)
  then have "\<exists>res d'. transfer_to_margin 2 20 ''MARGIN_IM'' ?d = Inr (res, d')"
    by (simp add: transfer_to_margin_def tx_simps insert_journal_Inr post_transfer_Inr
        update_posted_margin_def add_posted_amount_def whole_eval num_fits_def has_defs)
      (simp add: collateral_defs)
  then obtain res d' where run: "transfer_to_margin 2 20 ''MARGIN_IM'' ?d = Inr (res, d')" by blast
  have "check_shortfall 2 3 ''INITIAL'' ?d = 20"
    by (simp add: check_shortfall_def requirement_of_def mr_shortfall_def)
  with margin_answer_not_credited [OF run, of 3] run show ?thesis
    by (simp add: margin_type_check_def)
qed

text \<open>On the migrated schema the journal types of the collateral manager are refused.\<close>

lemma collateral_refused_on_migrated_schema:
  assumes "db_schema d = migrated_schema"
  shows "(\<exists>e. deposit_collateral m x c d = Inl e) \<and> (\<exists>e. withdraw_collateral m x c d = Inl e) \<and>
     (\<exists>e. transfer_to_margin m x t d = Inl e)"
proof (intro conjI)
  show "\<exists>e. deposit_collateral m x c d = Inl e"
    by (cases "deposit_collateral m x c d") (auto elim!: deposit_Inr simp: assms schema_defs)
  show "\<exists>e. withdraw_collateral m x c d = Inl e"
    by (cases "withdraw_collateral m x c d") (auto elim!: withdraw_Inr simp: assms schema_defs)
  show "\<exists>e. transfer_to_margin m x t d = Inl e"
    by (cases "transfer_to_margin m x t d") (auto elim!: transfer_Inr simp: assms schema_defs)
qed

end
