(* ===== verification/Seed.thy ===== *)
theory Seed
  imports Ledger
begin

section \<open>The seed script\<close>

text \<open>
  \<open>scripts/seed-members.py\<close>: the house account, the clearing members with their accounts, the
  instruments, and the default fund contributions as journals. The \<open>INSERT ... ON CONFLICT\<close>
  statements draw their column defaults whether the row is new or not.
\<close>

subsection \<open>The data\<close>

record seed_member =
  sm_lei :: string
  sm_name :: string
  sm_credit_limit :: rat

definition MEMBERS :: "seed_member list" where
  "MEMBERS =
     [\<lparr>sm_lei = ''529900HNOAA1KXQJUQ27'', sm_name = ''Alpha Capital Markets'', sm_credit_limit = 50000000\<rparr>,
      \<lparr>sm_lei = ''213800WSGIIZCXF1P572'', sm_name = ''Beta Securities LLC'', sm_credit_limit = 75000000\<rparr>,
      \<lparr>sm_lei = ''549300MLUDYVRQOOXS22'', sm_name = ''Gamma Digital Assets'', sm_credit_limit = 30000000\<rparr>,
      \<lparr>sm_lei = ''353800KFBP72XHSW7E44'', sm_name = ''Delta Institutional Trading'', sm_credit_limit = 100000000\<rparr>,
      \<lparr>sm_lei = ''815600OPPT9MZBGEE678'', sm_name = ''Epsilon Fund Services'', sm_credit_limit = 60000000\<rparr>]"

definition ACCOUNT_TYPES :: "string list" where
  "ACCOUNT_TYPES = [''MARGIN_IM'', ''MARGIN_VM'', ''DEFAULT_FUND'', ''COLLATERAL'', ''SETTLEMENT'']"

definition POOLS :: "string list" where
  "POOLS = [''AVAILABLE'', ''LOCKED'']"

record seed_instrument =
  sn_symbol :: string
  sn_asset_class :: string
  sn_settlement_type :: string
  sn_margin_rate_im :: rat
  sn_margin_rate_vm :: rat
  sn_chain_id :: "string option"
  sn_contract_address :: "string option"

definition INSTRUMENTS :: "seed_instrument list" where
  "INSTRUMENTS =
     [\<lparr>sn_symbol = ''BTC-PERP'', sn_asset_class = ''crypto_perpetual'', sn_settlement_type = ''cash'',
       sn_margin_rate_im = 1 / 10, sn_margin_rate_vm = 5 / 100, sn_chain_id = None,
       sn_contract_address = None\<rparr>,
      \<lparr>sn_symbol = ''ETH-FUTURE-Q2'', sn_asset_class = ''crypto_future'', sn_settlement_type = ''cash'',
       sn_margin_rate_im = 12 / 100, sn_margin_rate_vm = 6 / 100, sn_chain_id = None,
       sn_contract_address = None\<rparr>,
      \<lparr>sn_symbol = ''BTC-OPTION-30K'', sn_asset_class = ''crypto_option'', sn_settlement_type = ''cash'',
       sn_margin_rate_im = 15 / 100, sn_margin_rate_vm = 7 / 100, sn_chain_id = None,
       sn_contract_address = None\<rparr>,
      \<lparr>sn_symbol = ''AAPL-TOKEN'', sn_asset_class = ''tokenized_equity'', sn_settlement_type = ''dvp'',
       sn_margin_rate_im = 5 / 100, sn_margin_rate_vm = 25 / 1000, sn_chain_id = Some ''ethereum-mainnet'',
       sn_contract_address = Some ''0x1234567890abcdef1234567890abcdef12345678''\<rparr>,
      \<lparr>sn_symbol = ''TBOND-10Y'', sn_asset_class = ''tokenized_bond'', sn_settlement_type = ''dvp'',
       sn_margin_rate_im = 3 / 100, sn_margin_rate_vm = 15 / 1000, sn_chain_id = Some ''ethereum-mainnet'',
       sn_contract_address = Some ''0xabcdef1234567890abcdef1234567890abcdef12''\<rparr>,
      \<lparr>sn_symbol = ''REALESTATE-RWA-1'', sn_asset_class = ''tokenized_rwa'', sn_settlement_type = ''dvp'',
       sn_margin_rate_im = 2 / 10, sn_margin_rate_vm = 1 / 10, sn_chain_id = Some ''polygon-mainnet'',
       sn_contract_address = Some ''0x9876543210fedcba9876543210fedcba98765432''\<rparr>]"

definition DEFAULT_FUND_AMOUNTS :: "(string \<times> rat) list" where
  "DEFAULT_FUND_AMOUNTS =
     [(''Alpha Capital Markets'', 5000000), (''Beta Securities LLC'', 7500000),
      (''Gamma Digital Assets'', 3000000), (''Delta Institutional Trading'', 10000000),
      (''Epsilon Fund Services'', 6000000)]"

subsection \<open>The statements\<close>

text \<open>\<open>INSERT INTO members ... ON CONFLICT (lei) DO UPDATE ... RETURNING id\<close>.\<close>

definition upsert_member :: "string \<Rightarrow> string \<Rightarrow> rat \<Rightarrow> (rat \<Rightarrow> member_row \<Rightarrow> member_row) \<Rightarrow> uuid ccp" where
  "upsert_member lei name limit upd =
     bind_tx fresh_uuid (\<lambda>mid.
     bind_tx (numeric limit) (\<lambda>l.
     bind_tx (check_vocab ''chk_members_status'' chk_member_status ''active'') (\<lambda>_.
     bind_tx (gets_tx (\<lambda>d. fetchone (\<lambda>m. m_lei m = lei) (db_members d))) (\<lambda>old.
     case old of
       Some m \<Rightarrow> bind_tx (modify_tx (\<lambda>d. d\<lparr>db_members :=
            update_where (\<lambda>r. m_lei r = lei) (\<lambda>r. upd l (r\<lparr>m_name := name\<rparr>)) (db_members d)\<rparr>)) (\<lambda>_.
          return_tx (m_id m))
     | None \<Rightarrow> bind_tx (modify_tx (\<lambda>d. d\<lparr>db_members := db_members d @
            [\<lparr>m_id = mid, m_lei = lei, m_name = name, m_status = ''active'', m_credit_limit = l\<rparr>]\<rparr>)) (\<lambda>_.
          return_tx mid)))))"

definition insert_account_if_new :: "uuid \<Rightarrow> string \<Rightarrow> string \<Rightarrow> unit ccp" where
  "insert_account_if_new m ty pool =
     bind_tx fresh_uuid (\<lambda>aid.
     bind_tx (check_vocab ''chk_accounts_type'' chk_account_type ty) (\<lambda>_.
     bind_tx (check_vocab ''chk_accounts_pool'' chk_pool pool) (\<lambda>_.
     bind_tx (gets_tx (\<lambda>d. \<exists>a \<in> set (db_accounts d). a_member_id a = m \<and> a_account_type a = ty \<and>
        a_currency a = ''USD'' \<and> a_pool a = pool)) (\<lambda>old.
     if old then return_tx ()
     else bind_tx (foreign_key ''accounts_member_id_fkey'' (has_member m)) (\<lambda>_.
          modify_tx (\<lambda>d. d\<lparr>db_accounts := db_accounts d @
            [\<lparr>a_id = aid, a_member_id = m, a_account_type = ty, a_currency = ''USD'', a_pool = pool\<rparr>]\<rparr>))))))"

text \<open>A margin rate is a \<open>NUMERIC(10, 6)\<close>.\<close>

definition margin_rate :: "rat \<Rightarrow> rat ccp" where
  "margin_rate x = (let r = num_round (x / 100) * 100 in
     if \<bar>r\<bar> < 10 ^ 4 then return_tx r else raise_tx NumericValueOutOfRange)"

definition insert_instrument_if_new :: "seed_instrument \<Rightarrow> unit ccp" where
  "insert_instrument_if_new i =
     bind_tx fresh_uuid (\<lambda>iid.
     bind_tx (margin_rate (sn_margin_rate_im i)) (\<lambda>im.
     bind_tx (margin_rate (sn_margin_rate_vm i)) (\<lambda>vm.
     bind_tx (check_vocab ''chk_instruments_asset_class'' chk_asset_class (sn_asset_class i)) (\<lambda>_.
     bind_tx (check_vocab ''chk_instruments_settlement_type'' chk_instrument_settlement_type
        (sn_settlement_type i)) (\<lambda>_.
     bind_tx (gets_tx (\<lambda>d. \<exists>r \<in> set (db_instruments d). i_symbol r = sn_symbol i)) (\<lambda>old.
     if old then return_tx ()
     else modify_tx (\<lambda>d. d\<lparr>db_instruments := db_instruments d @
       [\<lparr>i_id = iid, i_symbol = sn_symbol i, i_asset_class = sn_asset_class i,
         i_settlement_type = sn_settlement_type i, i_margin_rate_im = im, i_margin_rate_vm = vm,
         i_chain_id = sn_chain_id i, i_contract_address = sn_contract_address i,
         i_is_active = True\<rparr>]\<rparr>)))))))"

text \<open>The journal of a contribution has no \<open>reference_id\<close>.\<close>

definition insert_seed_journal :: "uuid ccp" where
  "insert_seed_journal =
     bind_tx fresh_uuid (\<lambda>jid.
     bind_tx (check_vocab ''chk_journals_type'' chk_journal_type ''DEFAULT_FUND_CONTRIBUTION'') (\<lambda>_.
     bind_tx (check_vocab ''chk_journals_status'' chk_journal_status ''confirmed'') (\<lambda>_.
     bind_tx (modify_tx (\<lambda>d. d\<lparr>db_journals := db_journals d @
        [\<lparr>j_id = jid, j_journal_type = ''DEFAULT_FUND_CONTRIBUTION'', j_reference_type = ''seed'',
          j_reference_id = None, j_status = ''confirmed''\<rparr>]\<rparr>)) (\<lambda>_.
     return_tx jid))))"

subsection \<open>The script\<close>

definition seed_accounts :: "uuid \<Rightarrow> string list \<Rightarrow> unit ccp" where
  "seed_accounts m types =
     bind_tx (for_tx (\<lambda>(ty, pool). insert_account_if_new m ty pool) (List.product types POOLS))
       (\<lambda>_. return_tx ())"

definition seed_ccp_house_account :: "uuid ccp" where
  "seed_ccp_house_account =
     bind_tx (upsert_member ccp_lei ''CCP House Account'' 0 (\<lambda>_ r. r)) (\<lambda>ccp_id.
     bind_tx (seed_accounts ccp_id (ACCOUNT_TYPES @ [''CCP_EQUITY''])) (\<lambda>_.
     return_tx ccp_id))"

definition seed_member_accounts :: "seed_member \<Rightarrow> (string \<times> uuid) ccp" where
  "seed_member_accounts m =
     bind_tx (upsert_member (sm_lei m) (sm_name m) (sm_credit_limit m) (\<lambda>l r. r\<lparr>m_credit_limit := l\<rparr>)) (\<lambda>mid.
     bind_tx (seed_accounts mid ACCOUNT_TYPES) (\<lambda>_.
     return_tx (sm_name m, mid)))"

definition seed_members :: "(string \<times> uuid) list ccp" where
  "seed_members = for_tx seed_member_accounts MEMBERS"

definition seed_instruments :: "unit ccp" where
  "seed_instruments = bind_tx (for_tx insert_instrument_if_new INSTRUMENTS) (\<lambda>_. return_tx ())"

definition seed_contribution :: "(string \<times> uuid) list \<Rightarrow> uuid \<Rightarrow> string \<times> rat \<Rightarrow> unit ccp" where
  "seed_contribution member_ids ccp_id = (\<lambda>(name, amount).
     case map_of member_ids name of
       None \<Rightarrow> raise_tx (KeyError name)
     | Some mid \<Rightarrow>
       bind_tx (gets_tx (find_account mid ''DEFAULT_FUND'' ''AVAILABLE'')) (\<lambda>member_acct.
       bind_tx (gets_tx (find_account ccp_id ''CCP_EQUITY'' ''AVAILABLE'')) (\<lambda>ccp_acct.
       case (member_acct, ccp_acct) of
         (Some ma, Some ca) \<Rightarrow>
           bind_tx insert_seed_journal (\<lambda>jid. post_pair jid (a_id ma) (a_id ca) amount)
       | _ \<Rightarrow> return_tx ())))"

definition seed_default_fund :: "(string \<times> uuid) list \<Rightarrow> uuid \<Rightarrow> unit ccp" where
  "seed_default_fund member_ids ccp_id =
     bind_tx (for_tx (seed_contribution member_ids ccp_id) DEFAULT_FUND_AMOUNTS) (\<lambda>_. return_tx ())"

definition seed_main :: "unit ccp" where
  "seed_main =
     bind_tx seed_ccp_house_account (\<lambda>ccp_id.
     bind_tx seed_members (\<lambda>member_ids.
     bind_tx seed_instruments (\<lambda>_.
     bind_tx (seed_default_fund member_ids ccp_id) (\<lambda>_.
     commit))))"

subsection \<open>What the statements add\<close>

definition lei_id :: "string \<Rightarrow> db \<Rightarrow> uuid option" where
  "lei_id lei d = map_option m_id (fetchone (\<lambda>m. m_lei m = lei) (db_members d))"

definition account_of :: "uuid \<Rightarrow> string \<Rightarrow> string \<Rightarrow> db \<Rightarrow> bool" where
  "account_of m ty pool d \<longleftrightarrow> (\<exists>a. find_account m ty pool d = Some a)"

definition fresh_accounts :: "db \<Rightarrow> bool" where
  "fresh_accounts d \<longleftrightarrow> fresh_ids (db_next_uuid d) (map a_id (db_accounts d))"

definition sets_up :: "db \<Rightarrow> db \<Rightarrow> bool" where
  "sets_up d d' \<longleftrightarrow> db_schema d' = db_schema d \<and> prefix (db_accounts d) (db_accounts d') \<and>
     (\<forall>m. has_member m d \<longrightarrow> has_member m d') \<and>
     (\<forall>lei i. lei_id lei d = Some i \<longrightarrow> lei_id lei d' = Some i) \<and>
     db_entries d' = db_entries d \<and> db_journals d' = db_journals d \<and>
     db_deferred d' = db_deferred d \<and> (fresh_accounts d \<longrightarrow> fresh_accounts d')"

lemma has_member_ids: "has_member m d \<longleftrightarrow> m \<in> set (map m_id (db_members d))"
  by (auto simp: has_member_def)

lemma sets_up_refl [simp]: "sets_up d d"
  by (simp add: sets_up_def)

lemma sets_up_trans: "sets_up d e \<Longrightarrow> sets_up e f \<Longrightarrow> sets_up d f"
  unfolding sets_up_def by (auto intro: prefix_order.trans)

lemma sets_up_keeps:
  assumes "sets_up d d'"
  shows "has_member m d \<Longrightarrow> has_member m d'" "account_of m ty pool d \<Longrightarrow> account_of m ty pool d'"
    "find_account m ty pool d = Some a \<Longrightarrow> find_account m ty pool d' = Some a"
    "db_schema d' = db_schema d" "lei_id lei d = Some i \<Longrightarrow> lei_id lei d' = Some i"
    "fresh_accounts d \<Longrightarrow> fresh_accounts d'"
  using assms
  by (auto simp: sets_up_def account_of_def find_account_def prefix_def fetchone_append)

lemma upsert_member_run:
  assumes "''active'' \<in> set (chk_member_status (db_schema d))" "num_fits (num_round x)"
    "\<And>l r. m_id (upd l r) = m_id r \<and> m_lei (upd l r) = m_lei r"
  shows "\<exists>i d'. upsert_member lei name x upd d = Inr (i, d') \<and> sets_up d d' \<and>
    lei_id lei d' = Some i \<and> has_member i d'"
proof (cases "fetchone (\<lambda>m. m_lei m = lei) (db_members d)")
  case None
  then show ?thesis using assms
    by (auto simp: upsert_member_def fresh_uuid_def numeric_def check_vocab_def run_simps sets_up_def
        lei_id_def has_member_def fetchone_append fresh_accounts_def)
next
  case (Some m)
  let ?d = "d\<lparr>db_next_uuid := Suc (db_next_uuid d), db_members := update_where (\<lambda>r. m_lei r = lei)
     (\<lambda>r. upd (num_round x) (r\<lparr>m_name := name\<rparr>)) (db_members d)\<rparr>"
  have "fetchone (\<lambda>m. m_lei m = l) (update_where p f rows) = map_option (\<lambda>r. if p r then f r else r)
      (fetchone (\<lambda>m. m_lei m = l) rows)" if "\<And>r. m_lei (f r) = m_lei r" for l p f and rows :: "member_row list"
    using that by (induction rows) auto
  from this [of "\<lambda>r. upd (num_round x) (r\<lparr>m_name := name\<rparr>)"] assms(3)
  have leis: "lei_id l ?d = lei_id l d" for l
    by (simp add: lei_id_def option.map_comp comp_def) (auto intro!: map_option_cong)
  have ids: "map m_id (db_members ?d) = map m_id (db_members d)"
    using assms(3) by (simp add: map_update_where)
  have "has_member (m_id m) d" using fetchone_Some [OF Some] by (auto simp: has_member_def)
  then have "has_member (m_id m) ?d" unfolding has_member_ids ids .
  moreover have "upsert_member lei name x upd d = Inr (m_id m, ?d)"
    using assms Some by (simp add: upsert_member_def fresh_uuid_def numeric_def check_vocab_def run_simps)
  moreover have "lei_id lei ?d = Some (m_id m)" unfolding leis using Some by (simp add: lei_id_def)
  moreover have "sets_up d ?d"
    unfolding sets_up_def has_member_ids ids leis by (simp add: fresh_accounts_def)
  ultimately show ?thesis by blast
qed

lemma insert_account_run:
  assumes "ty \<in> set (chk_account_type (db_schema d))" "pool \<in> set (chk_pool (db_schema d))" "has_member m d"
  shows "\<exists>d'. insert_account_if_new m ty pool d = Inr ((), d') \<and> sets_up d d' \<and> account_of m ty pool d'"
  using assms
  by (auto simp: insert_account_if_new_def fresh_uuid_def check_vocab_def foreign_key_def run_simps
      sets_up_def lei_id_def has_member_def account_of_def find_account_def fetchone_ex fresh_accounts_def)

lemma insert_accounts_run:
  assumes "\<And>ty pool. (ty, pool) \<in> set ps \<Longrightarrow>
     ty \<in> set (chk_account_type (db_schema d)) \<and> pool \<in> set (chk_pool (db_schema d))" "has_member m d"
  shows "\<exists>u d'. for_tx (\<lambda>(ty, pool). insert_account_if_new m ty pool) ps d = Inr (u, d') \<and> sets_up d d' \<and>
     (\<forall>(ty, pool) \<in> set ps. account_of m ty pool d')"
  using assms
proof (induction ps arbitrary: d)
  case Nil
  then show ?case by (simp add: run_simps)
next
  case (Cons p ps)
  obtain ty pool where p: "p = (ty, pool)" by fastforce
  obtain d1 where d1: "insert_account_if_new m ty pool d = Inr ((), d1)" "sets_up d d1"
    "account_of m ty pool d1"
    using insert_account_run [of ty d pool m] Cons.prems p by auto
  obtain u d2 where d2: "for_tx (\<lambda>(ty, pool). insert_account_if_new m ty pool) ps d1 = Inr (u, d2)"
    "sets_up d1 d2" "\<forall>(ty, pool) \<in> set ps. account_of m ty pool d2"
    using Cons.IH [of d1] Cons.prems sets_up_keeps [OF d1(2)] by auto
  then show ?case using d1 p sets_up_keeps(2) [OF d2(2) d1(3)] sets_up_trans [OF d1(2) d2(2)]
    by (auto simp: run_simps)
qed

definition seed_vocab :: "schema \<Rightarrow> bool" where
  "seed_vocab s \<longleftrightarrow> ''active'' \<in> set (chk_member_status s) \<and>
     set (ACCOUNT_TYPES @ [''CCP_EQUITY'']) \<subseteq> set (chk_account_type s) \<and> set POOLS \<subseteq> set (chk_pool s) \<and>
     set (map sn_asset_class INSTRUMENTS) \<subseteq> set (chk_asset_class s) \<and>
     set (map sn_settlement_type INSTRUMENTS) \<subseteq> set (chk_instrument_settlement_type s) \<and>
     ''DEFAULT_FUND_CONTRIBUTION'' \<in> set (chk_journal_type s) \<and> ''confirmed'' \<in> set (chk_journal_status s)"

lemma migrated_seed_vocab: "seed_vocab migrated_schema"
  by (simp add: seed_vocab_def schema_defs ACCOUNT_TYPES_def POOLS_def INSTRUMENTS_def)

lemma seed_accounts_run:
  assumes "seed_vocab (db_schema d)" "set types \<subseteq> set (ACCOUNT_TYPES @ [''CCP_EQUITY''])" "has_member m d"
  shows "\<exists>d'. seed_accounts m types d = Inr ((), d') \<and> sets_up d d' \<and>
     (\<forall>ty \<in> set types. account_of m ty ''AVAILABLE'' d')"
proof -
  have "\<And>ty pool. (ty, pool) \<in> set (List.product types POOLS) \<Longrightarrow>
     ty \<in> set (chk_account_type (db_schema d)) \<and> pool \<in> set (chk_pool (db_schema d))"
    using assms(1,2) by (auto simp: seed_vocab_def)
  from insert_accounts_run [OF this assms(3)] obtain u d' where d':
    "for_tx (\<lambda>(ty, pool). insert_account_if_new m ty pool) (List.product types POOLS) d = Inr (u, d')"
    "sets_up d d'" "\<forall>(ty, pool) \<in> set (List.product types POOLS). account_of m ty pool d'" by blast
  have "account_of m ty ''AVAILABLE'' d'" if "ty \<in> set types" for ty
    using d'(3) that by (auto simp: POOLS_def)
  with d' show ?thesis by (simp add: seed_accounts_def run_simps)
qed

lemma num_fits_numeral: "numeral k < (10 :: rat) ^ 20 \<Longrightarrow> num_fits (num_round (numeral k))"
  using num_valued_numeral [of k] by (simp add: num_valued_def num_round_numeral)

lemma seed_house_run:
  assumes "seed_vocab (db_schema d)"
  shows "\<exists>c d'. seed_ccp_house_account d = Inr (c, d') \<and> sets_up d d' \<and>
    lei_id ccp_lei d' = Some c \<and> account_of c ''CCP_EQUITY'' ''AVAILABLE'' d'"
proof -
  have "''active'' \<in> set (chk_member_status (db_schema d))" using assms by (simp add: seed_vocab_def)
  then obtain c d1 where d1: "upsert_member ccp_lei ''CCP House Account'' 0 (\<lambda>_ r. r) d = Inr (c, d1)"
    "sets_up d d1" "lei_id ccp_lei d1 = Some c" "has_member c d1"
    using upsert_member_run [of d 0 "\<lambda>_ r. r" ccp_lei "''CCP House Account''"]
    by (auto simp: num_fits_def)
  have "seed_vocab (db_schema d1)" using assms sets_up_keeps(4) [OF d1(2)] by simp
  from seed_accounts_run [OF this subset_refl d1(4)] obtain d2 where
    "seed_accounts c (ACCOUNT_TYPES @ [''CCP_EQUITY'']) d1 = Inr ((), d2)" "sets_up d1 d2"
    "\<forall>ty \<in> set (ACCOUNT_TYPES @ [''CCP_EQUITY'']). account_of c ty ''AVAILABLE'' d2" by blast
  with d1 show ?thesis
    by (auto simp: seed_ccp_house_account_def run_simps intro: sets_up_trans sets_up_keeps(5))
qed

lemma seed_member_run:
  assumes "seed_vocab (db_schema d)" "num_fits (num_round (sm_credit_limit m))"
  shows "\<exists>i d'. seed_member_accounts m d = Inr ((sm_name m, i), d') \<and> sets_up d d' \<and>
    account_of i ''DEFAULT_FUND'' ''AVAILABLE'' d'"
proof -
  have "''active'' \<in> set (chk_member_status (db_schema d))" using assms by (simp add: seed_vocab_def)
  then obtain i d1 where d1:
    "upsert_member (sm_lei m) (sm_name m) (sm_credit_limit m) (\<lambda>l r. r\<lparr>m_credit_limit := l\<rparr>) d = Inr (i, d1)"
    "sets_up d d1" "has_member i d1"
    using upsert_member_run [of d "sm_credit_limit m" "\<lambda>l r. r\<lparr>m_credit_limit := l\<rparr>"] assms(2)
    by fastforce
  have "seed_vocab (db_schema d1)" using assms sets_up_keeps(4) [OF d1(2)] by simp
  from seed_accounts_run [OF this _ d1(3), of ACCOUNT_TYPES] obtain d2 where
    "seed_accounts i ACCOUNT_TYPES d1 = Inr ((), d2)" "sets_up d1 d2"
    "\<forall>ty \<in> set ACCOUNT_TYPES. account_of i ty ''AVAILABLE'' d2" by auto
  with d1 show ?thesis
    by (auto simp: seed_member_accounts_def run_simps ACCOUNT_TYPES_def intro: sets_up_trans)
qed

lemma seed_members_run:
  assumes "seed_vocab (db_schema d)" "\<And>m. m \<in> set ms \<Longrightarrow> num_fits (num_round (sm_credit_limit m))"
  shows "\<exists>ids d'. for_tx seed_member_accounts ms d = Inr (ids, d') \<and> sets_up d d' \<and>
    map fst ids = map sm_name ms \<and>
    (\<forall>(n, i) \<in> set ids. account_of i ''DEFAULT_FUND'' ''AVAILABLE'' d')"
  using assms
proof (induction ms arbitrary: d)
  case Nil
  then show ?case by (simp add: run_simps)
next
  case (Cons m ms)
  obtain i d1 where d1: "seed_member_accounts m d = Inr ((sm_name m, i), d1)" "sets_up d d1"
    "account_of i ''DEFAULT_FUND'' ''AVAILABLE'' d1"
    using seed_member_run [OF Cons.prems(1), of m] Cons.prems(2) by auto
  obtain ids d2 where "for_tx seed_member_accounts ms d1 = Inr (ids, d2)" "sets_up d1 d2"
    "map fst ids = map sm_name ms" "\<forall>(n, i) \<in> set ids. account_of i ''DEFAULT_FUND'' ''AVAILABLE'' d2"
    using Cons.IH [of d1] Cons.prems sets_up_keeps(4) [OF d1(2)] by auto
  then show ?case using d1 sets_up_trans [OF d1(2)] sets_up_keeps(2)
    by (auto simp: run_simps)
qed

lemma margin_rate_run:
  assumes "num_round (x / 100) * 100 = x" "\<bar>x\<bar> < 10 ^ 4"
  shows "margin_rate x d = Inr (x, d)"
  using assms by (simp add: margin_rate_def run_simps)

lemma insert_instrument_run:
  assumes "sn_asset_class i \<in> set (chk_asset_class (db_schema d))"
    "sn_settlement_type i \<in> set (chk_instrument_settlement_type (db_schema d))"
    "\<And>x. x \<in> {sn_margin_rate_im i, sn_margin_rate_vm i} \<Longrightarrow> num_round (x / 100) * 100 = x \<and> \<bar>x\<bar> < 10 ^ 4"
  shows "\<exists>d'. insert_instrument_if_new i d = Inr ((), d') \<and> sets_up d d'"
  using assms
  by (auto simp: insert_instrument_if_new_def fresh_uuid_def margin_rate_run check_vocab_def bind_tx_def
      gets_tx_def modify_tx_def return_tx_def guard_tx_def sets_up_def lei_id_def has_member_def
      find_account_def fresh_accounts_def)

lemma seed_rates:
  "i \<in> set INSTRUMENTS \<Longrightarrow> x \<in> {sn_margin_rate_im i, sn_margin_rate_vm i} \<Longrightarrow>
     num_round (x / 100) * 100 = x \<and> \<bar>x\<bar> < 10 ^ 4"
proof -
  have "list_all (\<lambda>i. list_all (\<lambda>x. num_round (x / 100) * 100 = x \<and> \<bar>x\<bar> < 10 ^ 4)
     [sn_margin_rate_im i, sn_margin_rate_vm i]) INSTRUMENTS"
    by code_simp
  then show "i \<in> set INSTRUMENTS \<Longrightarrow> x \<in> {sn_margin_rate_im i, sn_margin_rate_vm i} \<Longrightarrow>
     num_round (x / 100) * 100 = x \<and> \<bar>x\<bar> < 10 ^ 4"
    by (auto simp: list_all_iff)
qed

lemma seed_instruments_run:
  assumes "seed_vocab (db_schema d)"
  shows "\<exists>d'. seed_instruments d = Inr ((), d') \<and> sets_up d d'"
proof -
  have "\<exists>u d'. for_tx insert_instrument_if_new is d = Inr (u, d') \<and> sets_up d d'"
    if "set is \<subseteq> set INSTRUMENTS" "seed_vocab (db_schema d)" for "is" d
    using that
  proof (induction "is" arbitrary: d)
    case Nil
    then show ?case by (simp add: run_simps)
  next
    case (Cons i "is")
    obtain d1 where d1: "insert_instrument_if_new i d = Inr ((), d1)" "sets_up d d1"
    proof -
      have "i \<in> set INSTRUMENTS" using Cons.prems by simp
      moreover from this have "sn_asset_class i \<in> set (chk_asset_class (db_schema d))"
        "sn_settlement_type i \<in> set (chk_instrument_settlement_type (db_schema d))"
        using Cons.prems(2) by (auto simp: seed_vocab_def)
      ultimately show thesis using insert_instrument_run [of i d] seed_rates [of i] that by blast
    qed
    then show ?case using Cons.IH [of d1] Cons.prems sets_up_keeps(4) [OF d1(2)] sets_up_trans [OF d1(2)]
      by (auto simp: run_simps)
  qed
  from this [OF subset_refl assms] show ?thesis by (auto simp: seed_instruments_def run_simps)
qed

subsection \<open>The contributions\<close>

lemma ev_insert_seed_journal [evolving]: "across evolves insert_seed_journal"
  by (rule acrossI) (auto simp: insert_seed_journal_def evolve_simps)

lemma ev_seed_default_fund [evolving]: "across evolves (seed_default_fund ids c)"
  unfolding seed_default_fund_def seed_contribution_def
  by (auto intro!: evolving split: option.split prod.split)

text \<open>What stays as it is between two contributions.\<close>

definition same_books :: "db \<Rightarrow> db \<Rightarrow> bool" where
  "same_books d d' \<longleftrightarrow> db_schema d' = db_schema d \<and> db_accounts d' = db_accounts d \<and>
     db_members d' = db_members d \<and> (fresh_accounts d \<longrightarrow> fresh_accounts d') \<and>
     (\<forall>j. journal_balanced d' j = journal_balanced d j)"

lemma seed_contribution_run:
  assumes "seed_vocab (db_schema d)" "fresh_accounts d" "map_of ids name = Some i"
    "find_account i ''DEFAULT_FUND'' ''AVAILABLE'' d = Some ma"
    "find_account c ''CCP_EQUITY'' ''AVAILABLE'' d = Some ca"
    "num_fits (num_round x)" "0 < num_round x"
  shows "\<exists>d'. seed_contribution ids c (name, x) d = Inr ((), d') \<and> same_books d d' \<and>
    acct_balance d' (a_id ca) = acct_balance d (a_id ca) - num_round x"
proof -
  let ?j = "db_next_uuid d"
  let ?d = "d\<lparr>db_next_uuid := Suc ?j, db_journals := db_journals d @
     [\<lparr>j_id = ?j, j_journal_type = ''DEFAULT_FUND_CONTRIBUTION'', j_reference_type = ''seed'',
       j_reference_id = None, j_status = ''confirmed''\<rparr>]\<rparr>"
  have journal: "insert_seed_journal d = Inr (?j, ?d)"
    using assms(1) by (simp add: insert_seed_journal_def fresh_uuid_def check_vocab_def run_simps seed_vocab_def)
  have in_tab: "ma \<in> set (db_accounts d)" "ca \<in> set (db_accounts d)"
    "a_account_type ma = ''DEFAULT_FUND''" "a_account_type ca = ''CCP_EQUITY''"
    using fetchone_Some [OF assms(4) [unfolded find_account_def]]
      fetchone_Some [OF assms(5) [unfolded find_account_def]] by auto
  have ne: "a_id ma \<noteq> a_id ca"
  proof
    assume "a_id ma = a_id ca"
    with in_tab assms(2) have "ma = ca"
      by (auto simp: fresh_accounts_def fresh_ids_def distinct_map inj_on_def)
    with in_tab show False by simp
  qed
  obtain d' where d': "post_pair ?j (a_id ma) (a_id ca) x ?d = Inr ((), d')"
    using in_tab assms(6,7) by (auto simp: post_pair_Inr has_journal_def has_account_def)
  have "acct_balance ?d a = acct_balance d a" "journal_balanced ?d j = journal_balanced d j" for a j
    by (simp_all add: acct_balance_def journal_balanced_def journal_entries_of_def)
  then have "same_books d d'" "acct_balance d' (a_id ca) = acct_balance d (a_id ca) - num_round x"
    using balance_post_pair(2) [OF d' ne] balanced_post_pair [OF d'] d'
    by (auto simp: same_books_def post_pair_Inr fresh_accounts_def)
  with d' journal assms(3-5) show ?thesis
    by (auto simp: seed_contribution_def run_simps)
qed

lemma seed_contributions_run:
  assumes "seed_vocab (db_schema d)" "fresh_accounts d"
    "find_account c ''CCP_EQUITY'' ''AVAILABLE'' d = Some ca"
    "\<And>n x. (n, x) \<in> set amounts \<Longrightarrow> num_fits (num_round x) \<and> 0 < num_round x \<and>
       (\<exists>i. map_of ids n = Some i \<and> account_of i ''DEFAULT_FUND'' ''AVAILABLE'' d)"
  shows "\<exists>u d'. for_tx (seed_contribution ids c) amounts d = Inr (u, d') \<and> same_books d d' \<and>
    acct_balance d' (a_id ca) = acct_balance d (a_id ca) - (\<Sum>(n, x)\<leftarrow>amounts. num_round x)"
  using assms
proof (induction amounts arbitrary: d)
  case Nil
  then show ?case by (simp add: run_simps same_books_def)
next
  case (Cons p amounts)
  obtain n x where p: "p = (n, x)" by fastforce
  with Cons.prems(4) [of n x] obtain i ma where i: "map_of ids n = Some i" "num_fits (num_round x)"
    "0 < num_round x" "find_account i ''DEFAULT_FUND'' ''AVAILABLE'' d = Some ma"
    by (auto simp: account_of_def)
  from seed_contribution_run [OF Cons.prems(1,2) i(1,4) Cons.prems(3) i(2,3)] obtain d1 where d1:
    "seed_contribution ids c (n, x) d = Inr ((), d1)" "same_books d d1"
    "acct_balance d1 (a_id ca) = acct_balance d (a_id ca) - num_round x" by blast
  have same: "find_account m ty pool d1 = find_account m ty pool d" for m ty pool
    using d1(2) by (simp add: find_account_def same_books_def)
  have "\<exists>u d'. for_tx (seed_contribution ids c) amounts d1 = Inr (u, d') \<and> same_books d1 d' \<and>
    acct_balance d' (a_id ca) = acct_balance d1 (a_id ca) - (\<Sum>(n, x)\<leftarrow>amounts. num_round x)"
    using Cons.prems d1(2) by (intro Cons.IH) (auto simp: same account_of_def same_books_def)
  then show ?case using d1 p by (auto simp: run_simps same_books_def)
qed

lemma sets_up_ledger:
  assumes "sets_up d d'" "ledger_committed d"
  shows "ledger_committed d'"
proof -
  obtain new where "db_accounts d' = db_accounts d @ new"
    using assms(1) by (auto simp: sets_up_def prefix_def)
  then have acct: "has_account a d \<Longrightarrow> has_account a d'" for a by (auto simp: has_account_def)
  have same: "db_entries d' = db_entries d" "db_journals d' = db_journals d" "db_deferred d' = db_deferred d"
    using assms(1) by (simp_all add: sets_up_def)
  have "journal_balanced d' j = journal_balanced d j" "has_journal j d' = has_journal j d" for j
    by (simp_all add: journal_balanced_def journal_entries_of_def has_journal_def same)
  with assms(2) acct show ?thesis by (auto simp: ledger_committed_def ledger_wf_def same)
qed

lemma seed_amounts:
  assumes "(n, x) \<in> set DEFAULT_FUND_AMOUNTS"
  shows "num_fits (num_round x) \<and> 0 < num_round x \<and> n \<in> set (map sm_name MEMBERS)"
proof -
  have "list_all (\<lambda>(n, x). num_fits (num_round x) \<and> 0 < num_round x) DEFAULT_FUND_AMOUNTS"
    by (simp add: DEFAULT_FUND_AMOUNTS_def num_fits_def num_round_numeral)
  moreover have "map fst DEFAULT_FUND_AMOUNTS = map sm_name MEMBERS"
    by (simp add: DEFAULT_FUND_AMOUNTS_def MEMBERS_def)
  ultimately show ?thesis
    using assms by (metis (mono_tags, lifting) case_prodD fst_conv image_eqI list.set_map list_all_iff)
qed

lemma seed_total: "(\<Sum>(n, x)\<leftarrow>DEFAULT_FUND_AMOUNTS. num_round x) = 31500000"
  by (simp add: DEFAULT_FUND_AMOUNTS_def num_round_numeral)

lemma seed_limits: "m \<in> set MEMBERS \<Longrightarrow> num_fits (num_round (sm_credit_limit m))"
  by (auto simp: MEMBERS_def num_fits_def num_round_numeral)

lemma seed_setup_run:
  assumes "seed_vocab (db_schema d)"
  shows "\<exists>c ids d1 d2 d3 eq. seed_ccp_house_account d = Inr (c, d1) \<and> seed_members d1 = Inr (ids, d2) \<and>
    seed_instruments d2 = Inr ((), d3) \<and> sets_up d d3 \<and> lei_id ccp_lei d3 = Some c \<and>
    find_account c ''CCP_EQUITY'' ''AVAILABLE'' d3 = Some eq \<and>
    (\<forall>(n, x) \<in> set DEFAULT_FUND_AMOUNTS. num_fits (num_round x) \<and> 0 < num_round x \<and>
      (\<exists>i. map_of ids n = Some i \<and> account_of i ''DEFAULT_FUND'' ''AVAILABLE'' d3))"
proof -
  from seed_house_run [OF assms] obtain c d1 where d1: "seed_ccp_house_account d = Inr (c, d1)"
    "sets_up d d1" "lei_id ccp_lei d1 = Some c" "account_of c ''CCP_EQUITY'' ''AVAILABLE'' d1" by blast
  have voc1: "seed_vocab (db_schema d1)" using assms sets_up_keeps(4) [OF d1(2)] by simp
  from seed_members_run [OF voc1 seed_limits] obtain ids d2 where d2: "seed_members d1 = Inr (ids, d2)"
    "sets_up d1 d2" "map fst ids = map sm_name MEMBERS"
    "\<forall>(n, i) \<in> set ids. account_of i ''DEFAULT_FUND'' ''AVAILABLE'' d2"
    unfolding seed_members_def by blast
  have voc2: "seed_vocab (db_schema d2)" using voc1 sets_up_keeps(4) [OF d2(2)] by simp
  from seed_instruments_run [OF voc2] obtain d3 where d3: "seed_instruments d2 = Inr ((), d3)"
    "sets_up d2 d3" by blast
  have "account_of c ''CCP_EQUITY'' ''AVAILABLE'' d3"
    by (rule sets_up_keeps(2) [OF d3(2) sets_up_keeps(2) [OF d2(2) d1(4)]])
  then obtain eq where "find_account c ''CCP_EQUITY'' ''AVAILABLE'' d3 = Some eq"
    by (auto simp: account_of_def)
  moreover have "num_fits (num_round x) \<and> 0 < num_round x \<and>
      (\<exists>i. map_of ids n = Some i \<and> account_of i ''DEFAULT_FUND'' ''AVAILABLE'' d3)"
    if nx: "(n, x) \<in> set DEFAULT_FUND_AMOUNTS" for n x
  proof -
    from seed_amounts [OF nx] d2(3) have "n \<in> fst ` set ids" by (metis list.set_map)
    then obtain i where i: "map_of ids n = Some i" by (metis map_of_eq_None_iff option.exhaust)
    then have "(n, i) \<in> set ids" by (rule map_of_SomeD)
    with d2(4) sets_up_keeps(2) [OF d3(2)] i seed_amounts [OF nx] show ?thesis by blast
  qed
  moreover have "sets_up d d3" using d1(2) d2(2) d3(2) by (meson sets_up_trans)
  moreover have "lei_id ccp_lei d3 = Some c"
    using sets_up_keeps(5) [OF d3(2)] sets_up_keeps(5) [OF d2(2)] d1(3) by blast
  ultimately show ?thesis using d1(1) d2(1) d3(1) by blast
qed

subsection \<open>Properties\<close>

text \<open>The seed script succeeds on every committed database of the migrated schema, whatever it
  holds, and each run books the contributions out of the equity of the house: it lowers the balance
  of that account by 31.5 million, so a run on an empty database overdraws it, and since the database it
  leaves meets the same conditions, a second run overdraws it again.\<close>

theorem seed_overdraws_equity:
  assumes "seed_vocab (db_schema d)" "ledger_committed d" "fresh_accounts d"
  shows "\<exists>d' c eq. seed_main d = Inr ((), d') \<and> ledger_committed d' \<and> fresh_accounts d' \<and>
    db_schema d' = db_schema d \<and> lei_id ccp_lei d' = Some c \<and>
    find_account c ''CCP_EQUITY'' ''AVAILABLE'' d' = Some eq \<and>
    acct_balance d' (a_id eq) = acct_balance d (a_id eq) - 31500000"
proof -
  from seed_setup_run [OF assms(1)] obtain c ids d1 d2 d3 eq where
    up: "sets_up d d3" and c: "lei_id ccp_lei d3 = Some c" and
    eq: "find_account c ''CCP_EQUITY'' ''AVAILABLE'' d3 = Some eq" and
    runs: "seed_ccp_house_account d = Inr (c, d1)" "seed_members d1 = Inr (ids, d2)"
      "seed_instruments d2 = Inr ((), d3)" and
    funds: "\<And>n x. (n, x) \<in> set DEFAULT_FUND_AMOUNTS \<Longrightarrow> num_fits (num_round x) \<and> 0 < num_round x \<and>
      (\<exists>i. map_of ids n = Some i \<and> account_of i ''DEFAULT_FUND'' ''AVAILABLE'' d3)" by blast
  have voc: "seed_vocab (db_schema d3)" using assms(1) sets_up_keeps(4) [OF up] by simp
  note fresh = sets_up_keeps(6) [OF up assms(3)]
  from seed_contributions_run [OF voc fresh eq, of DEFAULT_FUND_AMOUNTS ids] funds obtain d4 where d4:
    "seed_default_fund ids c d3 = Inr ((), d4)" "same_books d3 d4"
    "acct_balance d4 (a_id eq) = acct_balance d3 (a_id eq) - 31500000"
    unfolding seed_total seed_default_fund_def by (auto simp: run_simps)
  have led3: "ledger_committed d3" using up assms(2) by (rule sets_up_ledger)
  from d4(2) committed_balanced [OF led3] have "\<forall>j. journal_balanced d4 j" by (simp add: same_books_def)
  then obtain d5 where d5: "commit d4 = Inr ((), d5)" "d5 = d4\<lparr>db_deferred := []\<rparr>"
    by (simp add: commit_Inr)
  have "evolves d3 d4" using acrossD [OF ev_seed_default_fund d4(1)] .
  then have "ledger_committed d5"
    using led3 commit_balances d5(1) by (auto simp: evolves_def ledger_committed_def)
  moreover have "seed_main d = Inr ((), d5)"
    using runs d4(1) d5(1) by (simp add: seed_main_def run_simps)
  moreover have "fresh_accounts d5" "lei_id ccp_lei d5 = Some c" "db_schema d5 = db_schema d"
    "find_account c ''CCP_EQUITY'' ''AVAILABLE'' d5 = Some eq"
    using d4(2) d5(2) fresh sets_up_keeps(4) [OF up] c eq
    by (auto simp: same_books_def fresh_accounts_def lei_id_def find_account_def)
  moreover have "acct_balance d5 (a_id eq) = acct_balance d (a_id eq) - 31500000"
    using d4(3) d5(2) up by (simp add: acct_balance_def sets_up_def)
  ultimately show ?thesis by blast
qed

theorem seed_overdraws_equity_witness:
  "\<exists>d' c eq. seed_main (empty_db migrated_schema) = Inr ((), d') \<and> lei_id ccp_lei d' = Some c \<and>
    find_account c ''CCP_EQUITY'' ''AVAILABLE'' d' = Some eq \<and> acct_balance d' (a_id eq) = - 31500000"
proof -
  let ?d = "empty_db migrated_schema"
  have "seed_vocab (db_schema ?d)" "ledger_committed ?d" "fresh_accounts ?d"
    by (simp_all add: empty_db_def migrated_seed_vocab ledger_committed_def ledger_wf_def
        journal_balanced_def journal_entries_of_def fresh_accounts_def fresh_ids_def)
  from seed_overdraws_equity [OF this] show ?thesis by (auto simp: acct_balance_def empty_db_def)
qed

end
