(* ===== verification/Oracle.thy ===== *)
theory Oracle
  imports Shared "HOL-Library.List_Lexorder" "HOL-Library.Char_ord"
begin

section \<open>The price oracle\<close>

text \<open>
  \<open>services/price-oracle/src/price_oracle/feed.py\<close> and the loop of \<open>main.py\<close>, with the
  materialized view \<open>latest_prices\<close> of migration 011. The random factors \<open>1 + gauss(0, 0.02)\<close> are
  an argument, one per instrument. PostgreSQL lets only the owner of a materialized view refresh
  it; whether the service's role is the owner is the argument \<open>owner\<close>.
\<close>

subsection \<open>The feed\<close>

definition BASE_PRICES :: "(string \<times> rat) list" where
  "BASE_PRICES =
     [(''BTC-PERP'', 65000), (''ETH-FUTURE-Q2'', 3500), (''BTC-OPTION-30K'', 2500),
      (''AAPL-TOKEN'', 175), (''TBOND-10Y'', 985 / 10), (''REALESTATE-RWA-1'', 250000)]"

definition fetch_active_instruments :: "db \<Rightarrow> (uuid \<times> string) list" where
  "fetch_active_instruments d = map (\<lambda>i. (i_id i, i_symbol i))
     (sort_key i_symbol (filter i_is_active (db_instruments d)))"

definition fetch_last_prices :: "db \<Rightarrow> uuid \<rightharpoonup> rat" where
  "fetch_last_prices d = map_of (db_latest_prices d)"

text \<open>\<open>quantize(Decimal("0.00000001"))\<close>: the result must have at most 28 digits.\<close>

definition quantize_8 :: "rat \<Rightarrow> exn + rat" where
  "quantize_8 x = (let n = round_half_even (x * 10 ^ 8) in
     if \<bar>n\<bar> < 10 ^ 28 then Inr (of_int n / 10 ^ 8) else Inl InvalidOperation)"

definition random_walk :: "rat \<Rightarrow> rat \<Rightarrow> exn + rat" where
  "random_walk last_price factor = (case quantize_8 (dmul last_price factor) of
     Inl e \<Rightarrow> Inl e | Inr p \<Rightarrow> Inr (max p (1 / 100)))"

definition insert_price_feed :: "uuid \<Rightarrow> rat \<Rightarrow> unit ccp" where
  "insert_price_feed i p = insert_price i p ''mock''"

text \<open>\<open>SELECT DISTINCT ON (instrument_id) ... ORDER BY instrument_id, received_at DESC\<close>.\<close>

definition latest_price_rows :: "db \<Rightarrow> (uuid \<times> rat) list" where
  "latest_price_rows d = map (\<lambda>(i, rows). (i, pf_price (last (sort_key pf_received_at rows))))
     (group_by pf_instrument_id (db_prices d))"

definition refresh_latest_prices :: "bool \<Rightarrow> unit ccp" where
  "refresh_latest_prices owner =
     bind_tx (guard_tx owner (InsufficientPrivilege ''latest_prices'')) (\<lambda>_.
     modify_tx (\<lambda>d. d\<lparr>db_latest_prices := latest_price_rows d\<rparr>))"

type_synonym price_update = "uuid \<times> string \<times> rat"

definition generate_price ::
    "(uuid \<Rightarrow> rat) \<Rightarrow> (uuid \<rightharpoonup> rat) \<Rightarrow> uuid \<times> string \<Rightarrow> price_update list \<Rightarrow> price_update list ccp" where
  "generate_price factors last_prices = (\<lambda>(i, symbol) updated.
     let base = (case map_of BASE_PRICES symbol of Some b \<Rightarrow> b | None \<Rightarrow> 100);
         last_price = (case last_prices i of Some p \<Rightarrow> p | None \<Rightarrow> base) in
     bind_tx (lift_tx (random_walk last_price (factors i))) (\<lambda>new_price.
     bind_tx (insert_price_feed i new_price) (\<lambda>_.
     return_tx (updated @ [(i, symbol, new_price)]))))"

definition price_payload :: "price_update list \<Rightarrow> payload" where
  "price_payload updated = [(''prices'', PList (map (\<lambda>(i, symbol, p).
     PObj [(''instrument_id'', PId i), (''symbol'', PStr symbol), (''price'', PDec p)]) updated))]"

definition generate_prices :: "bool \<Rightarrow> (uuid \<Rightarrow> rat) \<Rightarrow> price_update list ccp" where
  "generate_prices owner factors =
     bind_tx (gets_tx fetch_active_instruments) (\<lambda>instruments.
     if instruments = [] then return_tx []
     else bind_tx (gets_tx fetch_last_prices) (\<lambda>last_prices.
       bind_tx (fold_tx (generate_price factors last_prices) instruments []) (\<lambda>updated.
       bind_tx (refresh_latest_prices owner) (\<lambda>_.
       bind_tx (if updated = [] then return_tx ()
          else bind_tx (insert_outbox_event ''price_feed'' (fst (hd instruments)) ''price.updated''
             ''prices.updated'' (price_payload updated) None) (\<lambda>_. return_tx ())) (\<lambda>_.
       return_tx updated)))))"

text \<open>One turn of \<open>_price_update_loop\<close>; the loop logs an exception.\<close>

definition price_update_turn :: "bool \<Rightarrow> (uuid \<Rightarrow> rat) \<Rightarrow> db \<Rightarrow> db" where
  "price_update_turn owner factors = state_after (with_connection (generate_prices owner factors))"

text \<open>\<open>GET /prices\<close>.\<close>

definition get_prices :: "db \<Rightarrow> (uuid \<times> string \<times> rat) list" where
  "get_prices d = [(i_id i, i_symbol i, p).
     i \<leftarrow> sort_key i_symbol (filter i_is_active (db_instruments d)),
     (j, p) \<leftarrow> db_latest_prices d, j = i_id i]"

subsection \<open>Preservation\<close>

lemma ev_refresh [evolving]: "across evolves (refresh_latest_prices owner)"
  by (rule acrossI) (auto simp: refresh_latest_prices_def evolve_simps split: if_splits)

lemma ev_generate_price [evolving]: "across evolves (generate_price f l p acc)"
  unfolding generate_price_def insert_price_feed_def Let_def
  by (auto intro!: evolving split: prod.split)

lemma ev_generate_prices [evolving]: "across evolves (generate_prices owner factors)"
  unfolding generate_prices_def by (intro evolving)

lemma price_turn_evolves: "evolves d (price_update_turn owner factors d)"
  unfolding price_update_turn_def by (intro ev_state_after ev_with_connection evolving)

subsection \<open>Prices\<close>

lemma round_half_even_ge: "n \<le> x \<Longrightarrow> of_int m \<le> n \<Longrightarrow> m \<le> round_half_even x"
  using round_half_even_mono [of "of_int m" x] by (simp add: order_trans)

lemma random_walk_bounds:
  assumes "random_walk l f = Inr p"
  shows "1 / 100 \<le> p \<and> num_round p = p"
proof -
  from assms obtain n where n: "p = max (of_int n / 10 ^ 8) (1 / 100)"
    by (auto simp: random_walk_def quantize_8_def Let_def split: if_splits)
  have "(1 / 100 :: rat) = of_int (10 ^ 6) / 10 ^ 8" by simp
  then have "num_round (1 / 100) = 1 / 100" using num_round_int [of "10 ^ 6"] by simp
  with n show ?thesis using num_round_int [of n] by (simp add: max_def)
qed

lemma insert_price_feed_Inr:
  "insert_price_feed i p d = Inr ((), d') \<longleftrightarrow> num_fits (num_round p) \<and> has_instrument i d \<and>
     d' = d\<lparr>db_prices := db_prices d @ [\<lparr>pf_instrument_id = i, pf_price = num_round p,
        pf_source = ''mock'', pf_received_at = db_now d\<rparr>]\<rparr>"
  by (auto simp: insert_price_feed_def insert_price_def numeric_def foreign_key_def tx_simps)

definition price_row_of :: "int \<Rightarrow> price_update \<Rightarrow> price_row" where
  "price_row_of now = (\<lambda>(i, symbol, p). \<lparr>pf_instrument_id = i, pf_price = p, pf_source = ''mock'',
     pf_received_at = now\<rparr>)"

lemma generate_price_Inr:
  assumes "generate_price f l (i, s) acc d = Inr (ups, d')"
  shows "\<exists>p. ups = acc @ [(i, s, p)] \<and> 1 / 100 \<le> p \<and>
     d' = d\<lparr>db_prices := db_prices d @ [price_row_of (db_now d) (i, s, p)]\<rparr>"
  using assms
  by (auto simp: generate_price_def Let_def tx_simps insert_price_feed_Inr price_row_of_def
      dest!: random_walk_bounds)

lemma generate_fold_Inr:
  assumes "fold_tx (generate_price f l) is acc d = Inr (ups, d')"
  shows "\<exists>new. ups = acc @ new \<and> map (\<lambda>(i, s, p). (i, s)) new = is \<and> (\<forall>(i, s, p) \<in> set new. 1 / 100 \<le> p) \<and>
     d' = d\<lparr>db_prices := db_prices d @ map (price_row_of (db_now d)) new\<rparr>"
  using assms
proof (induction "is" arbitrary: acc d)
  case Nil
  then show ?case by (simp add: tx_simps)
next
  case (Cons x xs)
  obtain i s where x: "x = (i, s)" by fastforce
  from Cons.prems x obtain acc1 d1 where one: "generate_price f l (i, s) acc d = Inr (acc1, d1)"
    "fold_tx (generate_price f l) xs acc1 d1 = Inr (ups, d')"
    by (auto simp: tx_simps)
  from generate_price_Inr [OF one(1)] obtain p where p: "acc1 = acc @ [(i, s, p)]" "1 / 100 \<le> p"
    "d1 = d\<lparr>db_prices := db_prices d @ [price_row_of (db_now d) (i, s, p)]\<rparr>" by blast
  from Cons.IH [OF one(2)] p obtain new where "ups = acc1 @ new" "map (\<lambda>(i, s, p). (i, s)) new = xs"
    "\<forall>(i, s, p) \<in> set new. 1 / 100 \<le> p"
    "d' = d1\<lparr>db_prices := db_prices d1 @ map (price_row_of (db_now d)) new\<rparr>" by auto
  with p x show ?case by (intro exI [of _ "(i, s, p) # new"]) simp
qed

lemma map_of_groups:
  assumes "k \<in> key ` set rows"
  shows "map_of (map (\<lambda>(k, g). (k, f g)) (group_by key rows)) k = Some (f (filter (\<lambda>r. key r = k) rows))"
proof -
  from assms have "k \<in> set (map fst (group_by key rows))" unfolding group_by_keys .
  then obtain g where g: "(k, g) \<in> set (group_by key rows)" by auto
  have eq: "map fst (map (\<lambda>(k, g). (k, f g)) (group_by key rows)) = map fst (group_by key rows)"
    by (simp add: case_prod_unfold)
  have "map_of (map (\<lambda>(k, g). (k, f g)) (group_by key rows)) k = Some (f g)"
  proof (rule map_of_is_SomeI)
    show "distinct (map fst (map (\<lambda>(k, g). (k, f g)) (group_by key rows)))"
      unfolding eq by (rule group_by_distinct)
    show "(k, f g) \<in> set (map (\<lambda>(k, g). (k, f g)) (group_by key rows))" using g by force
  qed
  then show ?thesis by (simp add: group_by_member [OF g])
qed

lemma sort_key_snoc:
  assumes "\<And>x. x \<in> set xs \<Longrightarrow> f x \<le> f y"
  shows "sort_key f (xs @ [y]) = sort_key f xs @ [y]"
proof (rule properties_for_sort_key)
  show "mset (sort_key f xs @ [y]) = mset (xs @ [y])" by simp
  show "filter (\<lambda>x. f k = f x) (sort_key f xs @ [y]) = filter (\<lambda>x. f k = f x) (xs @ [y])" for k
    using sort_key_stable [of f "f k" xs] by (simp add: eq_commute)
  show "sorted (map f (sort_key f xs @ [y]))" using assms by (simp add: sorted_append)
qed

text \<open>After the refresh the view shows, for an instrument with a price of now, that price.\<close>

lemma latest_price_of:
  assumes "\<And>r. r \<in> set (db_prices d) \<Longrightarrow> pf_received_at r \<le> now"
    "distinct (map fst ups)" "(i, s, p) \<in> set ups"
    "db_prices d' = db_prices d @ map (price_row_of now) ups"
  shows "map_of (latest_price_rows d') i = Some p"
proof -
  let ?new = "price_row_of now (i, s, p)" and ?old = "filter (\<lambda>r. pf_instrument_id r = i) (db_prices d)"
  have one: "filter (\<lambda>r. pf_instrument_id r = i) (map (price_row_of now) us) =
      (if (i, s, p) \<in> set us then [?new] else [])"
    if "distinct (map fst us)" "\<And>q. q \<in> set us \<Longrightarrow> fst q = i \<Longrightarrow> q = (i, s, p)" for us
    using that
  proof (induction us)
    case (Cons u us)
    have IH: "filter (\<lambda>r. pf_instrument_id r = i) (map (price_row_of now) us) =
      (if (i, s, p) \<in> set us then [?new] else [])" using Cons by auto
    have "pf_instrument_id (price_row_of now u) = fst u" by (cases u) (simp add: price_row_of_def)
    moreover have "(i, s, p) \<notin> set us" if "fst u = i"
    proof
      assume "(i, s, p) \<in> set us"
      then have "i \<in> fst ` set us" by force
      with Cons.prems(1) that show False by simp
    qed
    moreover have "u = (i, s, p)" if "fst u = i" using Cons.prems(2) that by simp
    ultimately show ?case using IH by auto
  qed simp
  have "q = (i, s, p)" if "q \<in> set ups" "fst q = i" for q
  proof -
    have "inj_on fst (set ups)" using assms(2) by (simp add: distinct_map)
    then show ?thesis by (rule inj_onD) (use that assms(3) in simp_all)
  qed
  from one [OF assms(2) this]
  have "filter (\<lambda>r. pf_instrument_id r = i) (db_prices d') = ?old @ [?new]"
    using assms(3,4) by simp
  moreover have "sort_key pf_received_at (?old @ [?new]) = sort_key pf_received_at ?old @ [?new]"
    using assms(1) by (intro sort_key_snoc) (auto simp: price_row_of_def)
  moreover have "i \<in> pf_instrument_id ` set (db_prices d')"
    using assms(3,4) by (force simp: price_row_of_def)
  ultimately show ?thesis
    unfolding latest_price_rows_def by (subst map_of_groups) (simp_all add: price_row_of_def)
qed

subsection \<open>Properties\<close>

text \<open>C36. A turn of the price oracle that commits has a price of at least one cent for every active
  instrument and for no other, and the view the margin engine reads shows exactly these prices.\<close>

theorem price_update_published:
  assumes "with_connection (generate_prices owner factors) d = Inr (updated, d')"
    "distinct (map i_id (db_instruments d))" "\<And>r. r \<in> set (db_prices d) \<Longrightarrow> pf_received_at r \<le> db_now d"
  shows "map (\<lambda>(i, s, p). (i, s)) updated = fetch_active_instruments d \<and>
    (\<forall>(i, s, p) \<in> set updated. 1 / 100 \<le> p \<and> map_of (db_latest_prices d') i = Some p)"
proof (cases "fetch_active_instruments d = []")
  case True
  with assms(1) show ?thesis
    by (auto simp: with_connection_def generate_prices_def tx_simps)
next
  case False
  with assms(1) obtain d1 where
    fold: "fold_tx (generate_price factors (fetch_last_prices d)) (fetch_active_instruments d) [] d =
      Inr (updated, d1)" and
    view: "db_latest_prices d' = latest_price_rows d1"
    by (cases "updated = []") (auto simp: with_connection_def generate_prices_def commit_Inr
        refresh_latest_prices_def tx_simps insert_outbox_event_eq split: if_splits)
  from generate_fold_Inr [OF fold] have new: "map (\<lambda>(i, s, p). (i, s)) updated = fetch_active_instruments d"
    "\<forall>(i, s, p) \<in> set updated. 1 / 100 \<le> p"
    "d1 = d\<lparr>db_prices := db_prices d @ map (price_row_of (db_now d)) updated\<rparr>" by auto
  have "map fst updated = map fst (fetch_active_instruments d)"
    unfolding new(1) [symmetric] by (simp add: case_prod_unfold comp_def)
  also have "\<dots> = map i_id (sort_key i_symbol (filter i_is_active (db_instruments d)))"
    by (simp add: fetch_active_instruments_def comp_def)
  also have "distinct \<dots>"
  proof -
    have "mset (map i_id (sort_key i_symbol (filter i_is_active (db_instruments d)))) =
        mset (map i_id (filter i_is_active (db_instruments d)))" by simp
    then show ?thesis using assms(2) by (metis distinct_map_filter mset_eq_imp_distinct_iff)
  qed
  finally have dist: "distinct (map fst updated)" .
  have "map_of (db_latest_prices d') i = Some p" if "(i, s, p) \<in> set updated" for i s p
    unfolding view
    by (rule latest_price_of [where d = d and now = "db_now d" and ups = updated])
      (use assms(3) dist that in \<open>simp_all add: new(3)\<close>)
  with new(1,2) show ?thesis by auto
qed

definition oracle_db :: db where
  "oracle_db = (empty_db migrated_schema)\<lparr>
     db_instruments :=
       [\<lparr>i_id = 3, i_symbol = ''NEW'', i_asset_class = ''crypto_future'',
         i_settlement_type = ''cash'', i_margin_rate_im = 1 / 10, i_margin_rate_vm = 1 / 20,
         i_chain_id = None, i_contract_address = None, i_is_active = True\<rparr>],
     db_prices := [\<lparr>pf_instrument_id = 3, pf_price = 50, pf_source = ''mock'', pf_received_at = - 1\<rparr>],
     db_next_uuid := 9\<rparr>"

lemmas oracle_defs = oracle_db_def empty_db_def

lemma oracle_instruments: "fetch_active_instruments oracle_db = [(3, ''NEW'')]"
  by (simp add: fetch_active_instruments_def oracle_defs)

lemma oracle_random_walk: "random_walk 100 1 = Inr 100"
  using round_half_even_int [of 10000000000]
  by (simp add: random_walk_def quantize_8_def Let_def dmul_def whole_eval)

lemma oracle_turn_runs: "\<exists>d'. with_connection (generate_prices True (\<lambda>_. 1)) oracle_db = Inr ([(3, ''NEW'', 100)], d')"
proof -
  have "fetch_last_prices oracle_db 3 = None" "map_of BASE_PRICES ''NEW'' = None"
    by (simp_all add: fetch_last_prices_def oracle_defs BASE_PRICES_def)
  moreover have "num_fits (num_round 100)" by (simp add: num_fits_def num_round_numeral)
  moreover have "db_deferred oracle_db = []" by (simp add: oracle_defs)
  moreover have "has_instrument 3 oracle_db" by (simp add: has_instrument_def oracle_defs)
  ultimately show ?thesis
    by (simp add: with_connection_def generate_prices_def tx_simps generate_price_def
        oracle_instruments oracle_random_walk insert_price_feed_Inr refresh_latest_prices_def
        insert_outbox_event_eq commit_Inr)
qed

theorem price_update_published_witness:
  "\<exists>p d'. with_connection (generate_prices True (\<lambda>_. 1)) oracle_db = Inr ([(3, ''NEW'', p)], d') \<and>
     1 / 100 \<le> p \<and> map_of (db_latest_prices d') 3 = Some p"
proof -
  from oracle_turn_runs obtain d' where run:
    "with_connection (generate_prices True (\<lambda>_. 1)) oracle_db = Inr ([(3, ''NEW'', 100)], d')" by blast
  from price_update_published [OF run] show ?thesis
    using run by (simp add: oracle_defs)
qed

text \<open>The services' role is not the view's owner: it has SELECT on it only. Its turn then ends with
  the error of the refresh, the prices it has inserted are rolled back and nobody is told.\<close>

lemma refresh_needs_owner:
  assumes "fetch_active_instruments d \<noteq> []"
  shows "\<exists>e. with_connection (generate_prices False factors) d = Inl e"
proof (cases "with_connection (generate_prices False factors) d")
  case (Inr r)
  with assms show ?thesis
    by (auto simp: with_connection_def generate_prices_def tx_simps refresh_latest_prices_def)
qed simp

lemma unowned_turn_changes_nothing:
  assumes "fetch_active_instruments d \<noteq> []"
  shows "price_update_turn False factors d = d"
  using refresh_needs_owner [OF assms, of factors]
  by (auto simp: price_update_turn_def state_after_def)

end
