(* ===== verification/Compliance.thy ===== *)
theory Compliance
  imports Margin "HOL-Library.Sublist"
begin

section \<open>The compliance monitor\<close>

text \<open>
  \<open>services/compliance-monitor/src/compliance_monitor/monitors.py\<close> and the message step of
  \<open>consumer.py\<close>. The monitors run on a connection of the read-only role; \<open>writable\<close> says whether
  that role may insert into the outbox (the migrations grant it \<open>SELECT\<close> only). The Python
  exceptions of a payload of the wrong shape (\<open>AttributeError\<close>, \<open>TypeError\<close>) are both
  \<open>TypeError\<close> here: the consumer treats them alike. The quotient of the view
  \<open>member_positions\<close> is the parameter \<open>pgdiv\<close>, as in \<open>Margin\<close>.
\<close>

subsection \<open>Alerts\<close>

definition CONCENTRATION_THRESHOLD_PCT :: rat where
  "CONCENTRATION_THRESHOLD_PCT = 30"

definition MARGIN_COVERAGE_MIN_RATIO :: rat where
  "MARGIN_COVERAGE_MIN_RATIO = 1"

definition LARGE_TRADE_THRESHOLD_USD :: rat where
  "LARGE_TRADE_THRESHOLD_USD = 10000000"

text \<open>\<open>uuid.UUID(aggregate_id)\<close> raises \<open>TypeError\<close> for \<open>None\<close>; its other errors are caught.\<close>

definition emit_alert :: "bool \<Rightarrow> pval \<Rightarrow> payload \<Rightarrow> unit ccp" where
  "emit_alert writable aggregate_id alert =
     bind_tx (case aggregate_id of
         PId u \<Rightarrow> return_tx u
       | PNone \<Rightarrow> raise_tx (TypeError ''one of the hex, bytes, bytes_le, fields, or int arguments must be given'')
       | _ \<Rightarrow> fresh_uuid) (\<lambda>agg_uuid.
     bind_tx (guard_tx writable (InsufficientPrivilege ''outbox_events'')) (\<lambda>_.
     bind_tx (insert_outbox_event ''compliance'' agg_uuid ''compliance.alert.raised''
       ''compliance.alert.raised'' alert None) (\<lambda>_. return_tx ())))"

subsection \<open>The monitors\<close>

definition concentration_rows :: "(rat \<Rightarrow> rat \<Rightarrow> rat) \<Rightarrow> db \<Rightarrow> (uuid \<times> rat) list" where
  "concentration_rows pgdiv d = map (\<lambda>(m, ps). (m, \<Sum>p\<leftarrow>ps. \<bar>mp_net_quantity p\<bar>))
     (group_by mp_member_id (member_positions pgdiv d))"

definition total_open_interest :: "(uuid \<times> rat) list \<Rightarrow> rat" where
  "total_open_interest rows = dsum [dabs oi. (m, oi) \<leftarrow> rows, oi \<noteq> 0]"

definition concentration_alert :: "rat \<Rightarrow> uuid \<times> rat \<Rightarrow> payload option" where
  "concentration_alert total_oi = (\<lambda>(member_id, member_oi).
     let oi = (if member_oi \<noteq> 0 then dabs member_oi else 0);
         pct = dmul (ddiv oi total_oi) 100 in
     if CONCENTRATION_THRESHOLD_PCT < pct then Some
       [(''alert_type'', PStr ''member_concentration''), (''member_id'', PId member_id),
        (''concentration_pct'', PDec pct), (''threshold_pct'', PDec CONCENTRATION_THRESHOLD_PCT),
        (''member_oi'', PDec oi), (''total_oi'', PDec total_oi)]
     else None)"

definition check_row :: "bool \<Rightarrow> rat \<Rightarrow> uuid \<times> rat \<Rightarrow> payload list \<Rightarrow> payload list ccp" where
  "check_row writable total_oi row alerts =
     (case concentration_alert total_oi row of
        None \<Rightarrow> return_tx alerts
      | Some alert \<Rightarrow> bind_tx (emit_alert writable (PId (fst row)) alert) (\<lambda>_. return_tx (alerts @ [alert])))"

definition check_member_concentration :: "(rat \<Rightarrow> rat \<Rightarrow> rat) \<Rightarrow> bool \<Rightarrow> payload list ccp" where
  "check_member_concentration pgdiv writable =
     bind_tx (gets_tx (concentration_rows pgdiv)) (\<lambda>rows.
     let total_oi = total_open_interest rows in
     if total_oi = 0 then return_tx []
     else fold_tx (check_row writable total_oi) rows [])"

definition initial_margins :: "db \<Rightarrow> requirement_row list" where
  "initial_margins d = filter (\<lambda>r. mr_margin_type r = ''INITIAL'') (db_requirements d)"

definition check_margin_coverage :: "bool \<Rightarrow> payload list ccp" where
  "check_margin_coverage writable =
     bind_tx (gets_tx initial_margins) (\<lambda>rows.
     let total_posted = (\<Sum>r\<leftarrow>rows. mr_posted_amount r);
         total_required = (\<Sum>r\<leftarrow>rows. mr_required_amount r);
         ratio = ddiv total_posted total_required;
         alert = [(''alert_type'', PStr ''margin_coverage_low''), (''coverage_ratio'', PDec ratio),
           (''min_ratio'', PDec MARGIN_COVERAGE_MIN_RATIO), (''total_posted'', PDec total_posted),
           (''total_required'', PDec total_required)] in
     if total_required = 0 then return_tx []
     else if ratio < MARGIN_COVERAGE_MIN_RATIO then
       bind_tx (emit_alert writable (PStr ''system'') alert) (\<lambda>_. return_tx [alert])
     else return_tx [])"

definition active_requirements :: "db \<Rightarrow> requirement_row list" where
  "active_requirements d = [r. r \<leftarrow> db_requirements d, m \<leftarrow> db_members d,
     m_id m = mr_member_id r \<and> m_status m = ''active'']"

definition member_exposures :: "db \<Rightarrow> (uuid \<times> rat) list" where
  "member_exposures d = map (\<lambda>(m, rs). (m, \<Sum>r\<leftarrow>rs. mr_required_amount r))
     (group_by mr_member_id (active_requirements d))"

definition cover2_requirement :: "db \<Rightarrow> rat" where
  "cover2_requirement d =
     dsum [x. (m, x) \<leftarrow> take 2 (sort_key (\<lambda>(m, x). - x) (member_exposures d)), x \<noteq> 0]"

definition total_default_fund :: "db \<Rightarrow> rat" where
  "total_default_fund d = (\<Sum>a\<leftarrow>filter (\<lambda>a. a_account_type a = ''DEFAULT_FUND'' \<and>
     a_pool a = ''AVAILABLE'' \<and> 0 < acct_balance d (a_id a)) (db_accounts d). acct_balance d (a_id a))"

definition check_default_fund_adequacy :: "bool \<Rightarrow> payload list ccp" where
  "check_default_fund_adequacy writable =
     bind_tx (gets_tx cover2_requirement) (\<lambda>cover2.
     bind_tx (gets_tx total_default_fund) (\<lambda>total_fund.
     if 0 < cover2 \<and> total_fund < cover2 then
       let alert = [(''alert_type'', PStr ''default_fund_inadequate''),
         (''total_fund'', PDec total_fund), (''cover2_requirement'', PDec cover2),
         (''shortfall'', PDec (dsub cover2 total_fund))] in
       bind_tx (emit_alert writable (PStr ''system'') alert) (\<lambda>_. return_tx [alert])
     else return_tx []))"

text \<open>\<open>Decimal(str(trade_data.get(key, "0")))\<close>.\<close>

definition trade_number :: "payload \<Rightarrow> string \<Rightarrow> rat ccp" where
  "trade_number trade k =
     (case pget trade k of
        None \<Rightarrow> return_tx 0
      | Some (PDec x) \<Rightarrow> return_tx x
      | Some (PNat n) \<Rightarrow> return_tx (of_nat n)
      | Some _ \<Rightarrow> raise_tx InvalidOperation)"

definition trade_field :: "payload \<Rightarrow> string \<Rightarrow> pval \<Rightarrow> pval" where
  "trade_field trade k dflt = (case pget trade k of None \<Rightarrow> dflt | Some v \<Rightarrow> v)"

definition check_large_trade :: "bool \<Rightarrow> payload \<Rightarrow> payload list ccp" where
  "check_large_trade writable trade =
     bind_tx (trade_number trade ''quantity'') (\<lambda>quantity.
     bind_tx (trade_number trade ''price'') (\<lambda>price.
     let notional = dmul quantity price in
     if LARGE_TRADE_THRESHOLD_USD < notional then
       let alert = [(''alert_type'', PStr ''large_trade''),
         (''trade_id'', trade_field trade ''original_trade_id'' (PStr ''unknown'')),
         (''notional'', PDec notional), (''threshold'', PDec LARGE_TRADE_THRESHOLD_USD),
         (''buyer'', trade_field trade ''buyer_member_id'' (PStr [])),
         (''seller'', trade_field trade ''seller_member_id'' (PStr []))] in
       bind_tx (emit_alert writable (trade_field trade ''original_trade_id'' (PStr ''system'')) alert)
         (\<lambda>_. return_tx [alert])
     else return_tx []))"

definition run_all_monitors :: "(rat \<Rightarrow> rat \<Rightarrow> rat) \<Rightarrow> bool \<Rightarrow> payload list ccp" where
  "run_all_monitors pgdiv writable =
     bind_tx (check_member_concentration pgdiv writable) (\<lambda>a.
     bind_tx (check_margin_coverage writable) (\<lambda>b.
     bind_tx (check_default_fund_adequacy writable) (\<lambda>c.
     return_tx (a @ b @ c))))"

subsection \<open>The consumer\<close>

definition event_trades :: "payload \<Rightarrow> pval list ccp" where
  "event_trades event =
     (case pget event ''novated_trades'' of
        None \<Rightarrow> return_tx []
      | Some (PList ts) \<Rightarrow> return_tx ts
      | Some _ \<Rightarrow> raise_tx (TypeError ''novated_trades''))"

definition check_event_trade :: "bool \<Rightarrow> pval \<Rightarrow> payload list \<Rightarrow> payload list ccp" where
  "check_event_trade writable t alerts =
     (case t of
        PObj trade \<Rightarrow> bind_tx (check_large_trade writable trade) (\<lambda>a. return_tx (alerts @ a))
      | _ \<Rightarrow> raise_tx (TypeError ''trade''))"

definition handle_event :: "(rat \<Rightarrow> rat \<Rightarrow> rat) \<Rightarrow> bool \<Rightarrow> string \<Rightarrow> payload \<Rightarrow> payload list ccp" where
  "handle_event pgdiv writable event_type event =
     (if event_type = ''trade.novated'' then
        bind_tx (event_trades event) (\<lambda>trades.
        bind_tx (fold_tx (check_event_trade writable) trades []) (\<lambda>large.
        bind_tx (check_member_concentration pgdiv writable) (\<lambda>conc. return_tx (large @ conc))))
      else if event_type = ''margin.requirement.updated'' then check_margin_coverage writable
      else if event_type = ''default.declared'' then run_all_monitors pgdiv writable
      else return_tx [])"

text \<open>
  The processed mark is committed on a connection of its own. The monitors' connection is closed
  without a commit: what they wrote is rolled back, and the loop logs their exception.
\<close>

definition mark_event :: "payload \<Rightarrow> bool ccp" where
  "mark_event event =
     (case pget_id event ''event_id'' of
        None \<Rightarrow> return_tx True
      | Some e \<Rightarrow> bind_tx (process_if_new ''compliance-monitor'' e) (\<lambda>is_new.
          bind_tx commit (\<lambda>_. return_tx is_new)))"

definition closed_connection :: "'a ccp \<Rightarrow> db \<Rightarrow> (exn + 'a) \<times> db" where
  "closed_connection m d = (case m d of Inl e \<Rightarrow> (Inl e, d) | Inr (x, _) \<Rightarrow> (Inr x, d))"

definition consume_compliance_event ::
    "(rat \<Rightarrow> rat \<Rightarrow> rat) \<Rightarrow> bool \<Rightarrow> payload \<Rightarrow> db \<Rightarrow> (exn + payload list) \<times> db" where
  "consume_compliance_event pgdiv writable event d =
     (case mark_event event d of
        Inl e \<Rightarrow> (Inl e, d)
      | Inr (False, d1) \<Rightarrow> (Inr [], d1)
      | Inr (True, d1) \<Rightarrow> closed_connection (handle_event pgdiv writable
          (case pget_str event ''event_type'' of Some t \<Rightarrow> t | None \<Rightarrow> []) event) d1)"

text \<open>\<open>GET /alerts\<close>.\<close>

definition get_recent_alerts :: "db \<Rightarrow> (uuid \<times> string \<times> payload \<times> int) list" where
  "get_recent_alerts d = map (\<lambda>r. (ob_aggregate_id r, ob_event_type r, ob_payload r, ob_created_at r))
     (take 50 (sort_key (\<lambda>r. - ob_created_at r)
       (filter (\<lambda>r. ob_event_type r = ''compliance.alert.raised'') (db_outbox d))))"

subsection \<open>Preservation\<close>

lemma ev_emit_alert [evolving]: "across evolves (emit_alert w i a)"
  unfolding emit_alert_def by (auto intro!: evolving split: pval.split)

lemma ev_check_row [evolving]: "across evolves (check_row w t r as)"
  unfolding check_row_def by (auto intro!: evolving split: option.split)

lemma ev_monitors [evolving]:
  "across evolves (check_member_concentration pgdiv w)" "across evolves (check_margin_coverage w)"
  "across evolves (check_default_fund_adequacy w)"
  unfolding check_member_concentration_def check_margin_coverage_def check_default_fund_adequacy_def Let_def
  by (intro evolving conjI impI allI)+

lemma ev_mark_event [evolving]: "across evolves (mark_event e)"
  unfolding mark_event_def by (auto intro!: evolving split: option.split)

subsection \<open>Concentration\<close>

text \<open>A rounded product or quotient is never below the value by more than a hundredth of it.\<close>

lemma half_below: "\<bar>r - y\<bar> \<le> 1 / 2 \<Longrightarrow> y - 1 / 2 \<le> r" for y r :: rat
  by linarith

lemma dec_round_relative:
  assumes "0 \<le> x"
  shows "99 / 100 * x \<le> dec_round x"
proof (cases "x = 0")
  case False
  let ?q = "10 powi (adjusted x - 27) :: rat"
  from assms False have x: "0 < x" by simp
  have q: "0 < ?q" by simp
  have "10 powi adjusted x = ?q * 10 ^ 27"
    using ten_powi_add [of "adjusted x - 27" 27] by simp
  with adjusted_bounds [OF x] have "?q * 10 ^ 27 \<le> x" by simp
  moreover have "x / ?q - 1 / 2 \<le> of_int (round_half_even (x / ?q))"
    by (rule half_below) (rule round_half_even_near)
  then have "(x / ?q - 1 / 2) * ?q \<le> of_int (round_half_even (x / ?q)) * ?q"
    using q by (intro mult_right_mono) auto
  then have "x - ?q / 2 \<le> dec_round x" using x q by (simp add: dec_round_def Let_def left_diff_distrib)
  moreover have "99 / 100 * x \<le> r" if "k * 10 ^ 27 \<le> x" "x - k / 2 \<le> r" "0 < k" for k r
    using that by simp
  ultimately show ?thesis using q by blast
qed simp

lemma dadd_grows: "0 \<le> y \<Longrightarrow> dec_round b = b \<Longrightarrow> b \<le> dadd b y"
  using dec_round_mono [of b "b + y"] by (simp add: dadd_def)

lemma dadd_rounded: "dec_round (dadd x y) = dadd x y"
  by (simp add: dadd_def dec_round_idem)

lemma dadd_mono: "a \<le> b \<Longrightarrow> x \<le> y \<Longrightarrow> dadd a x \<le> dadd b y"
  by (simp add: dadd_def dec_round_mono)

lemma foldl_dadd_subseq:
  assumes "subseq ys xs" "\<forall>x \<in> set xs. 0 \<le> x" "a \<le> b" "dec_round b = b"
  shows "foldl dadd a ys \<le> foldl dadd b xs"
  using assms
proof (induction arbitrary: a b rule: list_emb.induct)
  case (list_emb_Nil xs)
  then show ?case
  proof (induction xs arbitrary: b)
    case (Cons x xs)
    have "b \<le> dadd b x" using Cons.prems by (intro dadd_grows) auto
    with Cons.prems Cons.IH [of "dadd b x"] show ?case by (simp add: dadd_rounded)
  qed simp
next
  case (list_emb_Cons xs ys y)
  have "b \<le> dadd b y" using list_emb_Cons.prems by (intro dadd_grows) auto
  then have "a \<le> dadd b y" using list_emb_Cons.prems(2) by simp
  with list_emb_Cons.IH [of a "dadd b y"] list_emb_Cons.prems(1) show ?case
    by (simp add: dadd_rounded)
next
  case (list_emb_Cons2 x y xs ys)
  have "dadd a x \<le> dadd b y" using list_emb_Cons2.hyps list_emb_Cons2.prems
    by (intro dadd_mono) auto
  with list_emb_Cons2.IH [of "dadd a x" "dadd b y"] list_emb_Cons2.prems(1) show ?case
    by (simp add: dadd_rounded)
qed

lemma at_most_three_shares:
  assumes "\<And>x. x \<in> set xs \<Longrightarrow> 0 \<le> x" "0 < dsum xs"
  shows "length (filter (\<lambda>x. 3 / 10 * dsum xs < x) xs) \<le> 3"
proof (rule ccontr)
  let ?T = "dsum xs" and ?ys = "filter (\<lambda>x. 3 / 10 * dsum xs < x) xs"
  assume "\<not> ?thesis"
  then have "4 \<le> length ?ys" by simp
  then obtain a b c d zs where ys: "?ys = a # b # c # d # zs"
    by (auto simp: numeral_eq_Suc Suc_le_length_iff)
  have set_ys: "3 / 10 * ?T < x" if "x \<in> set (a # b # c # d # zs)" for x
    using that unfolding ys [symmetric] by simp
  have big: "3 / 10 * ?T < a" "3 / 10 * ?T < b" "3 / 10 * ?T < c" "3 / 10 * ?T < d"
    by (rule set_ys, simp)+
  have "subseq [a, b, c, d] ?ys" unfolding ys by simp
  then have "subseq [a, b, c, d] xs" using subseq_filter_left [of _ xs] by (blast intro: subseq_order.trans)
  then have le: "foldl dadd 0 [a, b, c, d] \<le> ?T"
    unfolding dsum_def by (rule foldl_dadd_subseq) (use assms in auto)
  let ?p = "99 / 100 :: rat"
  have step: "?p * (u + y) \<le> dadd v y" if "u \<le> v" "0 \<le> v" "0 < y" for u v y
    using dec_round_relative [of "v + y"] that by (simp add: dadd_def)
  have pos: "0 < a" "0 < b" "0 < c" "0 < d" using big assms(2) by linarith+
  define s1 where "s1 = dadd 0 a"
  define s2 where "s2 = dadd s1 b"
  define s3 where "s3 = dadd s2 c"
  have nn: "0 \<le> s1" "0 \<le> s2" "0 \<le> s3"
    using pos by (auto simp: s1_def s2_def s3_def intro!: dadd_nonneg)
  have "?p * (0 + a) \<le> s1" unfolding s1_def by (rule step) (use pos in auto)
  then have "?p * (?p * (0 + a) + b) \<le> s2" unfolding s2_def by (rule step) (use pos nn in auto)
  then have "?p * (?p * (?p * (0 + a) + b) + c) \<le> s3" unfolding s3_def by (rule step) (use pos nn in auto)
  then have "?p * (?p * (?p * (?p * (0 + a) + b) + c) + d) \<le> dadd s3 d" by (rule step) (use pos nn in auto)
  also have "\<dots> \<le> ?T" using le by (simp add: s1_def s2_def s3_def)
  finally show False using big assms(2) by (simp add: field_simps)
qed

definition alerts_of :: "rat \<Rightarrow> (uuid \<times> rat) list \<Rightarrow> payload list" where
  "alerts_of tot rows = List.map_filter (concentration_alert tot) rows"

lemma check_rows_result:
  assumes "fold_tx (check_row w tot) rows acc d = Inr (alerts, d')"
  shows "alerts = acc @ alerts_of tot rows"
  using assms
proof (induction rows arbitrary: acc d)
  case (Cons r rs)
  then obtain a1 d1 where one: "check_row w tot r acc d = Inr (a1, d1)"
    "fold_tx (check_row w tot) rs a1 d1 = Inr (alerts, d')" by (auto simp: tx_simps)
  from one(1) have "a1 = acc @ alerts_of tot [r]"
    by (auto simp: check_row_def alerts_of_def map_filter_simps tx_simps split: option.splits)
  with Cons.IH [OF one(2)] show ?case
    by (auto simp: alerts_of_def map_filter_simps split: option.splits)
qed (simp add: tx_simps alerts_of_def map_filter_simps)

lemma concentration_share:
  assumes "concentration_alert tot (m, oi) = Some a" "0 < tot"
  shows "oi \<noteq> 0 \<and> 3 / 10 * tot < dabs oi"
proof -
  let ?oi = "if oi \<noteq> 0 then dabs oi else 0"
  from assms(1) have "30 < dmul (ddiv ?oi tot) 100"
    by (auto simp: concentration_alert_def Let_def CONCENTRATION_THRESHOLD_PCT_def split: if_splits)
  then have "\<not> dec_round (dec_round (?oi / tot) * 100) \<le> dec_round 30"
    by (simp add: dmul_def ddiv_def dec_round_numeral)
  then have "\<not> dec_round (?oi / tot) * 100 \<le> 30" using dec_round_mono by blast
  then have "\<not> dec_round (?oi / tot) \<le> dec_round (3 / 10)"
    using dec_round_exact [of 3 "- 1"] by simp
  then have "\<not> ?oi / tot \<le> 3 / 10" using dec_round_mono by blast
  then have "3 / 10 * tot < ?oi" using assms(2) by (simp add: field_simps)
  with assms(2) show ?thesis by (auto split: if_splits)
qed

lemma alerts_of_bounded:
  assumes "total_open_interest rows \<noteq> 0"
  shows "length (alerts_of (total_open_interest rows) rows) \<le> 3"
proof -
  let ?T = "total_open_interest rows" and ?xs = "[dabs oi. (m, oi) \<leftarrow> rows, oi \<noteq> 0]"
  have T: "0 < ?T"
    using assms dsum_nonneg [of ?xs] by (force simp: total_open_interest_def intro: dabs_nonneg)
  have "length (alerts_of ?T rs) \<le> length (filter (\<lambda>x. 3 / 10 * ?T < x) [dabs oi. (m, oi) \<leftarrow> rs, oi \<noteq> 0])" for rs
  proof (induction rs)
    case (Cons r rs)
    obtain m oi where r: "r = (m, oi)" by fastforce
    show ?case
    proof (cases "concentration_alert ?T (m, oi)")
      case None
      with Cons r show ?thesis by (simp add: alerts_of_def map_filter_simps)
    next
      case (Some a)
      with concentration_share [OF Some T] Cons r show ?thesis
        by (simp add: alerts_of_def map_filter_simps)
    qed
  qed (simp add: alerts_of_def map_filter_simps)
  also have "length (filter (\<lambda>x. 3 / 10 * ?T < x) ?xs) \<le> 3"
    using at_most_three_shares [of ?xs] T unfolding total_open_interest_def
    by (auto intro: dabs_nonneg)
  finally show ?thesis .
qed

subsection \<open>Cover 2\<close>

definition exposure :: "db \<Rightarrow> uuid \<Rightarrow> rat" where
  "exposure d m = (\<Sum>r\<leftarrow>filter (\<lambda>r. mr_member_id r = m) (active_requirements d). mr_required_amount r)"

lemma member_exposures_value: "(m, x) \<in> set (member_exposures d) \<Longrightarrow> x = exposure d m"
  using group_by_member [of m _ mr_member_id "active_requirements d"]
  by (auto simp: member_exposures_def exposure_def)

lemma member_exposures_keys:
  "map fst (member_exposures d) = map fst (group_by mr_member_id (active_requirements d))"
  by (simp add: member_exposures_def case_prod_unfold)

lemma member_exposures_distinct: "distinct (map fst (member_exposures d))"
  unfolding member_exposures_keys by (rule group_by_distinct)

lemma exposure_listed:
  assumes "exposure d m \<noteq> 0"
  shows "(m, exposure d m) \<in> set (member_exposures d)"
proof -
  have "filter (\<lambda>r. mr_member_id r = m) (active_requirements d) \<noteq> []"
    using assms by (auto simp: exposure_def simp del: filter_empty_conv)
  then have "m \<in> mr_member_id ` set (active_requirements d)" by (auto simp: filter_empty_conv)
  then have "m \<in> set (map fst (member_exposures d))"
    unfolding member_exposures_keys group_by_keys .
  then obtain x where "(m, x) \<in> set (member_exposures d)" by auto
  with member_exposures_value [OF this] show ?thesis by simp
qed

text \<open>Any two values of a list of distinct keys add up to no more than its two largest.\<close>

lemma two_largest:
  assumes "distinct (map fst rows)" "\<And>m x. (m, x) \<in> set rows \<Longrightarrow> 0 \<le> (x :: rat)"
    and "(m, x) \<in> set rows \<or> x = 0" "(n, y) \<in> set rows \<or> y = 0" "m \<noteq> n"
  shows "x + y \<le> sum_list (map snd (take 2 (sort_key (\<lambda>(m, x). - x) rows)))"
proof -
  let ?s = "sort_key (\<lambda>(m, x). - x) rows"
  have set: "set ?s = set rows" by simp
  have "distinct (map fst ?s)"
    using assms(1) by (metis mset_map mset_sort mset_eq_imp_distinct_iff)
  moreover have "sorted (map (\<lambda>(m, x). - x) ?s)" by simp
  ultimately have "x + y \<le> sum_list (map snd (take 2 ?s))"
    if "\<And>m x. (m, x) \<in> set ?s \<Longrightarrow> 0 \<le> x" "(m, x) \<in> set ?s \<or> x = 0" "(n, y) \<in> set ?s \<or> y = 0"
    using that
  proof (cases ?s)
    case (Cons p ps)
    show ?thesis
    proof (cases ps)
      case Nil
      obtain k z where p: "p = (k, z)" by fastforce
      with Cons Nil have s: "?s = [(k, z)]" by simp
      have "0 \<le> z" using that(1) [of k z] s by simp
      with that(2,3) \<open>m \<noteq> n\<close> show ?thesis unfolding s by auto
    next
      case (Cons q qs)
      note s = \<open>?s = p # ps\<close> Cons
      from \<open>sorted (map (\<lambda>(m, x). - x) ?s)\<close> have le: "snd r \<le> snd q" "snd q \<le> snd p" if "r \<in> set qs" for r
        using that unfolding s by (auto simp: case_prod_beta)
      from \<open>sorted (map (\<lambda>(m, x). - x) ?s)\<close> have qp: "snd q \<le> snd p" unfolding s by (auto simp: case_prod_beta)
      have pos: "0 \<le> snd p" "0 \<le> snd q" using that(1) [of "fst p" "snd p"] that(1) [of "fst q" "snd q"]
        unfolding s by simp_all
      have one: "z \<le> snd p \<and> (k \<noteq> fst p \<longrightarrow> z \<le> snd q)" if "(k, z) \<in> set ?s \<or> z = 0" for k z
      proof (cases "z = 0")
        case False
        with that have "(k, z) = p \<or> (k, z) = q \<or> (k, z) \<in> set qs" unfolding s by auto
        then show ?thesis using le [of "(k, z)"] qp by auto
      qed (use pos in simp)
      from one [OF that(2)] one [OF that(3)] \<open>m \<noteq> n\<close> have "x + y \<le> snd p + snd q"
        by (cases "m = fst p") auto
      then show ?thesis unfolding s by simp
    qed
  qed auto
  then show ?thesis using assms unfolding set by blast
qed

lemma cover2_exact:
  assumes "\<And>m. dec_round (exposure d m) = exposure d m"
  shows "cover2_requirement d =
     dec_round (sum_list (map snd (take 2 (sort_key (\<lambda>(m, x). - x) (member_exposures d)))))"
proof -
  let ?t = "take 2 (sort_key (\<lambda>(m, x). - x) (member_exposures d))"
  have val: "dec_round x = x" if "(m, x) \<in> set ?t" for m x
    using that in_set_takeD member_exposures_value assms by fastforce
  have "length ?t \<le> 2" by simp
  then consider "?t = []" | p where "?t = [p]" | p q where "?t = [p, q]"
    by (cases ?t; cases "tl ?t") (auto simp: length_Suc_conv le_Suc_eq numeral_2_eq_2)
  then show ?thesis
  proof cases
    case (2 p)
    with val [of "fst p" "snd p"] show ?thesis
      by (cases p) (auto simp: cover2_requirement_def dsum_def dadd_def)
  next
    case (3 p q)
    with val [of "fst p" "snd p"] val [of "fst q" "snd q"] show ?thesis
      by (cases p; cases q) (auto simp: cover2_requirement_def dsum_def dadd_def)
  qed (simp add: cover2_requirement_def dsum_def)
qed

subsection \<open>Properties\<close>

text \<open>C34. A run of the concentration monitor raises at most three alerts, and only for members that
  hold more than thirty percent of the open interest: the rounding of the total and of the
  percentages never adds an alert.\<close>

theorem concentration_alerts_bounded:
  assumes "check_member_concentration pgdiv writable d = Inr (alerts, d')"
  shows "length alerts \<le> 3 \<and>
    (\<forall>alert \<in> set alerts. \<exists>(m, oi) \<in> set (concentration_rows pgdiv d).
       pget alert ''member_id'' = Some (PId m) \<and>
       3 / 10 * total_open_interest (concentration_rows pgdiv d) < dabs oi)"
proof (cases "total_open_interest (concentration_rows pgdiv d) = 0")
  case True
  with assms show ?thesis by (simp add: check_member_concentration_def Let_def tx_simps)
next
  case False
  let ?rows = "concentration_rows pgdiv d"
  let ?T = "total_open_interest ?rows"
  have "fold_tx (check_row writable ?T) ?rows [] d = Inr (alerts, d')"
    using assms False by (simp add: check_member_concentration_def Let_def tx_simps)
  then have alerts: "alerts = alerts_of ?T ?rows" using check_rows_result by fastforce
  have T: "0 < ?T" using False dsum_nonneg [of "[dabs oi. (m, oi) \<leftarrow> ?rows, oi \<noteq> 0]"]
    by (force simp: total_open_interest_def intro: dabs_nonneg)
  have "\<exists>(m, oi) \<in> set ?rows. pget a ''member_id'' = Some (PId m) \<and> 3 / 10 * ?T < dabs oi"
    if "a \<in> set alerts" for a
  proof -
    from that alerts obtain m oi where row: "(m, oi) \<in> set ?rows" "concentration_alert ?T (m, oi) = Some a"
      by (force simp: alerts_of_def List.map_filter_def)
    then have "pget a ''member_id'' = Some (PId m)"
      by (auto simp: concentration_alert_def Let_def pget_def split: if_splits)
    with row concentration_share [OF row(2) T] show ?thesis by blast
  qed
  with alerts_of_bounded [OF False] alerts show ?thesis by blast
qed

text \<open>Two members with open legs, with requirements of 40 each, and a fund of 100.\<close>

definition watched_db :: db where
  "watched_db = (empty_db migrated_schema)\<lparr>
     db_members :=
       [\<lparr>m_id = 2, m_lei = ''A'', m_name = ''A'', m_status = ''active'', m_credit_limit = 0\<rparr>,
        \<lparr>m_id = 4, m_lei = ''B'', m_name = ''B'', m_status = ''active'', m_credit_limit = 0\<rparr>],
     db_accounts := [\<lparr>a_id = 5, a_member_id = 2, a_account_type = ''DEFAULT_FUND'',
       a_currency = ''USD'', a_pool = ''AVAILABLE''\<rparr>],
     db_entries := [\<lparr>je_journal_id = 6, je_account_id = 5, je_debit = 100, je_credit = 0\<rparr>],
     db_novated :=
       [\<lparr>n_id = 10, n_original_trade_id = 8, n_member_id = 2, n_instrument_id = 3, n_side = ''BUY'',
         n_quantity = 10, n_price = 100, n_status = ''open'', n_novated_at = 0\<rparr>,
        \<lparr>n_id = 11, n_original_trade_id = 8, n_member_id = 4, n_instrument_id = 3, n_side = ''SELL'',
         n_quantity = 10, n_price = 100, n_status = ''open'', n_novated_at = 0\<rparr>],
     db_requirements :=
       [\<lparr>mr_id = 12, mr_member_id = 2, mr_instrument_id = 3, mr_margin_type = ''INITIAL'',
         mr_required_amount = 40, mr_posted_amount = 0\<rparr>,
        \<lparr>mr_id = 13, mr_member_id = 4, mr_instrument_id = 3, mr_margin_type = ''INITIAL'',
         mr_required_amount = 40, mr_posted_amount = 0\<rparr>],
     db_next_uuid := 20\<rparr>"

lemmas watched_defs = watched_db_def empty_db_def

lemma watched_rows: "concentration_rows pgdiv watched_db = [(2, 10), (4, 10)]"
  by (simp add: concentration_rows_def member_positions_def position_of_def watched_defs Let_def)

lemma watched_interest: "total_open_interest [(2, 10), (4, 10)] = 20"
  by (simp add: total_open_interest_def dsum_def dadd_def dabs_def dec_round_numeral)

lemma round_half: "dec_round (1 / 2) = 1 / 2"
  using dec_round_exact [of 5 "- 1"] by simp

lemma watched_alert: "\<exists>a. concentration_alert 20 (m, 10) = Some a"
  by (simp add: round_half concentration_alert_def Let_def CONCENTRATION_THRESHOLD_PCT_def dabs_def ddiv_def
      dmul_def dec_round_numeral)

lemma watched_concentration:
  "\<exists>a b d'. check_member_concentration pgdiv True watched_db = Inr ([a, b], d')"
proof -
  obtain a b where "concentration_alert 20 (2, 10) = Some a" "concentration_alert 20 (4, 10) = Some b"
    using watched_alert [of 2] watched_alert [of 4] by (elim exE) simp
  then show ?thesis
    by (simp add: check_member_concentration_def Let_def run_simps watched_rows watched_interest
        check_row_def emit_alert_def insert_outbox_event_eq)
qed

theorem concentration_alerts_bounded_witness:
  "\<exists>a b d'. check_member_concentration (/) True watched_db = Inr ([a, b], d') \<and>
     length [a, b] \<le> 3 \<and> (\<exists>(m, oi) \<in> {(2, 10), (4, 10)}.
       pget a ''member_id'' = Some (PId m) \<and> 3 / 10 * 20 < dabs oi)"
proof -
  obtain a b d' where run: "check_member_concentration (/) True watched_db = Inr ([a, b], d')"
    using watched_concentration by blast
  from concentration_alerts_bounded [OF run] show ?thesis
    using run unfolding watched_rows watched_interest by auto
qed

text \<open>C35. Cover 2: when the default fund monitor raises no alert, the fund covers the requirements of
  any two active members together (as Python's decimals add them), not only of the two it has
  looked at.\<close>

theorem cover_two_of_any:
  assumes "check_default_fund_adequacy writable d = Inr ([], d')" "m \<noteq> n"
    and "\<And>k. dec_round (exposure d k) = exposure d k"
    and "\<And>r. r \<in> set (db_requirements d) \<Longrightarrow> 0 \<le> mr_required_amount r"
  shows "dadd (exposure d m) (exposure d n) \<le> total_default_fund d"
proof -
  let ?rows = "member_exposures d"
  have fund: "0 \<le> total_default_fund d"
    unfolding total_default_fund_def by (rule sum_list_nonneg) auto
  have nonneg: "0 \<le> exposure d k" for k
    unfolding exposure_def by (rule sum_list_nonneg) (use assms(4) in \<open>auto simp: active_requirements_def\<close>)
  have "(k, exposure d k) \<in> set ?rows \<or> exposure d k = 0" for k using exposure_listed by blast
  moreover have "0 \<le> x" if "(k, x) \<in> set ?rows" for k x
    using member_exposures_value [OF that] nonneg by simp
  ultimately have "exposure d m + exposure d n \<le>
      sum_list (map snd (take 2 (sort_key (\<lambda>(m, x). - x) ?rows)))"
    using two_largest [OF member_exposures_distinct] assms(2) by blast
  then have le: "dadd (exposure d m) (exposure d n) \<le> cover2_requirement d"
    unfolding dadd_def cover2_exact [OF assms(3)] by (rule dec_round_mono)
  from assms(1) have "\<not> (0 < cover2_requirement d \<and> total_default_fund d < cover2_requirement d)"
    by (auto simp: check_default_fund_adequacy_def Let_def tx_simps split: if_splits)
  with le fund show ?thesis by linarith
qed

lemma watched_exposure: "exposure watched_db k = (if k = 2 \<or> k = 4 then 40 else 0)"
  by (simp add: exposure_def active_requirements_def watched_defs)

lemma watched_fund: "total_default_fund watched_db = 100"
  by (simp add: total_default_fund_def acct_balance_def watched_defs)

lemma watched_cover: "cover2_requirement watched_db = 80"
  by (simp add: cover2_requirement_def member_exposures_def active_requirements_def watched_defs
      dsum_def dadd_def dec_round_numeral)

theorem cover_two_of_any_witness:
  "check_default_fund_adequacy True watched_db = Inr ([], watched_db) \<and>
   dadd (exposure watched_db 4) (exposure watched_db 2) \<le> total_default_fund watched_db"
proof -
  have run: "check_default_fund_adequacy True watched_db = Inr ([], watched_db)"
    by (simp add: check_default_fund_adequacy_def run_simps watched_cover watched_fund)
  moreover have "dadd (exposure watched_db 4) (exposure watched_db 2) \<le> total_default_fund watched_db"
    by (rule cover_two_of_any [OF run])
      (auto simp: watched_exposure dec_round_numeral, simp add: watched_defs, auto)
  ultimately show ?thesis ..
qed

text \<open>No alert ever leaves the monitor: whatever the monitors raise for an event, the outbox is
  as before, and the event is marked, so that its redelivery is not looked at again.\<close>

theorem compliance_alerts_lost:
  assumes "consume_compliance_event pgdiv writable event d = (r, d')"
    and "pget_id event ''event_id'' = Some e" "ledger_committed d"
  shows "db_outbox d' = db_outbox d \<and> get_recent_alerts d' = get_recent_alerts d \<and>
     processed ''compliance-monitor'' e d' \<and>
     consume_compliance_event pgdiv' writable' event d' = (Inr [], d')"
proof -
  have def: "db_deferred d = []" using assms(3) by (simp add: ledger_committed_def)
  let ?m = "d\<lparr>db_processed := db_processed d @
        [\<lparr>pe_service_name = ''compliance-monitor'', pe_event_id = e, pe_reference_id = None\<rparr>]\<rparr>"
  have commit: "commit c = Inr ((), c)" if "db_deferred c = []" for c
    using that by (simp add: commit_Inr)
  have seen: "consume_compliance_event pgd w event c = (Inr [], c)"
    if "processed ''compliance-monitor'' e c" "db_deferred c = []" for c pgd w
    using that assms(2) commit [of c]
    by (simp add: consume_compliance_event_def mark_event_def process_if_new_eq bind_tx_def return_tx_def)
  show ?thesis
  proof (cases "processed ''compliance-monitor'' e d")
    case True
    with assms(1) seen [OF True def] show ?thesis using seen [OF True def] by simp
  next
    case False
    then have mark: "mark_event event d = Inr (True, ?m)"
      using assms(2) commit [of ?m] def
      by (simp add: mark_event_def process_if_new_eq bind_tx_def return_tx_def)
    with assms(1) have d': "d' = ?m"
      by (auto simp: consume_compliance_event_def closed_connection_def split: sum.splits)
    then have "processed ''compliance-monitor'' e d'" by (simp add: processed_def)
    with d' def seen [of d'] show ?thesis by (simp add: get_recent_alerts_def)
  qed
qed

definition large_trade_event :: payload where
  "large_trade_event =
     [(''event_id'', PId 50), (''event_type'', PStr ''trade.novated''),
      (''novated_trades'', PList [PObj [(''original_trade_id'', PId 8),
        (''quantity'', PDec 1000), (''price'', PDec 65000)]])]"

theorem compliance_alerts_lost_witness:
  "\<exists>alert d'. consume_compliance_event (/) True large_trade_event (empty_db migrated_schema) = (Inr [alert], d') \<and>
     db_outbox d' = [] \<and> processed ''compliance-monitor'' 50 d' \<and>
     consume_compliance_event (/) True large_trade_event d' = (Inr [], d')"
proof -
  let ?d = "empty_db migrated_schema"
  have id: "pget_id large_trade_event ''event_id'' = Some 50"
    by (simp add: large_trade_event_def pget_id_def pget_def)
  have com: "ledger_committed ?d"
    by (simp add: ledger_committed_def ledger_wf_def empty_db_def journal_balanced_def journal_entries_of_def)
  have "\<exists>alert d'. consume_compliance_event (/) True large_trade_event ?d = (Inr [alert], d')"
    by (simp add: consume_compliance_event_def closed_connection_def mark_event_def handle_event_def
        event_trades_def check_event_trade_def check_large_trade_def trade_number_def trade_field_def
        emit_alert_def insert_outbox_event_eq check_member_concentration_def concentration_rows_def
        member_positions_def total_open_interest_def dsum_def dmul_def dec_round_numeral
        LARGE_TRADE_THRESHOLD_USD_def Let_def id process_if_new_eq processed_def commit_Inr run_simps
        commit_def large_trade_event_def pget_id_def pget_str_def pget_def empty_db_def)
  then obtain alert d' where run:
    "consume_compliance_event (/) True large_trade_event ?d = (Inr [alert], d')" by blast
  from compliance_alerts_lost [OF run id com, of "(/)" True] show ?thesis
    using run by (auto simp: empty_db_def)
qed

end
