(* ===== verification/System.thy ===== *)
theory System
  imports Messaging Gateway Netting Waterfall Settlement_Laws Margin Collateral Seed Oracle Compliance
begin

section \<open>The clearing house as a system of services\<close>

text \<open>
  The services share the database, the Kafka cluster and the chains. A step of the system is a
  request to the gateway or to the netting trigger, a message polled by one of the consumers
  (any message, in any order, any number of times), a turn of a background loop, a run of the
  seed script, a reconciliation, or the clock. A step of a service is atomic: it is the
  transaction of its connection, and a failed one leaves the state the connection began with.
\<close>

subsection \<open>Every message handler honours the contract of the consumer loop\<close>

lemma consumer_commits:
  assumes "ledger_wf d" "\<And>tr. across evolves (body tr)"
    and "bind_tx (from_kafka_payload v) (\<lambda>tr. handle_once service event (body tr)) d = Inr (x, d')"
  shows "ledger_committed d'"
proof -
  from assms(3) obtain tr d0 where
    0: "from_kafka_payload v d = Inr (tr, d0)" "handle_once service event (body tr) d0 = Inr (x, d')"
    by (auto simp: tx_simps)
  have "ledger_wf d0" using acrossD [OF trace_evolves(2) 0(1)] assms(1) by (simp add: evolves_def)
  then show ?thesis by (rule handle_once_committed [OF assms(2) _ 0(2)])
qed

lemma handle_trade_message_commits:
  "ledger_wf d \<Longrightarrow> handle_trade_message v d = Inr ((), d') \<Longrightarrow> ledger_committed d'"
  unfolding handle_trade_message_def by (rule consumer_commits [OF _ ev_process_trade])

lemma handle_netting_trigger_commits:
  assumes "ledger_wf d" "handle_netting_trigger now v d = Inr ((), d')"
  shows "ledger_committed d'"
proof -
  from assms(2) obtain ct co tr d0 d1 where
    0: "from_kafka_payload v d = Inr (tr, d0)" "parse_cut_off now v d0 = Inr (co, d1)"
       "handle_once ''netting-engine'' (pget_id v ''event_id'')
         (bind_tx (run_netting_cycle ct co (Some tr)) (\<lambda>_. return_tx ())) d1 = Inr ((), d')"
    by (auto simp: handle_netting_trigger_def Let_def tx_simps split: option.splits)
  have "evolves d d1"
    using acrossD [OF trace_evolves(2) 0(1)] acrossD [OF ev_parse_cut_off 0(2)] by (rule ev.trans)
  then have wf: "ledger_wf d1" using assms(1) by (simp add: evolves_def)
  show ?thesis by (rule handle_once_committed [OF _ wf 0(3)]) (intro evolving)
qed

interpretation trade_handler: message_handler handle_trade_message
  by unfold_locales (rule ev_handle_trade_message, erule handle_trade_message_commits)

interpretation netting_handler: message_handler "handle_netting_trigger now" for now
  by unfold_locales (rule ev_handle_netting_trigger, erule handle_netting_trigger_commits)

subsection \<open>What every step keeps\<close>

text \<open>The history of the clearing house: nothing of it is changed or removed.\<close>

definition history_grows :: "db \<Rightarrow> db \<Rightarrow> bool" where
  "history_grows d d' \<longleftrightarrow> grows db_journals d d' \<and> grows db_entries d d' \<and>
     grows db_transitions d d' \<and> grows db_obligations d d' \<and> grows db_steps d d' \<and>
     grows (\<lambda>d. map trade_terms (db_trades d)) d d' \<and>
     grows (\<lambda>d. map leg_terms (db_novated d)) d d' \<and>
     grows (\<lambda>d. map instruction_terms (db_instructions d)) d d'"

definition keeps_books :: "db \<Rightarrow> db \<Rightarrow> bool" where
  "keeps_books d d' \<longleftrightarrow> history_grows d d' \<and> (ledger_wf d \<longrightarrow> ledger_wf d') \<and>
     (ids_wf d \<longrightarrow> ids_wf d') \<and> (all_confirmed d \<longrightarrow> all_confirmed d') \<and>
     (fresh_accounts d \<longrightarrow> fresh_accounts d') \<and> (checked d \<longrightarrow> checked d') \<and>
     (linked d \<longrightarrow> linked d')"

interpretation hg: tx_relation history_grows
proof
  show "history_grows d d" for d by (simp add: history_grows_def grows_def)
  show "history_grows d e \<Longrightarrow> history_grows e f \<Longrightarrow> history_grows d f" for d e f
    unfolding history_grows_def grows_def by (auto intro: prefix_order.trans)
qed

interpretation kb: tx_relation keeps_books
  by unfold_locales (auto simp: keeps_books_def intro: hg.trans)

lemma evolves_keeps_books: "evolves d d' \<Longrightarrow> keeps_books d d'"
  by (auto simp: evolves_def keeps_books_def history_grows_def fresh_accounts_def intro: fresh_ids_mono)

lemma across_keeps: "across evolves m \<Longrightarrow> across keeps_books m"
  by (auto simp: across_def intro: evolves_keeps_books)

subsection \<open>The seed script\<close>

text \<open>The script adds members, accounts and instruments; its journals are like any other.\<close>

lemma linked_more:
  assumes "linked d" "\<And>m. has_member m d \<Longrightarrow> has_member m (d\<lparr>db_members := ms\<rparr>)"
    "\<And>i. has_instrument i d \<Longrightarrow> has_instrument i (d\<lparr>db_instruments := il\<rparr>)"
  shows "linked (d\<lparr>db_members := ms\<rparr>)" "linked (d\<lparr>db_instruments := il\<rparr>)"
  using assms
  by (simp_all add: linked_def has_member_def has_instrument_def has_trade_def has_cycle_def has_default_def)

lemma books_uuid: "keeps_books d (d\<lparr>db_next_uuid := Suc (db_next_uuid d)\<rparr>)"
  by (auto simp: keeps_books_def history_grows_def grows_def ids_wf_def all_confirmed_def Let_def
      fresh_accounts_def)

lemma books_members:
  assumes "checked d \<Longrightarrow> checked (d\<lparr>db_members := ms\<rparr>)" "m_id ` set (db_members d) \<subseteq> m_id ` set ms"
  shows "keeps_books d (d\<lparr>db_next_uuid := Suc (db_next_uuid d), db_members := ms\<rparr>)"
proof -
  have "has_member m d \<Longrightarrow> has_member m (d\<lparr>db_members := ms\<rparr>)" for m
  proof -
    assume "has_member m d"
    then have "m \<in> m_id ` set (db_members d)" by (auto simp: has_member_def)
    then have "m \<in> m_id ` set ms" using assms(2) by blast
    then show ?thesis by (auto simp: has_member_def)
  qed
  then have "linked d \<Longrightarrow> linked (d\<lparr>db_members := ms\<rparr>)"
    by (intro linked_more(1) [where il = "db_instruments d"]) simp_all
  then have "linked d \<Longrightarrow> linked (d\<lparr>db_next_uuid := Suc (db_next_uuid d), db_members := ms\<rparr>)"
    by (simp add: linked_def has_member_def has_instrument_def has_trade_def has_cycle_def has_default_def)
  moreover have "checked d \<Longrightarrow> checked (d\<lparr>db_next_uuid := Suc (db_next_uuid d), db_members := ms\<rparr>)"
    using assms(1) by (simp add: checked_def)
  ultimately show ?thesis
    by (auto simp: keeps_books_def history_grows_def grows_def ids_wf_def all_confirmed_def Let_def
        fresh_accounts_def)
qed

lemma books_instrument:
  "keeps_books d (d\<lparr>db_next_uuid := Suc (db_next_uuid d), db_instruments := db_instruments d @ [i]\<rparr>)"
  by (auto simp: keeps_books_def history_grows_def grows_def ids_wf_def all_confirmed_def Let_def
      fresh_accounts_def linked_def has_member_def has_instrument_def has_trade_def has_cycle_def
      has_default_def)

lemma books_account:
  assumes "a_id a = db_next_uuid d"
  shows "keeps_books d (d\<lparr>db_next_uuid := Suc (db_next_uuid d), db_accounts := db_accounts d @ [a]\<rparr>)"
proof -
  let ?d = "d\<lparr>db_next_uuid := Suc (db_next_uuid d), db_accounts := db_accounts d @ [a]\<rparr>"
  have "ledger_wf ?d" if "ledger_wf d"
    using that by (simp add: ledger_wf_def has_account_def has_journal_def journal_balanced_def
        journal_entries_of_def)
  moreover have "fresh_accounts ?d" if "fresh_accounts d"
    using that assms by (auto simp: fresh_accounts_def fresh_ids_def)
  ultimately show ?thesis
    by (simp add: keeps_books_def history_grows_def grows_def ids_wf_def all_confirmed_def Let_def)
qed

lemma books_journal:
  assumes "j_id j = db_next_uuid d" "j_status j = ''confirmed''"
    "j_journal_type j \<in> set (chk_journal_type (db_schema d))"
    "j_status j \<in> set (chk_journal_status (db_schema d))"
  shows "keeps_books d (d\<lparr>db_next_uuid := Suc (db_next_uuid d), db_journals := db_journals d @ [j]\<rparr>)"
proof -
  let ?d = "d\<lparr>db_next_uuid := Suc (db_next_uuid d), db_journals := db_journals d @ [j]\<rparr>"
  have "ledger_wf ?d" if "ledger_wf d"
    using that by (simp add: ledger_wf_def has_account_def has_journal_def journal_balanced_def
        journal_entries_of_def)
  moreover have "ids_wf ?d" if "ids_wf d"
    using that assms by (auto simp: ids_wf_def Let_def fresh_ids_def)
  moreover have "checked ?d" if "checked d"
    using that assms by (auto simp: checked_def Let_def)
  ultimately show ?thesis using assms
    by (simp add: keeps_books_def history_grows_def grows_def all_confirmed_def fresh_accounts_def)
qed

lemma kb_upsert_member:
  assumes "\<And>l r. m_id (upd l r) = m_id r \<and> m_status (upd l r) = m_status r"
  shows "across keeps_books (upsert_member lei name x upd)"
proof (rule acrossI)
  fix d i d'
  assume run: "upsert_member lei name x upd d = Inr (i, d')"
  let ?f = "\<lambda>l. update_where (\<lambda>r. m_lei r = lei) (\<lambda>r. upd l (r\<lparr>m_name := name\<rparr>)) (db_members d)"
  have ids: "map m_id (?f l) = map m_id (db_members d)" for l
    using assms by (simp add: map_update_where)
  have "m_id ` set (db_members d) \<subseteq> m_id ` set (?f l)" for l
    unfolding set_map [symmetric] ids by simp
  moreover have "checked d \<Longrightarrow> checked (d\<lparr>db_members := ?f l\<rparr>)" for l
    using assms by (simp add: checked_def Let_def ball_update_where)
  ultimately have "keeps_books d (d\<lparr>db_next_uuid := Suc (db_next_uuid d), db_members := ?f l\<rparr>)" for l
    by (intro books_members)
  moreover have "keeps_books d (d\<lparr>db_next_uuid := Suc (db_next_uuid d), db_members := db_members d @ [m]\<rparr>)"
    if "m_status m \<in> set (chk_member_status (db_schema d))" for m
    using that by (intro books_members) (auto simp: checked_def Let_def)
  ultimately show "keeps_books d d'"
    using run by (auto simp: upsert_member_def fresh_uuid_def numeric_def check_vocab_def tx_simps
        split: option.splits if_splits)
qed

lemma kb_insert_account: "across keeps_books (insert_account_if_new m ty pool)"
  by (rule acrossI)
    (auto simp: insert_account_if_new_def fresh_uuid_def foreign_key_def check_vocab_def tx_simps
      books_uuid books_account split: if_splits)

lemma kb_insert_instrument: "across keeps_books (insert_instrument_if_new i)"
  by (rule acrossI)
    (auto simp: insert_instrument_if_new_def fresh_uuid_def margin_rate_def check_vocab_def Let_def
      tx_simps books_uuid books_instrument split: if_splits)

lemma kb_insert_seed_journal: "across keeps_books insert_seed_journal"
  by (rule acrossI)
    (auto simp: insert_seed_journal_def fresh_uuid_def check_vocab_def tx_simps books_journal)

lemmas kb_seed_rules = kb.across_rules kb_upsert_member kb_insert_account kb_insert_instrument
  kb_insert_seed_journal across_keeps [OF ev_seed_default_fund] across_keeps [OF ev_commit]

lemma kb_seed_main: "across keeps_books seed_main"
  unfolding seed_main_def seed_ccp_house_account_def seed_members_def seed_member_accounts_def
    seed_instruments_def seed_accounts_def Let_def
  by (intro kb_seed_rules) simp_all

lemma seed_main_commits:
  assumes "ledger_wf d" "seed_main d = Inr ((), d')"
  shows "ledger_committed d'"
proof -
  from assms(2) obtain c where c: "commit c = Inr ((), d')"
    and "\<exists>ccp ids. bind_tx seed_ccp_house_account (\<lambda>ccp_id. bind_tx seed_members (\<lambda>member_ids.
      bind_tx seed_instruments (\<lambda>_. seed_default_fund member_ids ccp_id))) d = Inr ((), c)"
    by (auto simp: seed_main_def tx_simps)
  moreover have "across keeps_books (bind_tx seed_ccp_house_account (\<lambda>ccp_id. bind_tx seed_members
      (\<lambda>member_ids. bind_tx seed_instruments (\<lambda>_. seed_default_fund member_ids ccp_id))))"
    unfolding seed_ccp_house_account_def seed_members_def seed_member_accounts_def
      seed_instruments_def seed_accounts_def Let_def
    by (intro kb_seed_rules) simp_all
  ultimately have "ledger_wf c" using assms(1) by (auto simp: across_def keeps_books_def)
  then show ?thesis using c by (rule commit_balances)
qed

subsection \<open>The steps\<close>

record ('k, 's) environment =
  en_api_keys :: "(string \<times> string) list"
  en_pgdiv :: "rat \<Rightarrow> rat \<Rightarrow> rat"
  en_jsonb :: "message_value \<Rightarrow> pval option"
  en_client :: "'k kafka"
  en_registry :: "'s chain_registry"
  en_sign :: signer

record ('k, 's) clearing_house =
  ch_db :: db
  ch_kafka :: 'k
  ch_chain :: 's

inductive service_step ::
    "('k, 's) environment \<Rightarrow> ('k, 's) clearing_house \<Rightarrow> ('k, 's) clearing_house \<Rightarrow> bool"
  for en :: "('k, 's) environment" where
  submit: "service_step en c (c\<lparr>ch_db := state_after (submit_trade (en_api_keys en) headers rq) (ch_db c)\<rparr>)"
| trade_message:
    "poll_step (en_jsonb en) ''trade-ingestion'' (on_object handle_trade_message) (ch_db c, offs) p = (d', offs') \<Longrightarrow>
     service_step en c (c\<lparr>ch_db := d'\<rparr>)"
| netting_message:
    "poll_step (en_jsonb en) ''netting-engine'' (on_object (handle_netting_trigger now)) (ch_db c, offs) p = (d', offs') \<Longrightarrow>
     service_step en c (c\<lparr>ch_db := d'\<rparr>)"
| netting_request: "service_step en c (c\<lparr>ch_db := state_after (trigger_netting now cut_off ct) (ch_db c)\<rparr>)"
| settlement_message:
    "consume_settlement (en_registry en) (en_sign en) event (ch_db c, ch_chain c) = (d', s') \<Longrightarrow>
     service_step en c (c\<lparr>ch_db := d', ch_chain := s'\<rparr>)"
| default_message: "service_step en c (c\<lparr>ch_db := state_after (consume_default_event event) (ch_db c)\<rparr>)"
| margin_message: "service_step en c
    (c\<lparr>ch_db := state_after (consume_margin_event (en_pgdiv en) now minutes event) (ch_db c)\<rparr>)"
| collateral_message: "service_step en c (c\<lparr>ch_db := state_after (consume_collateral_event event) (ch_db c)\<rparr>)"
| compliance_message:
    "consume_compliance_event (en_pgdiv en) writable event (ch_db c) = (r, d') \<Longrightarrow>
     service_step en c (c\<lparr>ch_db := d'\<rparr>)"
| price_turn: "service_step en c (c\<lparr>ch_db := price_update_turn owner factors (ch_db c)\<rparr>)"
| publish:
    "publisher_turn locked n (en_client en) (ch_db c, ch_kafka c) = (d', k') \<Longrightarrow>
     service_step en c (c\<lparr>ch_db := d', ch_kafka := k'\<rparr>)"
| seeding: "service_step en c (c\<lparr>ch_db := state_after seed_main (ch_db c)\<rparr>)"
| clock: "db_now (ch_db c) \<le> t \<Longrightarrow> service_step en c (c\<lparr>ch_db := (ch_db c)\<lparr>db_now := t\<rparr>\<rparr>)"

text \<open>The system starts on an empty database of any version of the schema.\<close>

inductive reachable :: "('k, 's) environment \<Rightarrow> ('k, 's) clearing_house \<Rightarrow> bool"
  for en :: "('k, 's) environment" where
  start: "ch_db c = empty_db schema \<Longrightarrow> reachable en c"
| more: "reachable en c \<Longrightarrow> service_step en c c' \<Longrightarrow> reachable en c'"

subsection \<open>Every step keeps the books\<close>

definition keeps_committed :: "db \<Rightarrow> db \<Rightarrow> bool" where
  "keeps_committed d d' \<longleftrightarrow> keeps_books d d' \<and> (ledger_committed d \<longrightarrow> ledger_committed d')"

lemma state_after_keeps:
  assumes "across keeps_books m" "\<And>x d'. ledger_committed d \<Longrightarrow> m d = Inr (x, d') \<Longrightarrow> ledger_committed d'"
  shows "keeps_committed d (state_after m d)"
  using assms by (auto simp: keeps_committed_def state_after_def across_def split: sum.splits prod.splits)

lemmas state_after_evolves = state_after_keeps [OF across_keeps]

lemma consumer_keeps:
  assumes "\<And>tr. across evolves (body tr)"
  shows "keeps_committed d (state_after
    (bind_tx (from_kafka_payload v) (\<lambda>tr. handle_once service event (body tr))) d)"
proof (rule state_after_evolves)
  show "across evolves (bind_tx (from_kafka_payload v) (\<lambda>tr. handle_once service event (body tr)))"
    by (intro evolving assms)
  show "ledger_committed d'"
    if "ledger_committed d" "bind_tx (from_kafka_payload v) (\<lambda>tr. handle_once service event (body tr)) d = Inr (x, d')"
    for x d'
    using consumer_commits [OF _ assms that(2)] that(1) by (simp add: ledger_committed_def)
qed

lemma submit_trade_commits:
  assumes "ledger_committed d" "submit_trade keys h rq d = Inr (r, d')"
  shows "ledger_committed d'"
proof -
  have "ledger_wf d'" using acrossD [OF ev_submit_trade assms(2)] assms(1)
    by (simp add: evolves_def ledger_committed_def)
  moreover have "db_deferred d' = []"
    using assms by (auto simp: submit_trade_def trace_middleware_def fresh_uuid_def require_permission_def
        idempotency_key_def submit_new_trade_def ledger_committed_def commit_Inr tx_simps
        split: option.splits pval.splits if_splits)
  ultimately show ?thesis by (simp add: ledger_committed_def)
qed

lemma poll_step_keeps:
  assumes "\<And>event. across evolves (handler event)"
    "\<And>event d x d'. ledger_wf d \<Longrightarrow> handler event d = Inr (x, d') \<Longrightarrow> ledger_committed d'"
    "poll_step jsonb g (on_object handler) (d, offs) p = (d', offs')"
  shows "keeps_committed d d'"
proof -
  have dlq: "keeps_committed d (send_to_dlq jsonb g m err d)" for m err
    using evolves_keeps_books [OF evolves_send_to_dlq] send_to_dlq_committed [of d]
    by (simp add: keeps_committed_def)
  show ?thesis
  proof (cases "p \<in> {NoMessage, PollError} \<or> (\<exists>m err. d' = send_to_dlq jsonb g m err d)")
    case True
    with assms(3) dlq show ?thesis by (auto simp: poll_step_def keeps_committed_def)
  next
    case False
    with assms(3) obtain event where "handler event d = Inr ((), d')"
      by (auto simp: poll_step_def on_object_def run_simps split: polled.splits message_value.splits
          pval.splits sum.splits)
    note run = this
    have "evolves d d'" by (rule acrossD [OF assms(1) run])
    moreover have "ledger_committed d'" if "ledger_committed d"
      using that assms(2) [OF _ run] by (simp add: ledger_committed_def)
    ultimately show ?thesis by (simp add: keeps_committed_def evolves_keeps_books)
  qed
qed

lemma publisher_turn_keeps:
  assumes "publisher_turn locked n kf (d, k) = (d', k')"
  shows "keeps_committed d d'"
proof -
  have "keeps_act ledger_wf ledger_committed (process_batch locked n kf)"
    unfolding process_batch_def publish_batch_def publish_event_def producer_produce_def producer_flush_def
    by (intro sound.keeps_rules evolving_sound evolving)
  from sound.keeps_closed [OF this, of d k] have "ledger_committed d \<Longrightarrow> ledger_committed d'"
    using assms by (simp add: publisher_turn_def)
  moreover have "keeps_act (evolves d) (evolves d) (process_batch locked n kf)"
    unfolding process_batch_def publish_batch_def publish_event_def producer_produce_def producer_flush_def
    by (intro grown.keeps_rules evolving_grown evolving)
  from grown.keeps_closed [OF this ev.refl, of k] have "evolves d d'"
    using assms by (simp add: publisher_turn_def)
  ultimately show ?thesis by (simp add: keeps_committed_def evolves_keeps_books)
qed

lemma consume_settlement_keeps:
  assumes "consume_settlement reg sign event (d, s) = (d', s')"
  shows "keeps_committed d d'"
proof -
  have d': "d' = fst (consume_settlement reg sign event (d, s))" using assms by simp
  have "ledger_committed d'" if "ledger_committed d"
    unfolding d' using that
    by (rule settles_sound.keeps_consume_settlement)
      (auto simp: from_kafka_payload_def fresh_uuid_def tx_simps ledger_committed_def)
  moreover have "evolves d d'"
    unfolding d' by (rule settles_grown.keeps_consume_settlement [OF ev.refl])
      (erule ev.trans, erule acrossD [OF trace_evolves(2)])
  ultimately show ?thesis by (simp add: keeps_committed_def evolves_keeps_books)
qed

lemma compliance_keeps:
  assumes "consume_compliance_event pgdiv w event d = (r, d')"
  shows "keeps_committed d d'"
proof -
  have "d' = d \<or> (\<exists>new. mark_event event d = Inr (new, d'))"
    using assms by (auto simp: consume_compliance_event_def closed_connection_def
        split: sum.splits prod.splits bool.splits)
  moreover have "keeps_committed d d'" if "mark_event event d = Inr (new, d')" for new
  proof -
    have "evolves d d'" using acrossD [OF ev_mark_event that] .
    moreover have "db_deferred d' = []" if "ledger_committed d"
      using \<open>mark_event event d = Inr (new, d')\<close> that
      by (auto simp: mark_event_def commit_Inr ledger_committed_def tx_simps split: option.splits)
    ultimately show ?thesis
      by (auto simp: keeps_committed_def evolves_keeps_books ledger_committed_def)
        (simp add: evolves_def)
  qed
  ultimately show ?thesis by (auto simp: keeps_committed_def)
qed

lemma clock_keeps: "keeps_committed d (d\<lparr>db_now := t\<rparr>)"
proof -
  have "ledger_wf (d\<lparr>db_now := t\<rparr>) = ledger_wf d"
    by (simp add: ledger_wf_def has_account_def has_journal_def journal_balanced_def journal_entries_of_def)
  then show ?thesis
    by (simp add: keeps_committed_def keeps_books_def history_grows_def grows_def ledger_committed_def
        ids_wf_def all_confirmed_def fresh_accounts_def)
qed

lemma consume_collateral_keeps: "keeps_committed d (state_after (consume_collateral_event event) d)"
proof (rule state_after_evolves [OF ev_consume_collateral_event(2)])
  fix x d'
  assume "ledger_committed d" and run: "consume_collateral_event event d = Inr (x, d')"
  then have "ledger_wf d" by (simp add: ledger_committed_def)
  then show "ledger_committed d'"
    using run unfolding consume_collateral_event_def
    by (rule handle_once_committed [OF ev_consume_collateral_event(1)])
qed

lemma service_step_keeps:
  assumes "service_step en c c'"
  shows "keeps_committed (ch_db c) (ch_db c')"
  using assms
proof cases
  case (submit headers rq)
  then show ?thesis by (simp add: state_after_evolves ev_submit_trade submit_trade_commits)
next
  case (trade_message offs p d' offs')
  then show ?thesis
    using poll_step_keeps [OF ev_handle_trade_message handle_trade_message_commits] by simp
next
  case (netting_message now offs p d' offs')
  then show ?thesis
    using poll_step_keeps [OF ev_handle_netting_trigger handle_netting_trigger_commits] by simp
next
  case (netting_request now cut_off ct)
  then show ?thesis
    by (auto intro!: state_after_evolves evolving simp: trigger_netting_def ledger_committed_def tx_simps
        dest!: with_connection_committed [OF ev_run_netting_cycle, rotated] split: option.splits)
next
  case (settlement_message event d' s')
  then show ?thesis by (simp add: consume_settlement_keeps)
next
  case (default_message event)
  then show ?thesis
    by (auto simp: consume_default_event_def intro!: consumer_keeps ev_handle_default_event)
next
  case (margin_message now minutes event)
  then show ?thesis by (auto simp: consume_margin_event_def intro!: consumer_keeps evolving)
next
  case (collateral_message event)
  then show ?thesis by (simp add: consume_collateral_keeps)
next
  case (compliance_message writable event r d')
  then show ?thesis by (simp add: compliance_keeps)
next
  case (price_turn owner factors)
  then show ?thesis
    by (auto simp: keeps_committed_def price_update_turn_def
        intro!: evolves_keeps_books price_turn_evolves [unfolded price_update_turn_def]
          state_after_committed evolving)
next
  case (publish locked n d' k')
  then show ?thesis by (simp add: publisher_turn_keeps)
next
  case seeding
  have "ledger_committed d'" if "ledger_committed d" "seed_main d = Inr (x, d')" for d x d'
    using that seed_main_commits [of d d'] by (simp add: ledger_committed_def)
  with seeding show ?thesis using state_after_keeps [OF kb_seed_main, of "ch_db c"] by simp
next
  case (clock t)
  then show ?thesis by (simp add: clock_keeps)
qed

lemma reachable_sound:
  assumes "reachable en c"
  shows "ledger_committed (ch_db c) \<and> all_confirmed (ch_db c) \<and> ids_wf (ch_db c) \<and>
    fresh_accounts (ch_db c) \<and> checked (ch_db c) \<and> linked (ch_db c)"
  using assms
proof induction
  case (start c schema)
  then show ?case
    by (simp add: empty_db_def ledger_committed_def ledger_wf_def journal_balanced_def
        journal_entries_of_def all_confirmed_def ids_wf_def Let_def fresh_ids_def fresh_accounts_def
        checked_def linked_def)
next
  case (more c c')
  from service_step_keeps [OF more.hyps(2)] more.IH show ?case
    by (auto simp: keeps_committed_def keeps_books_def)
qed

subsection \<open>Properties of the system\<close>

text \<open>C1. The books of the clearing house always reconcile: from an empty database, after any sequence of
  requests, messages (in any order, delivered any number of times), background turns and seed
  runs, whatever the brokers, chains and signers do, every journal balances, all debits equal
  all credits, and the reconciliation passes with no mismatch.\<close>

theorem books_reconcile:
  assumes "reachable en c"
  shows "rr_status (run_reconciliation (ch_db c)) = ''pass'' \<and>
    rr_mismatches (run_reconciliation (ch_db c)) = 0 \<and> trial_balance (ch_db c) = 0 \<and>
    (\<forall>j. journal_balanced (ch_db c) j)"
proof -
  note sound = reachable_sound [OF assms]
  have "distinct (map a_id (db_accounts (ch_db c)))"
    using sound by (simp add: fresh_accounts_def fresh_ids_def)
  with sound committed_reconciles [of "ch_db c"] committed_balanced [of "ch_db c"] show ?thesis
    by (simp add: trial_balance_zero)
qed

definition example_environment :: "(kafka_message list, stub_state) environment" where
  "example_environment = \<lparr>en_api_keys = example_keys, en_pgdiv = (/), en_jsonb = (\<lambda>_. None),
     en_client = stuck_client, en_registry = build_chain_registry (\<lambda>_. []),
     en_sign = (\<lambda>_ _. Inl (ExternalError ''no signer''))\<rparr>"

definition empty_house :: "(kafka_message list, stub_state) clearing_house" where
  "empty_house = \<lparr>ch_db = empty_db migrated_schema, ch_kafka = [], ch_chain = (\<lambda>_. None)\<rparr>"

lemma seeding_empty: "service_step example_environment empty_house
    (empty_house\<lparr>ch_db := state_after seed_main (empty_db migrated_schema)\<rparr>)"
  using service_step.seeding [of example_environment empty_house] by (simp add: empty_house_def)

theorem books_reconcile_witness:
  "let d = state_after seed_main (empty_db migrated_schema) in
   rr_status (run_reconciliation d) = ''pass'' \<and> rr_mismatches (run_reconciliation d) = 0 \<and>
   trial_balance d = 0"
proof -
  have "reachable example_environment empty_house" by (rule start) (simp add: empty_house_def)
  from books_reconcile [OF more [OF this seeding_empty]] show ?thesis by (simp add: Let_def)
qed



text \<open>C15. The history is append-only: no step changes or removes a journal, an entry, a recorded
  status change, an obligation, a waterfall step or the terms of a trade, a leg or an
  instruction that an earlier state had.\<close>

theorem history_is_append_only:
  assumes "(service_step en)\<^sup>*\<^sup>* c c'"
  shows "prefix (db_journals (ch_db c)) (db_journals (ch_db c')) \<and>
    prefix (db_entries (ch_db c)) (db_entries (ch_db c')) \<and>
    prefix (db_transitions (ch_db c)) (db_transitions (ch_db c')) \<and>
    prefix (db_obligations (ch_db c)) (db_obligations (ch_db c')) \<and>
    prefix (db_steps (ch_db c)) (db_steps (ch_db c')) \<and>
    prefix (map trade_terms (db_trades (ch_db c))) (map trade_terms (db_trades (ch_db c'))) \<and>
    prefix (map leg_terms (db_novated (ch_db c))) (map leg_terms (db_novated (ch_db c'))) \<and>
    prefix (map instruction_terms (db_instructions (ch_db c)))
      (map instruction_terms (db_instructions (ch_db c')))"
proof -
  from assms have "history_grows (ch_db c) (ch_db c')"
  proof induction
    case (step c' c'')
    then show ?case using service_step_keeps [OF step.hyps(2)] hg.trans
      by (auto simp: keeps_committed_def keeps_books_def)
  qed simp
  then show ?thesis by (simp add: history_grows_def grows_def)
qed

theorem history_is_append_only_witness:
  "prefix (db_entries (empty_db migrated_schema)) (db_entries (state_after seed_main (empty_db migrated_schema)))"
  using history_is_append_only [OF r_into_rtranclp [of "service_step example_environment", OF seeding_empty]]
  by (simp add: empty_house_def)


definition example_polls :: "polled list" where
  "example_polls =
     [Polled \<lparr>rm_topic = ''trades.submitted'', rm_key = None, rm_value = Json (PObj example_trade)\<rparr>,
      NoMessage,
      Polled \<lparr>rm_topic = ''trades.submitted'', rm_key = None, rm_value = Garbled PNone\<rparr>]"


text \<open>The same for the triggers of the netting engine.\<close>

lemma netting_stream_accounted:
  assumes "casts_objects jsonb" "ledger_committed d"
    and "consumer_poll_loop jsonb ''netting-engine'' (on_object (handle_netting_trigger now)) polls (d, offsets) =
      (d', offsets')"
  shows "offsets' = offsets @ [m. Polled m \<leftarrow> polls] \<and> ledger_committed d' \<and> evolves d d' \<and>
    (\<forall>m event. Polled m \<in> set polls \<longrightarrow> rm_value m = Json (PObj event) \<longrightarrow>
      accounted (handle_netting_trigger now) m d d')"
  by (rule netting_handler.poll_loop_messages [OF assms])

subsection \<open>From the gateway to the book\<close>

lemma can_novate_frame:
  "can_novate v tid (d\<lparr>db_next_uuid := n\<rparr>) np = can_novate v tid d np"
  "can_novate v tid (d\<lparr>db_processed := p\<rparr>) np = can_novate v tid d np"
  by (simp_all add: can_novate_def active_member_def active_instrument_def
      trade_has_status_def account_is_def find_account_def)

lemma set_status_has:
  assumes "\<exists>t \<in> set (db_trades d). t_id t = tid" "db_trades d' = set_trade_status tid st (db_trades d)"
  shows "trade_has_status tid st d'"
proof -
  obtain t where "fetchone (\<lambda>r. t_id r = tid) (db_trades d) = Some t"
    using fetchone_ex [of "\<lambda>r. t_id r = tid" "db_trades d"] assms(1) by blast
  then show ?thesis
    unfolding trade_has_status_def assms(2) set_trade_status_def fetchone_set_status by simp
qed

definition new_legs :: "uuid \<Rightarrow> novation_plan \<Rightarrow> db \<Rightarrow> db \<Rightarrow> bool" where
  "new_legs tid np d d' \<longleftrightarrow> (\<exists>b s. db_novated d' = db_novated d @
     [plan_leg np tid (db_now d) b ''BUY'' (np_buyer np), plan_leg np tid (db_now d) s ''SELL'' (np_seller np)])"

lemma trade_message_decides:
  assumes "pget_id v ''trade_id'' = Some tid" "''rejected'' \<in> set (chk_trade_status (db_schema d))"
    and "ledger_committed d" "pget_id v ''event_id'' = Some e" "\<not> processed ''trade-ingestion'' e d"
    and "\<exists>t \<in> set (db_trades d). t_id t = tid"
  shows "\<exists>d'. handle_trade_message v d = Inr ((), d') \<and> ledger_committed d' \<and>
    (if \<exists>np. can_novate v tid d np
     then trade_has_status tid ''novated'' d' \<and> (\<exists>np. can_novate v tid d np \<and> new_legs tid np d d')
     else trade_has_status tid ''rejected'' d' \<and> db_novated d' = db_novated d)"
proof -
  let ?row = "\<lparr>pe_service_name = ''trade-ingestion'', pe_event_id = e, pe_reference_id = None\<rparr>"
  let ?e = "d\<lparr>db_next_uuid := Suc (db_next_uuid d), db_processed := db_processed d @ [?row]\<rparr>"
  obtain tr where tr: "from_kafka_payload v d = Inr (tr, d\<lparr>db_next_uuid := Suc (db_next_uuid d)\<rparr>)"
    by (simp add: from_kafka_payload_def fresh_uuid_def run_simps)
  obtain d' where d': "handle_trade_message v d = Inr ((), d')" "ledger_committed d'"
    using trade_message_run [OF assms(1-3)] by blast
  have mark: "process_if_new ''trade-ingestion'' e (d\<lparr>db_next_uuid := Suc (db_next_uuid d)\<rparr>) = Inr (True, ?e)"
    using assms(5) by (simp add: process_if_new_eq processed_def)
  have "handle_trade_message v d = bind_tx (process_trade v (Some tr)) (\<lambda>_. commit) ?e"
    unfolding handle_trade_message_def bind_tx_step [where m = "from_kafka_payload v", OF tr]
    by (simp add: handle_once_def assms(4) bind_tx_step [where m = "process_if_new _ _", OF mark])
  with d'(1) have run: "bind_tx (process_trade v (Some tr)) (\<lambda>_. commit) ?e = Inr ((), d')" by simp
  obtain c where c: "process_trade v (Some tr) ?e = Inr ((), c)" "d' = c\<lparr>db_deferred := []\<rparr>"
    using run by (auto simp: bind_tx_Inr commit_Inr)
  from c(1) show ?thesis
  proof (cases rule: process_trade_Inr)
    case (1 tid' np)
    then have np: "can_novate v tid d np" and c': "c = novated_db tid tr np ?e"
      using assms(1) by (simp_all add: can_novate_frame)
    have "new_legs tid np d d'"
      unfolding c(2) c' by (auto simp: new_legs_def novated_db_def Let_def)
    moreover have "trade_has_status tid ''novated'' d'"
      unfolding c(2) c' by (rule set_status_has [OF assms(6)]) (simp add: novated_db_def Let_def)
    ultimately show ?thesis using d' np by auto
  next
    case (2 tid' reason)
    then have no: "\<nexists>np. can_novate v tid d np" and c': "c = rejected_db tid reason tr ?e"
      using assms(1) by (simp_all add: can_novate_frame)
    have "db_novated d' = db_novated d" unfolding c(2) c' by (simp add: rejected_db_def)
    moreover have "trade_has_status tid ''rejected'' d'"
      unfolding c(2) c' by (rule set_status_has [OF assms(6)]) (simp add: rejected_db_def)
    ultimately show ?thesis using d' no by auto
  qed
qed
text \<open>The message a published row is delivered as.\<close>

definition delivered :: "string option \<Rightarrow> kafka_message \<Rightarrow> polled" where
  "delivered key m = Polled \<lparr>rm_topic = km_topic m, rm_key = key, rm_value = Json (PObj (km_value m))\<rparr>"

lemma submitted_payload:
  fixes row tr u now
  defines "v \<equiv> ob_payload (submitted_event row tr u now)"
  shows "pget_id v ''trade_id'' = Some (t_id row)" "pget_id v ''event_id'' = Some u"
    "can_novate v tid d np \<Longrightarrow> np_buyer np = t_buyer_member_id row \<and> np_seller np = t_seller_member_id row \<and>
       np_instrument np = t_instrument_id row \<and> np_quantity np = t_quantity row \<and> np_price np = t_price row"
  unfolding v_def submitted_event_def
  by (auto simp: pget_id_def pget_dec_def outbox_payload_get trade_event_payload_def can_novate_def)
    (simp_all add: pget_def)

text \<open>C2. A trade the gateway has accepted is decided when its message arrives: whatever the services
  did in between, delivering the event of the submission to the trade ingestion leaves a
  committed ledger and the trade either novated, with exactly two new open legs that carry the
  stored terms and are the buyer's and the seller's, or rejected, with no leg.\<close>

theorem accepted_trade_is_decided:
  assumes "may keys h ''trade.submit''" "idempotency_key h = return_tx key" "acceptable rq d"
    and "key_free key d" "ledger_committed d"
    and "submit_trade keys h rq d = Inr (row, d1)" "event = last (db_outbox d1)"
    and "evolves d1 d2" "ledger_committed d2" "''rejected'' \<in> set (chk_trade_status (db_schema d))"
    and "\<not> processed ''trade-ingestion'' (the (pget_id (ob_payload event) ''event_id'')) d2"
    and "poll_step jsonb ''trade-ingestion'' (on_object handle_trade_message) (d2, offs)
      (delivered k (message_of event)) = (d3, offs')"
  shows "ledger_committed d3 \<and>
    (trade_has_status (t_id row) ''novated'' d3 \<and>
       map (\<lambda>l. (n_original_trade_id l, n_member_id l, n_side l, n_quantity l, n_price l, n_status l))
         (drop (length (db_novated d2)) (db_novated d3)) =
       [(t_id row, rq_buyer_member_id rq, ''BUY'', num_round (rq_quantity rq), num_round (rq_price rq), ''open''),
        (t_id row, rq_seller_member_id rq, ''SELL'', num_round (rq_quantity rq), num_round (rq_price rq), ''open'')]
     \<or> trade_has_status (t_id row) ''rejected'' d3 \<and> db_novated d3 = db_novated d2)"
proof -
  have "db_deferred d = []" using assms(5) by (simp add: ledger_committed_def)
  from submit_trade_accepts [OF assms(1-4) this] assms(6)
  have row: "row = submitted_row rq d" and d1: "d1 = submitted_db rq (request_trace h d) key d" by auto
  have event: "event = submitted_event row (request_trace h d) (db_next_uuid d + 2) (db_now d)"
    using assms(7) row d1 by (simp add: submitted_db_def)
  let ?v = "ob_payload event"
  note payload = submitted_payload [of row "request_trace h d" "db_next_uuid d + 2" "db_now d", folded event]
  have "trade_terms row \<in> set (map trade_terms (db_trades d1))"
    using row d1 by (simp add: submitted_db_def)
  then have "trade_terms row \<in> set (map trade_terms (db_trades d2))"
    using assms(8) set_mono_prefix by (fastforce simp: evolves_def grows_def)
  then have stored: "\<exists>t \<in> set (db_trades d2). t_id t = t_id row"
    unfolding trade_terms_def by (auto dest!: arg_cong [of _ _ t_id])
  have vocab: "''rejected'' \<in> set (chk_trade_status (db_schema d2))"
    using assms(8,10) d1 by (simp add: evolves_def submitted_db_def)
  from trade_message_decides [OF payload(1) vocab assms(9) payload(2) _ stored] assms(11) payload(2)
  obtain d' where d': "handle_trade_message ?v d2 = Inr ((), d')" "ledger_committed d'"
    "if \<exists>np. can_novate ?v (t_id row) d2 np
     then trade_has_status (t_id row) ''novated'' d' \<and>
       (\<exists>np. can_novate ?v (t_id row) d2 np \<and> new_legs (t_id row) np d2 d')
     else trade_has_status (t_id row) ''rejected'' d' \<and> db_novated d' = db_novated d2" by auto
  have d3: "d3 = d'"
    using assms(12) d'(1) by (simp add: poll_step_def delivered_def on_object_def message_of_def)
  show ?thesis
  proof (cases "\<exists>np. can_novate ?v (t_id row) d2 np")
    case True
    with d'(3) obtain np where np: "trade_has_status (t_id row) ''novated'' d'"
      "can_novate ?v (t_id row) d2 np" "new_legs (t_id row) np d2 d'" by auto
    with payload(3) [OF np(2)] d'(2) show ?thesis
      unfolding d3 by (auto simp: new_legs_def plan_leg_def row submitted_row_def num_round_idem)
  qed (use d' d3 in auto)
qed

theorem accepted_trade_is_decided_witness:
  "\<exists>row d1 d3 offs.
     submit_trade example_keys (example_headers ''alpha'' None) example_request example_db = Inr (row, d1) \<and>
     poll_step (\<lambda>_. None) ''trade-ingestion'' (on_object handle_trade_message) (d1, [])
       (delivered None (message_of (last (db_outbox d1)))) = (d3, offs) \<and> ledger_committed d3 \<and>
     (trade_has_status (t_id row) ''novated'' d3 \<or> trade_has_status (t_id row) ''rejected'' d3)"
proof -
  let ?h = "example_headers ''alpha'' None"
  let ?row = "submitted_row example_request example_db"
  let ?d1 = "submitted_db example_request (request_trace ?h example_db) None example_db"
  have key: "idempotency_key ?h = return_tx None"
    by (simp add: idempotency_key_def example_headers_def pget_def)
  have free: "key_free None example_db" by (simp add: key_free_def)
  have "db_deferred example_db = []" using example_committed by (simp add: ledger_committed_def)
  note submit = submit_trade_accepts [OF example_submit(1) key example_submit(3) free this]
  have com: "ledger_committed ?d1"
    using example_committed by (simp add: ledger_committed_def submitted_db_def)
  have vocab: "''rejected'' \<in> set (chk_trade_status (db_schema example_db))"
    by (simp add: example_defs schema_defs)
  have new: "\<not> processed ''trade-ingestion'' e ?d1" for e
    by (simp add: processed_def submitted_db_def example_defs)
  obtain d3 offs where poll: "poll_step (\<lambda>_. None) ''trade-ingestion'' (on_object handle_trade_message) (?d1, [])
      (delivered None (message_of (last (db_outbox ?d1)))) = (d3, offs)" by fastforce
  from accepted_trade_is_decided [OF example_submit(1) key example_submit(3) free example_committed
      submit HOL.refl ev.refl com vocab new poll] submit poll
  show ?thesis by blast
qed

subsection \<open>Instructions from the cycle to their settlement\<close>

lemma list_all2_right:
  assumes "list_all2 P xs ys" "y \<in> set ys"
  obtains x where "x \<in> set xs" "P x y"
  using assms by (metis in_set_conv_nth list_all2_conv_all_nth)

text \<open>A row that is still pending has the terms it was written with.\<close>

lemma pending_terms:
  assumes "q \<in> set (db_instructions d1)" "evolves d1 d2" "ids_wf d2"
    "pending_instruction (si_id q) d2 = Some (r, contract)"
  shows "instruction_terms r = instruction_terms q"
proof -
  have "instruction_terms q \<in> set (map instruction_terms (db_instructions d2))"
    using assms(1,2) set_mono_prefix by (fastforce simp: evolves_def grows_def)
  then obtain p where p: "p \<in> set (db_instructions d2)" "instruction_terms p = instruction_terms q" by auto
  then have "si_id p = si_id r" "r \<in> set (db_instructions d2)"
    using pending_instruction_Some [OF assms(4)] by (simp_all add: instruction_terms_def)
  moreover have "distinct (map si_id (db_instructions d2))"
    using assms(3) by (simp add: ids_wf_def Let_def fresh_ids_def)
  ultimately have "p = r" using p(1) by (simp add: distinct_map inj_on_def)
  with p(2) show ?thesis by simp
qed

lemma confirmed_not_pending:
  "\<forall>p \<in> set (db_instructions d). si_id p = i \<longrightarrow> si_status p = ''confirmed'' \<Longrightarrow>
   pending_instruction i d = None"
  by (intro pending_instruction_None) (simp add: not_pending_def)

definition house_example :: db where
  "house_example = netting_example\<lparr>db_accounts :=
     [\<lparr>a_id = 10, a_member_id = 0, a_account_type = ''SETTLEMENT'', a_currency = ''USD'', a_pool = ''AVAILABLE''\<rparr>,
      \<lparr>a_id = 11, a_member_id = 1, a_account_type = ''SETTLEMENT'', a_currency = ''USD'', a_pool = ''AVAILABLE''\<rparr>]\<rparr>"

lemma house_facts:
  "netting_vocab MANUAL (db_schema house_example)" "\<exists>ccp. find_ccp house_example = Some ccp \<and> m_id ccp = 0"
  "ids_wf house_example" "ledger_wf house_example" "settle_vocab (db_schema house_example)"
  "cycle_positions 5 house_example = cycle_positions 5 netting_example"
  "obligation_ok house_example = obligation_ok netting_example"
  "db_entries house_example = []" "db_instructions house_example = []"
  "db_instruments house_example = db_instruments example_db"
proof -
  show "netting_vocab MANUAL (db_schema house_example)" using example_netting_conditions(1)
    by (simp add: house_example_def)
  show "\<exists>ccp. find_ccp house_example = Some ccp \<and> m_id ccp = 0" using example_netting_conditions(2)
    by (simp add: house_example_def find_ccp_def)
  show "ids_wf house_example"
    by (simp add: house_example_def netting_example_def example_defs ids_wf_def fresh_ids_def plan_leg_def)
  show "ledger_wf house_example"
    by (simp add: house_example_def netting_example_def example_defs ledger_wf_def journal_balanced_def
        journal_entries_of_def)
  show "settle_vocab (db_schema house_example)" using migrated_settle_vocab
    by (simp add: house_example_def netting_example_def example_defs)
  show "cycle_positions 5 house_example = cycle_positions 5 netting_example"
    using cycle_positions_cong [of house_example netting_example 5]
    by (simp add: cycle_positions_def house_example_def)
  show "obligation_ok house_example = obligation_ok netting_example"
    by (simp add: fun_eq_iff obligation_ok_def house_example_def has_member_def has_instrument_def)
qed (simp_all add: house_example_def netting_example_def example_defs)

lemma house_cycle:
  obtains res d1 d2 q where "run_netting_cycle MANUAL 5 (Some example_trace) house_example = Inr (res, d1)"
    "commit d1 = Inr ((), d2)" "q \<in> set (db_instructions d1)" "si_from_member_id q = 1"
    "si_to_member_id q = 0" "si_settlement_type q = ''cash''" "si_amount q = 1200"
    "evolves d1 d2" "ids_wf d2" "ledger_committed d2" "settle_vocab (db_schema d2)"
    "pending_instruction (si_id q) d2 = Some (q, None)" "db_accounts d2 = db_accounts house_example"
    "\<forall>a. acct_balance d2 a = 0"
proof -
  obtain ccp where ccp: "find_ccp house_example = Some ccp" "m_id ccp = 0" using house_facts(2) by blast
  have "\<exists>res d1. run_netting_cycle MANUAL 5 (Some example_trace) house_example = Inr (res, d1)"
    by (rule run_netting_cycle_run [OF house_facts(1) ccp(1)])
      (use example_netting_conditions(3) in \<open>simp add: house_facts\<close>)
  then obtain res d1 where run:
    "run_netting_cycle MANUAL 5 (Some example_trace) house_example = Inr (res, d1)" by blast
  from run obtain cy n where rows: "db_instructions d1 = instruction_rows cy 0 n
      (calculate_net_obligations (cycle_positions 5 netting_example))"
    and same: "db_entries d1 = []" "db_instruments d1 = db_instruments example_db"
    by (rule run_netting_cycle_Inr) (use ccp house_facts in \<open>auto simp: house_facts\<close>)
  have ev1: "evolves house_example d1" using run by (rule acrossD [OF ev_run_netting_cycle])
  have "journal_balanced d1 j" for j by (simp add: journal_balanced_def journal_entries_of_def same)
  then have commit: "commit d1 = Inr ((), d1\<lparr>db_deferred := []\<rparr>)" (is "_ = Inr ((), ?d2)")
    by (simp add: commit_Inr)
  have ev2: "evolves d1 ?d2" using commit by (rule acrossD [OF ev_commit])
  have wf: "ids_wf d1" "ledger_wf d1" "db_schema d1 = db_schema house_example"
    "db_accounts d1 = db_accounts house_example"
    using ev1 house_facts(3,4) by (simp_all add: evolves_def)
  let ?q = "instruction_row_of cy 0 (n + 1) \<lparr>ob_member_id = 1, ob_instrument_id = 3, ob_net_quantity = 10,
    ob_net_amount = 1200, ob_settlement_amount = 1200, ob_settlement_type = ''cash''\<rparr>"
  have pending: "pending_instruction (si_id ?q) ?d2 = Some (?q, None)"
    by (simp add: pending_instruction_def rows example_obligations same example_db_def
        instruction_row_of_def)
  have mine: "?q \<in> set (db_instructions d1)" by (simp add: rows example_obligations)
  have terms: "si_from_member_id ?q = 1" "si_to_member_id ?q = 0" "si_settlement_type ?q = ''cash''"
    "si_amount ?q = 1200"
    by (simp_all add: instruction_row_of_def instruction_parties_def num_round_numeral)
  have d2: "ids_wf ?d2" "ledger_committed ?d2" "settle_vocab (db_schema ?d2)"
    "db_accounts ?d2 = db_accounts house_example"
    using wf ev2 commit_balances [OF wf(2) commit] house_facts(5) by (simp_all add: evolves_def)
  have "\<forall>a. acct_balance ?d2 a = 0" by (simp add: acct_balance_def same)
  then show thesis by (rule that [OF run commit mine terms ev2 d2(1-3) pending d2(4)])
qed



end
