(* ===== verification/Routing.thy ===== *)
theory Routing
  imports System
begin

section \<open>Who hears of what\<close>

text \<open>
  The topics each service subscribes to (\<open>main.py\<close> or \<open>consumer.py\<close> of the services) and the
  clearing house in which the consumers receive only what the services published: \<open>live_step\<close> is
  \<open>service_step\<close> with the messages taken from the outbox, in any order and any number of times.
  It is a restriction of the open system, so everything shown of \<open>reachable\<close> states holds here;
  what follows in addition is what the wiring never lets happen.
\<close>

subsection \<open>The subscriptions\<close>

definition trade_ingestion_topics :: "string list" where
  "trade_ingestion_topics = [''trades.submitted'']"

definition netting_topics :: "string list" where
  "netting_topics = [''netting.cycle.triggered'']"

definition settlement_topics :: "string list" where
  "settlement_topics = [''settlement.instructions.created'']"

definition liquidation_topics :: "string list" where
  "liquidation_topics = [''margin.call.breached'', ''settlement.failed'']"

definition margin_topics :: "string list" where
  "margin_topics = [''trades.novated'', ''prices.updated'']"

definition collateral_topics :: "string list" where
  "collateral_topics = [''collateral.deposit.requested'', ''margin.call.issued'']"

definition compliance_topics :: "string list" where
  "compliance_topics = [''trades.novated'', ''margin.requirement.updated'', ''default.declared'']"

lemmas topic_defs = trade_ingestion_topics_def netting_topics_def settlement_topics_def
  liquidation_topics_def margin_topics_def collateral_topics_def compliance_topics_def

subsection \<open>Events in the outbox\<close>

text \<open>The event types the services write on their own account, with their topics.\<close>

definition EVENTS :: "(string \<times> string) list" where
  "EVENTS =
     [(''trade.submitted'', ''trades.submitted''), (''trade.novated'', ''trades.novated''),
      (''trade.rejected'', ''trades.rejected''), (''netting.cycle.completed'', ''netting.cycle.completed''),
      (''settlement.instruction.created'', ''settlement.instructions.created''),
      (''settlement.completed'', ''settlement.completed''), (''settlement.failed'', ''settlement.failed''),
      (''price.updated'', ''prices.updated''), (''margin.call.issued'', ''margin.call.issued'')]"

definition routed :: "outbox_row \<Rightarrow> bool" where
  "routed r \<longleftrightarrow> (ob_event_type r, ob_topic r) \<in> set EVENTS \<and> pget (ob_payload r) ''event_type'' = None \<and>
     pget_id (ob_payload r) ''event_id'' \<noteq> None"

text \<open>What the live system keeps: such events only, and no default.\<close>

definition undisturbed :: "db \<Rightarrow> bool" where
  "undisturbed d \<longleftrightarrow> (\<forall>r \<in> set (db_outbox d). routed r) \<and> db_defaults d = [] \<and> db_steps d = []"

abbreviation keeps_routing :: "'a ccp \<Rightarrow> bool" where
  "keeps_routing m \<equiv> across (\<lambda>d d'. undisturbed d \<longrightarrow> undisturbed d') m"

interpretation rt: tx_relation "\<lambda>d d'. undisturbed d \<longrightarrow> undisturbed d'"
  by (rule keeps_relation)

named_theorems routing "operations that leave only routed events and no default"

lemma undisturbed_same:
  "db_outbox d' = db_outbox d \<Longrightarrow> db_defaults d' = db_defaults d \<Longrightarrow> db_steps d' = db_steps d \<Longrightarrow>
   undisturbed d \<Longrightarrow> undisturbed d'"
  by (simp add: undisturbed_def)

lemma rt_statements [routing]:
  "keeps_routing fresh_uuid" "keeps_routing commit"
  "keeps_routing (insert_journal jt rt rid js)" "keeps_routing (insert_entry jid a dr cr)"
  "keeps_routing (insert_trade ext i b sl q x st)" "keeps_routing (update_trade_status t st)"
  "keeps_routing (insert_novated t m i sd q x)" "keeps_routing (update_novated_status p' st)"
  "keeps_routing (upsert_requirement m i mt x)" "keeps_routing (add_posted_amount m mt x)"
  "keeps_routing (insert_call m rq x dl)" "keeps_routing (insert_cycle ct st co)"
  "keeps_routing (update_cycle_status cy st)" "keeps_routing (insert_obligation cy m i q x sa)"
  "keeps_routing (insert_instruction cy f t i q x ty st')" "keeps_routing (update_instruction_status s st)"
  "keeps_routing (update_instruction_tx_hash s h)" "keeps_routing (update_instruction_block s bn c)"
  "keeps_routing (insert_transition tr)" "keeps_routing (insert_price i x src)"
  "keeps_routing (insert_processed sv e rf)"
  by (rule acrossI; auto simp: undisturbed_def commit_Inr tx_simps store_defs Let_def split: if_splits)+

lemma rt_insert_outbox_event [routing]:
  assumes "(et, tp) \<in> set EVENTS" "pget p ''event_type'' = None"
  shows "keeps_routing (insert_outbox_event at' aid et tp p tid)"
  using assms by (intro acrossI)
    (auto simp: insert_outbox_event_eq undisturbed_def routed_def outbox_payload_get pget_id_def)

lemmas rt_basics [routing] = rt.across_rules

lemmas event_simps = EVENTS_def pget_def

subsection \<open>The operations of the services\<close>

lemma rt_shared [routing]:
  "keeps_routing (from_request h)" "keeps_routing (from_kafka_payload p)" "keeps_routing (new_system s)"
  "keeps_routing (service_transition s et e f t' r t)" "keeps_routing (process_if_new s e)"
  "keeps_routing (post_pair jid a b x)"
  unfolding from_request_def from_kafka_payload_def new_system_def service_transition_def
    process_if_new_def post_pair_def
  by (auto intro!: routing)

lemma rt_handle_once [routing]: "keeps_routing m \<Longrightarrow> keeps_routing (handle_once s e m)"
  unfolding handle_once_def by (cases e) (auto intro!: routing)

lemma rt_with_connection [routing]: "keeps_routing m \<Longrightarrow> keeps_routing (with_connection m)"
  unfolding with_connection_def by (auto intro!: routing)

lemma rt_state_after: "keeps_routing m \<Longrightarrow> undisturbed d \<Longrightarrow> undisturbed (state_after m d)"
  by (auto simp: state_after_def across_def split: sum.split)

lemma rt_need [routing]: "keeps_routing (need_id p k)" "keeps_routing (need_dec p k)"
  unfolding need_id_def need_dec_def by (auto intro!: routing split: option.split pval.split)

lemma rt_novation_parts [routing]:
  "keeps_routing (verify_member_active m role)" "keeps_routing (verify_instrument_active i)"
  "keeps_routing (create_novated_trade tid p side m)" "keeps_routing (fetch_margin_rate i)"
  "keeps_routing (find_account_or_fail m ty pool)" "keeps_routing (verify_trade_submitted tid)"
  unfolding verify_member_active_def verify_instrument_active_def create_novated_trade_def
    fetch_margin_rate_def find_account_or_fail_def verify_trade_submitted_def
  by (auto intro!: routing split: option.split)

lemma rt_handle_trade_message: "keeps_routing (handle_trade_message v)"
  unfolding handle_trade_message_def process_trade_def validate_trade_def novate_trade_def
    reject_trade_def trade_transition_def lock_margin_def Let_def
  by (intro routing) (simp_all add: event_simps)

lemma rt_netting_parts [routing]:
  "keeps_routing get_ccp_member_id" "keeps_routing (mark_trades_closed c)"
  "keeps_routing (record_state_transition e t f s tr)" "keeps_routing (parse_cut_off now v)"
  "keeps_routing (insert_obligation_and_instruction cy ccp obl)"
  unfolding get_ccp_member_id_def mark_trades_closed_def record_state_transition_def
    parse_cut_off_def insert_obligation_and_instruction_def
  by (auto intro!: routing split: option.split pval.split list.split)

lemma rt_run_netting_cycle [routing]: "keeps_routing (run_netting_cycle ct co tr)"
  unfolding run_netting_cycle_def insert_obligations_and_instructions_def Let_def
  by (intro routing) (simp_all add: event_simps)

lemma rt_trigger_netting: "keeps_routing (trigger_netting now co ct)"
  unfolding trigger_netting_def Let_def by (auto intro!: routing split: option.split)

lemma rt_handle_netting_trigger: "keeps_routing (handle_netting_trigger now v)"
  unfolding handle_netting_trigger_def Let_def by (auto intro!: routing)

lemma rt_margin_parts [routing]:
  "keeps_routing (update_margin_requirement m i mt x)" "keeps_routing (process_variation_margin m i x)"
  "keeps_routing (need_price v)"
  unfolding update_margin_requirement_def process_variation_margin_def need_price_def Let_def
  by (auto intro!: routing split: option.split)

lemma rt_issue_margin_call [routing]: "keeps_routing (issue_margin_call now mins m i x tr)"
  unfolding issue_margin_call_def Let_def
  by (intro routing) (simp_all add: event_simps call_payload_def)

lemma rt_consume_margin_event: "keeps_routing (consume_margin_event pgdiv now mins event)"
  unfolding consume_margin_event_def recalculate_margins_def recalculate_position_def Let_def
  by (intro routing)

lemma rt_gateway [routing]:
  "keeps_routing (trace_middleware h)" "keeps_routing (require_permission keys p h)"
  "keeps_routing (idempotency_key h)" "keeps_routing (mark_idempotent k t)"
  "keeps_routing (insert_submitted_trade rq)"
  unfolding trace_middleware_def require_permission_def idempotency_key_def mark_idempotent_def
    insert_submitted_trade_def
  by (auto intro!: routing split: option.split sum.split pval.split)

lemma rt_insert_trade_outbox_event [routing]: "keeps_routing (insert_trade_outbox_event row tr)"
  unfolding insert_trade_outbox_event_def
  by (intro routing) (simp_all add: event_simps trade_event_payload_def)

lemma rt_submit_trade: "keeps_routing (submit_trade keys h rq)"
  unfolding submit_trade_def submit_new_trade_def by (auto intro!: routing split: option.split)

lemma rt_generate_price [routing]: "keeps_routing (generate_price f l p acc)"
  unfolding generate_price_def insert_price_feed_def Let_def
  by (auto intro!: routing split: prod.split)

lemma rt_refresh [routing]: "keeps_routing (refresh_latest_prices owner)"
  by (rule acrossI) (auto simp: refresh_latest_prices_def undisturbed_def tx_simps split: if_splits)

lemma rt_generate_prices [routing]: "keeps_routing (generate_prices owner factors)"
  unfolding generate_prices_def
  by (intro routing) (simp_all add: event_simps price_payload_def)

lemma rt_seed_parts [routing]:
  "keeps_routing (upsert_member lei name x upd)" "keeps_routing (insert_account_if_new m ty pool)"
  "keeps_routing (insert_instrument_if_new i)" "keeps_routing insert_seed_journal"
  by (rule acrossI; auto simp: undisturbed_def upsert_member_def insert_account_if_new_def
    insert_instrument_if_new_def insert_seed_journal_def margin_rate_def tx_simps store_defs Let_def
    split: if_splits option.splits)+

lemma rt_seed_main: "keeps_routing seed_main"
  unfolding seed_main_def seed_ccp_house_account_def seed_members_def seed_member_accounts_def
    seed_instruments_def seed_accounts_def seed_default_fund_def seed_contribution_def Let_def
  by (intro routing)

text \<open>The settlement engine and the publisher, which commit in the middle of their work.\<close>

lemma rt_settlement_parts:
  "et = ''settlement.completed'' \<or> et = ''settlement.failed'' \<Longrightarrow> keeps_routing (emit_settlement_event i et a tr)"
  "keeps_routing (advance_status i f t rs tr)" "keeps_routing (fail_instruction i f rs' tr)"
  "keeps_routing (settlement_journal i fa ta x)"
proof -
  show emit: "keeps_routing (emit_settlement_event i et a tr)"
    if "et = ''settlement.completed'' \<or> et = ''settlement.failed''" for i et a tr
    unfolding emit_settlement_event_def using that by (intro routing) (auto simp: event_simps)
  show "keeps_routing (advance_status i f t rs tr)" "keeps_routing (fail_instruction i f rs' tr)"
    "keeps_routing (settlement_journal i fa ta x)"
    unfolding advance_status_def fail_instruction_def settlement_journal_def validate_transition_def
      record_transition_def
    by (intro routing emit; simp)+
qed

interpretation settles_routed: settlement_invariant undisturbed undisturbed
proof unfold_locales
  show "undisturbed d'" if "undisturbed d" "commit d = Inr ((), d')" for d d'
    using acrossD [OF rt_statements(2) that(2)] that(1) by blast
qed (simp_all add: rt_settlement_parts routing)

lemma rt_mark_published: "keeps_routing (mark_published ids)"
  by (rule acrossI) (auto simp: mark_published_def undisturbed_def routed_def tx_simps
    ball_update_where split: if_splits)

lemma publisher_turn_routed:
  assumes "publisher_turn locked n kf (d, k) = (d', k')" "undisturbed d"
  shows "undisturbed d'"
proof -
  have "keeps_act undisturbed undisturbed (process_batch locked n kf)"
    unfolding process_batch_def publish_batch_def publish_event_def producer_produce_def producer_flush_def
    by (intro settles_routed.keeps_rules settles_routed.keeps_sql routing rt_mark_published)
  from settles_routed.keeps_closed [OF this assms(2), of k] show ?thesis
    using assms(1) by (simp add: publisher_turn_def)
qed

lemma poll_step_routed:
  assumes "\<And>event. keeps_routing (handler event)" "undisturbed d"
    "poll_step jsonb g (on_object handler) (d, offs) p = (d', offs')"
  shows "undisturbed d'"
proof -
  have "keeps_routing (insert_dead_letter jsonb g m err)" for m err
    by (rule acrossI) (auto simp: insert_dead_letter_def undisturbed_def fresh_uuid_def tx_simps
      split: option.splits)
  then have dlq: "undisturbed (send_to_dlq jsonb g m err d)" for m err
    unfolding send_to_dlq_def by (intro rt_state_after rt_with_connection assms(2))
  have ok: "undisturbed e" if "handler event d = Inr ((), e)" for event e
    using acrossD [OF assms(1) that] assms(2) by blast
  show ?thesis
    using assms(2,3) dlq ok by (auto simp: poll_step_def on_object_def run_simps
      split: polled.splits message_value.splits pval.splits sum.splits)
qed

subsection \<open>Events without a type are not acted upon\<close>

text \<open>
  The consumers of the collateral manager, the liquidation engine and the compliance monitor
  dispatch on \<open>event["event_type"]\<close>, which the outbox does not put into a payload: such a message
  is marked as processed and forgotten.
\<close>

definition forget_marks :: "db \<Rightarrow> db" where
  "forget_marks d = d\<lparr>db_next_uuid := 0, db_processed := []\<rparr>"

definition only_marked :: "db \<Rightarrow> db \<Rightarrow> bool" where
  "only_marked d d' \<longleftrightarrow> forget_marks d' = forget_marks d"

lemma only_marked_refl [simp]: "only_marked d d"
  by (simp add: only_marked_def)

lemma handle_once_skip:
  assumes "db_deferred d = []"
  shows "\<exists>d'. handle_once s e (return_tx ()) d = Inr ((), d') \<and> only_marked d d'"
  using assms
  by (cases e) (auto simp: handle_once_def process_if_new_eq commit_idle bind_tx_def return_tx_def
    only_marked_def forget_marks_def)

lemma mark_event_only:
  assumes "db_deferred d = []"
  shows "\<exists>new d'. mark_event e d = Inr (new, d') \<and> only_marked d d'"
  using assms
  by (auto simp: mark_event_def process_if_new_eq commit_idle bind_tx_def return_tx_def
    only_marked_def forget_marks_def split: option.split)

lemma untyped_ignored:
  assumes "pget event ''event_type'' = None" "ledger_committed d"
  shows "only_marked d (state_after (consume_default_event event) d)"
    "only_marked d (state_after (consume_collateral_event event) d)"
    "fst (consume_compliance_event pgdiv w event d) = Inr []"
    "only_marked d (snd (consume_compliance_event pgdiv w event d))"
proof -
  have untyped: "pget_str event ''event_type'' = None" using assms(1) by (simp add: pget_str_def)
  have def: "db_deferred d = []" using assms(2) by (simp add: ledger_committed_def)
  let ?d = "d\<lparr>db_next_uuid := Suc (db_next_uuid d)\<rparr>"
  obtain tr where tr: "from_kafka_payload event d = Inr (tr, ?d)"
    by (simp add: from_kafka_payload_def fresh_uuid_def run_simps)
  from def have "db_deferred ?d = []" by simp
  from handle_once_skip [OF this, of "''liquidation-engine''" "pget_id event ''event_id''"]
  show "only_marked d (state_after (consume_default_event event) d)"
    by (auto simp: consume_default_event_def handle_default_event_def untyped tr bind_tx_def
      state_after_def only_marked_def forget_marks_def)
  from handle_once_skip [OF def, of "''collateral-manager''" "pget_id event ''event_id''"]
  show "only_marked d (state_after (consume_collateral_event event) d)"
    by (auto simp: consume_collateral_event_def handle_collateral_event_def untyped state_after_def)
  from mark_event_only [OF def, of event]
  show "fst (consume_compliance_event pgdiv w event d) = Inr []"
    "only_marked d (snd (consume_compliance_event pgdiv w event d))"
    by (auto simp: consume_compliance_event_def handle_event_def untyped closed_connection_def
      return_tx_def split: bool.split)
qed

subsection \<open>The live system\<close>

text \<open>A message the broker can deliver to a subscriber: the publisher has sent the row.\<close>

definition carried :: "string list \<Rightarrow> payload \<Rightarrow> db \<Rightarrow> bool" where
  "carried topics event d \<longleftrightarrow>
     (\<exists>r \<in> set (db_outbox d). ob_published_at r \<noteq> None \<and> ob_topic r \<in> set topics \<and> ob_payload r = event)"

inductive live_step ::
    "('k, 's) environment \<Rightarrow> ('k, 's) clearing_house \<Rightarrow> ('k, 's) clearing_house \<Rightarrow> bool"
  for en :: "('k, 's) environment" where
  live_submit:
    "live_step en c (c\<lparr>ch_db := state_after (submit_trade (en_api_keys en) headers rq) (ch_db c)\<rparr>)"
| live_trade:
    "carried trade_ingestion_topics event (ch_db c) \<Longrightarrow>
     poll_step (en_jsonb en) ''trade-ingestion'' (on_object handle_trade_message) (ch_db c, offs)
       (Polled \<lparr>rm_topic = tp, rm_key = key, rm_value = Json (PObj event)\<rparr>) = (d', offs') \<Longrightarrow>
     live_step en c (c\<lparr>ch_db := d'\<rparr>)"
| live_netting:
    "carried netting_topics event (ch_db c) \<Longrightarrow>
     poll_step (en_jsonb en) ''netting-engine'' (on_object (handle_netting_trigger now)) (ch_db c, offs)
       (Polled \<lparr>rm_topic = tp, rm_key = key, rm_value = Json (PObj event)\<rparr>) = (d', offs') \<Longrightarrow>
     live_step en c (c\<lparr>ch_db := d'\<rparr>)"
| live_netting_request: "live_step en c (c\<lparr>ch_db := state_after (trigger_netting now cut_off ct) (ch_db c)\<rparr>)"
| live_settlement:
    "carried settlement_topics event (ch_db c) \<Longrightarrow>
     consume_settlement (en_registry en) (en_sign en) event (ch_db c, ch_chain c) = (d', s') \<Longrightarrow>
     live_step en c (c\<lparr>ch_db := d', ch_chain := s'\<rparr>)"
| live_default:
    "carried liquidation_topics event (ch_db c) \<Longrightarrow>
     live_step en c (c\<lparr>ch_db := state_after (consume_default_event event) (ch_db c)\<rparr>)"
| live_margin:
    "carried margin_topics event (ch_db c) \<Longrightarrow>
     live_step en c (c\<lparr>ch_db := state_after (consume_margin_event (en_pgdiv en) now minutes event) (ch_db c)\<rparr>)"
| live_collateral:
    "carried collateral_topics event (ch_db c) \<Longrightarrow>
     live_step en c (c\<lparr>ch_db := state_after (consume_collateral_event event) (ch_db c)\<rparr>)"
| live_compliance:
    "carried compliance_topics event (ch_db c) \<Longrightarrow>
     consume_compliance_event (en_pgdiv en) writable event (ch_db c) = (r, d') \<Longrightarrow>
     live_step en c (c\<lparr>ch_db := d'\<rparr>)"
| live_price: "live_step en c (c\<lparr>ch_db := price_update_turn owner factors (ch_db c)\<rparr>)"
| live_publish:
    "publisher_turn locked n (en_client en) (ch_db c, ch_kafka c) = (d', k') \<Longrightarrow>
     live_step en c (c\<lparr>ch_db := d', ch_kafka := k'\<rparr>)"
| live_seeding: "live_step en c (c\<lparr>ch_db := state_after seed_main (ch_db c)\<rparr>)"
| live_clock: "db_now (ch_db c) \<le> t \<Longrightarrow> live_step en c (c\<lparr>ch_db := (ch_db c)\<lparr>db_now := t\<rparr>\<rparr>)"

inductive live :: "('k, 's) environment \<Rightarrow> ('k, 's) clearing_house \<Rightarrow> bool"
  for en :: "('k, 's) environment" where
  begins: "ch_db c = empty_db schema \<Longrightarrow> live en c"
| goes_on: "live en c \<Longrightarrow> live_step en c c' \<Longrightarrow> live en c'"

text \<open>The live system implements the open one.\<close>

lemma live_step_service: "live_step en c c' \<Longrightarrow> service_step en c c'"
  by (induction rule: live_step.induct) (blast intro: service_step.intros)+

lemma live_reachable: "live en c \<Longrightarrow> reachable en c"
  by (induction rule: live.induct) (blast intro: reachable.intros live_step_service)+

lemma live_step_undisturbed:
  assumes "live_step en c c'" "ledger_committed (ch_db c)" "undisturbed (ch_db c)"
  shows "undisturbed (ch_db c')"
proof -
  have untyped: "pget event ''event_type'' = None" if "carried topics event (ch_db c)" for topics event
    using that assms(3) by (auto simp: carried_def undisturbed_def routed_def)
  have marked: "undisturbed d'" if "only_marked (ch_db c) d'" for d'
  proof -
    from that have "db_outbox d' = db_outbox (ch_db c)" "db_defaults d' = db_defaults (ch_db c)"
      "db_steps d' = db_steps (ch_db c)"
      unfolding only_marked_def forget_marks_def
      by (metis db.select_convs db.surjective db.update_convs)+
    then show ?thesis using assms(3) by (simp add: undisturbed_def)
  qed
  from assms(1) show ?thesis
  proof cases
    case (live_trade event offs tp key d' offs')
    then show ?thesis using poll_step_routed [OF rt_handle_trade_message assms(3)] by simp
  next
    case (live_netting event now offs tp key d' offs')
    then show ?thesis using poll_step_routed [OF rt_handle_netting_trigger assms(3)] by simp
  next
    case (live_settlement event d' s')
    have "undisturbed (fst (consume_settlement (en_registry en) (en_sign en) event (ch_db c, ch_chain c)))"
      using assms(3) acrossD [OF rt_shared(2)]
      by (intro settles_routed.keeps_consume_settlement) blast+
    with live_settlement show ?thesis by simp
  next
    case (live_default event)
    then show ?thesis using marked untyped_ignored(1) [OF untyped assms(2)] by simp
  next
    case (live_collateral event)
    then show ?thesis using marked untyped_ignored(2) [OF untyped assms(2)] by simp
  next
    case (live_compliance event writable r d')
    then show ?thesis using marked untyped_ignored(4) [OF untyped assms(2)] by simp (metis snd_conv)
  next
    case (live_publish locked n d' k')
    then show ?thesis using publisher_turn_routed assms(3) by simp
  next
    case (live_clock t)
    with assms(3) show ?thesis by (simp add: undisturbed_def)
  qed (simp_all add: price_update_turn_def rt_state_after assms(3) rt_submit_trade rt_trigger_netting
      rt_consume_margin_event rt_with_connection rt_generate_prices rt_seed_main)
qed

lemma live_undisturbed: "live en c \<Longrightarrow> undisturbed (ch_db c)"
proof (induction rule: live.induct)
  case (begins c schema)
  then show ?case by (simp add: empty_db_def undisturbed_def)
next
  case (goes_on c c')
  then show ?case using live_step_undisturbed reachable_sound [OF live_reachable] by blast
qed

subsection \<open>What the wiring never lets happen\<close>

text \<open>Topics that have a subscriber and no publisher.\<close>

definition unfed_topics :: "string list" where
  "unfed_topics = filter (\<lambda>t. t \<notin> snd ` set EVENTS)
     (concat [trade_ingestion_topics, netting_topics, settlement_topics, liquidation_topics,
        margin_topics, collateral_topics, compliance_topics])"

lemma unfed_topics_eq:
  "unfed_topics = [''netting.cycle.triggered'', ''margin.call.breached'', ''collateral.deposit.requested'',
     ''margin.requirement.updated'', ''default.declared'']"
  by code_simp

text \<open>C6. In the clearing house as it is wired no default is ever declared: whatever members trade, however
  prices move and settlements fail, no service publishes a breached margin call, and a failed
  settlement, like an issued margin call, reaches its consumer without the \<open>event_type\<close> it
  dispatches on. So no waterfall runs, no margin call is answered, no alert raised; five
  subscribed topics stay empty. Every message does carry the event id that deduplication needs.\<close>

theorem no_default_is_declared:
  assumes "live en c"
  shows "db_defaults (ch_db c) = [] \<and> db_steps (ch_db c) = [] \<and>
    (\<forall>event. \<not> carried unfed_topics event (ch_db c)) \<and>
    (\<forall>topics event. carried topics event (ch_db c) \<longrightarrow>
       pget_id event ''event_id'' \<noteq> None \<and>
       only_marked (ch_db c) (state_after (consume_default_event event) (ch_db c)) \<and>
       only_marked (ch_db c) (state_after (consume_collateral_event event) (ch_db c)) \<and>
       fst (consume_compliance_event pgdiv writable event (ch_db c)) = Inr [])"
proof -
  note calm = live_undisturbed [OF assms]
  have committed: "ledger_committed (ch_db c)" using reachable_sound [OF live_reachable [OF assms]] by blast
  have event: "pget event ''event_type'' = None" "pget_id event ''event_id'' \<noteq> None"
    if "carried topics event (ch_db c)" for topics event
    using that calm by (auto simp: carried_def undisturbed_def routed_def)
  have "\<not> carried unfed_topics event (ch_db c)" for event
  proof
    assume "carried unfed_topics event (ch_db c)"
    then obtain t where "t \<in> set unfed_topics" "t \<in> snd ` set EVENTS"
      using calm by (force simp: carried_def undisturbed_def routed_def)
    then show False by (simp add: unfed_topics_def)
  qed
  moreover have "db_defaults (ch_db c) = []" "db_steps (ch_db c) = []"
    using calm by (simp_all add: undisturbed_def)
  ultimately show ?thesis using event untyped_ignored(1-3) [OF event(1) committed] by blast
qed

theorem no_default_is_declared_witness:
  "let d = state_after seed_main (empty_db migrated_schema) in
   db_defaults d = [] \<and> db_steps d = [] \<and> (\<forall>event. \<not> carried unfed_topics event d)"
proof -
  have "live example_environment empty_house" by (rule begins) (simp add: empty_house_def)
  from no_default_is_declared [OF goes_on [OF this live_seeding]] show ?thesis
    by (simp add: Let_def empty_house_def)
qed

end
