(* ===== verification/Consumers.thy ===== *)
theory Consumers
  imports Routing Waterfall_Bounds
begin

section \<open>The consumer loops of the services\<close>

text \<open>
  The settlement, liquidation, margin, collateral and compliance services poll Kafka in a loop of
  their own (\<open>consume_loop\<close> of their \<open>consumer.py\<close>), not in the one of \<open>ccp_shared\<close>: an exception is
  logged, the offset committed, and nothing kept of the message. The state of a loop is the world
  its handler works on and the messages whose offsets are committed.
\<close>

subsection \<open>One loop for five services\<close>

text \<open>
  \<open>kept\<close> says for which messages the loop \<open>continue\<close>s without committing the offset. A message that is
  JSON but not an object fails at \<open>event.get\<close>, like one that is not JSON fails in \<open>json.loads\<close>.
\<close>

definition raw_step ::
    "(payload \<Rightarrow> 'w \<Rightarrow> 'w) \<Rightarrow> (payload \<Rightarrow> 'w \<Rightarrow> bool) \<Rightarrow> 'w \<times> raw_message list \<Rightarrow> polled \<Rightarrow> 'w \<times> raw_message list" where
  "raw_step consume kept st p =
     (case p of NoMessage \<Rightarrow> st | PollError \<Rightarrow> st
      | Polled m \<Rightarrow> (case st of (w, offsets) \<Rightarrow>
          (case rm_value m of
             Json (PObj event) \<Rightarrow> (consume event w, if kept event w then offsets else offsets @ [m])
           | _ \<Rightarrow> (w, offsets @ [m]))))"

definition raw_loop ::
    "(payload \<Rightarrow> 'w \<Rightarrow> 'w) \<Rightarrow> (payload \<Rightarrow> 'w \<Rightarrow> bool) \<Rightarrow> polled list \<Rightarrow> 'w \<times> raw_message list \<Rightarrow> 'w \<times> raw_message list" where
  "raw_loop consume kept polls st = foldl (raw_step consume kept) st polls"

definition never :: "payload \<Rightarrow> 'w \<Rightarrow> bool" where
  "never event w \<longleftrightarrow> False"

definition settlement_consume_loop ::
    "'s chain_registry \<Rightarrow> signer \<Rightarrow> polled list \<Rightarrow> (db \<times> 's) \<times> raw_message list \<Rightarrow> (db \<times> 's) \<times> raw_message list" where
  "settlement_consume_loop reg sign = raw_loop (consume_settlement reg sign) never"

definition liquidation_consume_loop :: "polled list \<Rightarrow> db \<times> raw_message list \<Rightarrow> db \<times> raw_message list" where
  "liquidation_consume_loop = raw_loop (\<lambda>event. state_after (consume_default_event event)) never"

text \<open>The margin engine does not commit the offset of a message it has seen before.\<close>

definition duplicate :: "string \<Rightarrow> payload \<Rightarrow> db \<Rightarrow> bool" where
  "duplicate service event d =
     (case pget_id event ''event_id'' of None \<Rightarrow> False | Some e \<Rightarrow> processed service e d)"

definition margin_consume_loop ::
    "(rat \<Rightarrow> rat \<Rightarrow> rat) \<Rightarrow> (payload \<Rightarrow> db \<Rightarrow> int) \<Rightarrow> int \<Rightarrow> polled list \<Rightarrow> db \<times> raw_message list \<Rightarrow> db \<times> raw_message list" where
  "margin_consume_loop pgdiv clock minutes =
     raw_loop (\<lambda>event d. state_after (consume_margin_event pgdiv (clock event d) minutes event) d)
       (duplicate ''margin-engine'')"

definition collateral_consume_loop :: "polled list \<Rightarrow> db \<times> raw_message list \<Rightarrow> db \<times> raw_message list" where
  "collateral_consume_loop = raw_loop (\<lambda>event. state_after (consume_collateral_event event)) never"

definition compliance_consume_loop ::
    "(rat \<Rightarrow> rat \<Rightarrow> rat) \<Rightarrow> bool \<Rightarrow> polled list \<Rightarrow> db \<times> raw_message list \<Rightarrow> db \<times> raw_message list" where
  "compliance_consume_loop pgdiv writable =
     raw_loop (\<lambda>event d. snd (consume_compliance_event pgdiv writable event d)) never"

subsection \<open>The contract of a handler\<close>

text \<open>What of a stream of polls a loop can see: the messages, and the JSON objects among them.\<close>

definition messages :: "polled list \<Rightarrow> raw_message list" where
  "messages polls = [m. Polled m \<leftarrow> polls]"

definition objects :: "polled list \<Rightarrow> payload list" where
  "objects polls = [event. Json (PObj event) \<leftarrow> map rm_value (messages polls)]"

lemma polls_Cons [simp]:
  "messages (NoMessage # ps) = messages ps" "messages (PollError # ps) = messages ps"
  "messages (Polled m # ps) = m # messages ps" "messages [] = []"
  "objects (NoMessage # ps) = objects ps" "objects (PollError # ps) = objects ps"
  "objects (Polled m # ps) = (case rm_value m of Json (PObj event) \<Rightarrow> [event] | _ \<Rightarrow> []) @ objects ps"
  "objects [] = []"
  by (simp_all add: messages_def objects_def split: message_value.split pval.split)

locale raw_consumer =
  fixes consume :: "payload \<Rightarrow> 'w \<Rightarrow> 'w" and books :: "'w \<Rightarrow> db"
  assumes keeps: "keeps_committed (books w) (books (consume event w))"
begin

lemma loop_keeps:
  "keeps_committed (books w) (books (fold consume events w))"
proof (induction events arbitrary: w)
  case Nil
  show ?case by (simp add: keeps_committed_def)
next
  case (Cons event events)
  from keeps [of w event] Cons.IH [of "consume event w"] show ?case
    unfolding keeps_committed_def fold_simps by (blast intro: kb.trans)
qed

lemma step_polled:
  "\<exists>ks. raw_step consume kept (w, offs) (Polled m) = (fold consume (objects [Polled m]) w, offs @ ks) \<and>
     subseq ks [m] \<and> ((\<forall>event w. \<not> kept event w) \<longrightarrow> ks = [m])"
proof (cases "\<exists>event. rm_value m = Json (PObj event)")
  case True
  then obtain event where "rm_value m = Json (PObj event)" by blast
  then show ?thesis
    by (intro exI [of _ "if kept event w then [] else [m]"]) (simp add: raw_step_def)
next
  case False
  then show ?thesis by (auto simp: raw_step_def split: message_value.split pval.split)
qed

text \<open>The loop is the fold of its handler over the objects; all else leaves no trace but an offset.\<close>

lemma loop_is_fold:
  assumes "raw_loop consume kept polls (w, offs) = (w', offs')"
  shows "w' = fold consume (objects polls) w"
    "\<exists>ks. offs' = offs @ ks \<and> subseq ks (messages polls) \<and> ((\<forall>event w. \<not> kept event w) \<longrightarrow> ks = messages polls)"
proof -
  have "w' = fold consume (objects polls) w \<and>
    (\<exists>ks. offs' = offs @ ks \<and> subseq ks (messages polls) \<and> ((\<forall>event w. \<not> kept event w) \<longrightarrow> ks = messages polls))"
    using assms
  proof (induction polls arbitrary: w offs)
    case Nil
    then show ?case by (simp add: raw_loop_def)
  next
    case (Cons p polls)
    show ?case
    proof (cases p)
      case (Polled m)
      let ?w1 = "fold consume (objects [Polled m]) w"
      obtain ks1 where one: "raw_step consume kept (w, offs) (Polled m) = (?w1, offs @ ks1)"
        "subseq ks1 [m]" "(\<forall>event w. \<not> kept event w) \<longrightarrow> ks1 = [m]"
        using step_polled by blast
      with Cons.prems Polled have "raw_loop consume kept polls (?w1, offs @ ks1) = (w', offs')"
        by (simp add: raw_loop_def)
      from Cons.IH [OF this] obtain ks where
        ks: "w' = fold consume (objects polls) ?w1" "offs' = (offs @ ks1) @ ks" "subseq ks (messages polls)"
        "(\<forall>event w. \<not> kept event w) \<longrightarrow> ks = messages polls" by blast
      have "subseq (ks1 @ ks) (messages (p # polls))"
        using list_emb_append_mono [OF one(2) ks(3)] Polled by simp
      with ks one(3) Polled show ?thesis by (auto intro!: exI [of _ "ks1 @ ks"])
    qed (use Cons in \<open>simp_all add: raw_loop_def raw_step_def\<close>)
  qed
  then show "w' = fold consume (objects polls) w"
    "\<exists>ks. offs' = offs @ ks \<and> subseq ks (messages polls) \<and> ((\<forall>event w. \<not> kept event w) \<longrightarrow> ks = messages polls)"
    by blast+
qed

lemma loop_spec:
  assumes "ledger_committed (books w)"
  shows "case raw_loop consume kept polls (w, offs) of (w', offs') \<Rightarrow>
    w' = fold consume (objects polls) w \<and> (\<exists>ks. offs' = offs @ ks \<and> subseq ks (messages polls)) \<and>
    ledger_committed (books w') \<and> keeps_books (books w) (books w')"
proof -
  obtain w' offs' where run: "raw_loop consume kept polls (w, offs) = (w', offs')" by fastforce
  show ?thesis
    using loop_is_fold [OF run] loop_keeps [of w "objects polls"] assms
    by (auto simp: run keeps_committed_def)
qed

lemma loop_never:
  assumes "ledger_committed (books w)"
  shows "case raw_loop consume never polls (w, offs) of (w', offs') \<Rightarrow>
    w' = fold consume (objects polls) w \<and> offs' = offs @ messages polls \<and>
    ledger_committed (books w') \<and> keeps_books (books w) (books w')"
proof -
  obtain w' offs' where run: "raw_loop consume never polls (w, offs) = (w', offs')" by fastforce
  show ?thesis
    using loop_is_fold [OF run] loop_keeps [of w "objects polls"] assms
    by (auto simp: run keeps_committed_def never_def)
qed

end

interpretation settlement_loop: raw_consumer "consume_settlement reg sign" fst for reg sign
proof
  show "keeps_committed (fst w) (fst (consume_settlement reg sign event w))" for w event
    using consume_settlement_keeps [of reg sign event "fst w" "snd w"] by (cases "consume_settlement reg sign event w") simp
qed

interpretation liquidation_loop: raw_consumer "\<lambda>event. state_after (consume_default_event event)" id
  by unfold_locales (auto simp: consume_default_event_def intro!: consumer_keeps ev_handle_default_event)

interpretation margin_loop: raw_consumer
  "\<lambda>event d. state_after (consume_margin_event pgdiv (clock event d) minutes event) d" id for pgdiv clock minutes
  by unfold_locales (auto simp: consume_margin_event_def intro!: consumer_keeps evolving)

interpretation collateral_loop: raw_consumer "\<lambda>event. state_after (consume_collateral_event event)" id
  by unfold_locales (simp add: consume_collateral_keeps)

interpretation compliance_loop: raw_consumer
  "\<lambda>event d. snd (consume_compliance_event pgdiv writable event d)" id for pgdiv writable
  by unfold_locales (metis compliance_keeps id_apply prod.collapse)

subsection \<open>Properties\<close>


definition garbled_poll :: polled where
  "garbled_poll = Polled \<lparr>rm_topic = ''t'', rm_key = None, rm_value = Garbled PNone\<rparr>"


text \<open>A message about a default of a member.\<close>

definition default_event :: "payload \<Rightarrow> bool" where
  "default_event event \<longleftrightarrow> pget_str event ''event_type'' = Some ''margin.call.breached'' \<or>
     (pget_str event ''event_type'' = Some ''settlement.failed'' \<and> settlement_defaulter event \<noteq> None)"

lemma default_event_fails:
  assumes "db_schema d = migrated_schema" "default_event event" "\<not> duplicate ''liquidation-engine'' event d"
  shows "state_after (consume_default_event event) d = d"
proof -
  have "consume_default_event event d \<noteq> Inr (x, d')" for x d'
  proof
    assume "consume_default_event event d = Inr (x, d')"
    then obtain tr d1 where tr: "from_kafka_payload event d = Inr (tr, d1)"
      and once: "handle_once ''liquidation-engine'' (pget_id event ''event_id'')
        (handle_default_event (the (pget_str event ''event_type'')) event tr) d1 = Inr (x, d')"
      using assms(2) by (auto simp: consume_default_event_def default_event_def tx_simps)
    have "db_processed d1 = db_processed d"
      using tr by (auto simp: from_kafka_payload_def fresh_uuid_def tx_simps)
    then have new: "\<not> duplicate ''liquidation-engine'' event d1"
      using assms(3) by (simp add: duplicate_def processed_def split: option.splits)
    have "\<exists>d2 d3. evolves d1 d2 \<and>
      handle_default_event (the (pget_str event ''event_type'')) event tr d2 = Inr ((), d3)"
    proof (cases "pget_id event ''event_id''")
      case None
      with once obtain d3 where
        "handle_default_event (the (pget_str event ''event_type'')) event tr d1 = Inr ((), d3)"
        by (auto simp: handle_once_def tx_simps)
      then show ?thesis using ev.refl by blast
    next
      case (Some e)
      with once new obtain d2 d3 where "process_if_new ''liquidation-engine'' e d1 = Inr (True, d2)"
        "handle_default_event (the (pget_str event ''event_type'')) event tr d2 = Inr ((), d3)"
        by (auto simp: handle_once_def duplicate_def process_if_new_eq tx_simps split: if_splits)
      then show ?thesis using acrossD [OF ev_process_if_new] by blast
    qed
    then obtain d2 d3 where d2: "evolves d1 d2"
      and run: "handle_default_event (the (pget_str event ''event_type'')) event tr d2 = Inr ((), d3)"
      by blast
    from run assms(2) obtain m reason loss r e1 e2 where
      "evolves d2 e1" "execute_waterfall m reason loss (Some tr) e1 = Inr (r, e2)"
      by (fastforce simp: handle_default_event_def default_event_def tx_simps
        dest: acrossD [OF ev_need(1)] acrossD [OF ev_get_exposure] intro: ev.trans)
    moreover have "evolves d d1" using acrossD [OF trace_evolves(2) tr] .
    ultimately have "db_schema e1 = migrated_schema"
      using d2 assms(1) by (simp add: evolves_def)
    with waterfall_fails_on_migrated_schema [of e1 m reason loss "Some tr"]
      \<open>execute_waterfall m reason loss (Some tr) e1 = Inr (r, e2)\<close> show False by simp
  qed
  then show ?thesis by (cases "consume_default_event event d") (auto simp: state_after_def)
qed

text \<open>C19. Defaults are lost without a trace. On the migrated schema, messages about defaults that have not
  been seen before leave the database as it was, whatever they say and however many there are:
  the run of the waterfall raises, the exception is logged, the offset committed. No default event,
  no processed mark, no dead letter remains, and Kafka will not deliver them again.\<close>

theorem default_messages_lost:
  assumes "db_schema d = migrated_schema"
    and "\<forall>event \<in> set (objects polls). default_event event \<and> \<not> duplicate ''liquidation-engine'' event d"
  shows "liquidation_consume_loop polls (d, offs) = (d, offs @ messages polls)"
proof -
  obtain d' offs' where run: "raw_loop (\<lambda>event. state_after (consume_default_event event)) never polls (d, offs) =
      (d', offs')" by fastforce
  have "fold (\<lambda>event. state_after (consume_default_event event)) events d = d"
    if "\<forall>event \<in> set events. default_event event \<and> \<not> duplicate ''liquidation-engine'' event d" for events
    using that default_event_fails [OF assms(1)] by (induction events) simp_all
  with assms(2) liquidation_loop.loop_is_fold [OF run] show ?thesis
    by (simp add: liquidation_consume_loop_def run never_def)
qed

definition breached_call :: payload where
  "breached_call = [(''event_id'', PId 70), (''event_type'', PStr ''margin.call.breached''),
     (''member_id'', PId 5), (''call_amount'', PDec 100)]"

theorem default_messages_lost_witness:
  "liquidation_consume_loop [Polled \<lparr>rm_topic = ''margin.call.breached'', rm_key = None, rm_value = Json (PObj breached_call)\<rparr>]
     (default_db\<lparr>db_schema := migrated_schema\<rparr>, []) =
   (default_db\<lparr>db_schema := migrated_schema\<rparr>,
    [\<lparr>rm_topic = ''margin.call.breached'', rm_key = None, rm_value = Json (PObj breached_call)\<rparr>])"
proof -
  have "default_event breached_call" "pget_id breached_call ''event_id'' = Some 70"
    by (simp_all add: default_event_def breached_call_def pget_str_def pget_id_def pget_def)
  moreover have "\<not> processed ''liquidation-engine'' 70 (default_db\<lparr>db_schema := migrated_schema\<rparr>)"
    by (simp add: processed_def default_defs)
  ultimately show ?thesis
    by (subst default_messages_lost) (simp_all add: duplicate_def)
qed

subsection \<open>Handled once\<close>

text \<open>Once the handler has succeeded, nothing later it does for the same message is seen.\<close>

definition handled_once :: "unit ccp \<Rightarrow> bool" where
  "handled_once m \<longleftrightarrow> (\<forall>d1 d2 d3. m d1 = Inr ((), d2) \<longrightarrow> evolves d2 d3 \<longrightarrow> ledger_committed d3 \<longrightarrow>
     only_marked d3 (state_after m d3))"

lemma handled_onceI:
  assumes "\<And>d d'. m d = Inr ((), d') \<Longrightarrow> processed s e d'"
    and "\<And>d. processed s e d \<Longrightarrow> db_deferred d = [] \<Longrightarrow> only_marked d (state_after m d)"
  shows "handled_once m"
  unfolding handled_once_def
proof (intro allI impI)
  fix d1 d2 d3
  assume "m d1 = Inr ((), d2)" "evolves d2 d3" "ledger_committed d3"
  moreover from this(1,2) have "processed s e d3" using assms(1) processed_evolves by blast
  ultimately show "only_marked d3 (state_after m d3)"
    using assms(2) by (simp add: ledger_committed_def)
qed

lemma processed_uuid [simp]: "processed s e (d\<lparr>db_next_uuid := n\<rparr>) = processed s e d"
  by (simp add: processed_def)

lemma seen_trace:
  assumes "processed s e d" "db_deferred d = []"
    and "\<And>tr d'. (\<exists>body. k tr d' = handle_once s (Some e) body d') \<or> (\<exists>err. k tr d' = Inl err)"
  shows "only_marked d (state_after (bind_tx (from_kafka_payload v) k) d)"
proof -
  let ?d = "d\<lparr>db_next_uuid := Suc (db_next_uuid d)\<rparr>"
  obtain tr where tr: "from_kafka_payload v d = Inr (tr, ?d)"
    by (simp add: from_kafka_payload_def fresh_uuid_def run_simps)
  have "handle_once s (Some e) body ?d = Inr ((), ?d)" for body
    using assms(1,2) by (intro handle_once_redelivery) simp_all
  with assms(3) [of tr ?d] show ?thesis
    by (auto simp: bind_tx_def tr state_after_def only_marked_def forget_marks_def)
qed

lemma handled_once_traced:
  assumes "\<And>tr. across evolves (body tr)"
  shows "handled_once (bind_tx (from_kafka_payload v) (\<lambda>tr. handle_once s (Some e) (body tr)))"
proof (rule handled_onceI)
  show "processed s e d'"
    if "bind_tx (from_kafka_payload v) (\<lambda>tr. handle_once s (Some e) (body tr)) d = Inr ((), d')" for d d'
    using that handle_once_marks [OF assms] by (auto simp: tx_simps)
qed (erule seen_trace, assumption, blast)

lemma parse_cut_off_same: "parse_cut_off now v d = Inr (x, d') \<Longrightarrow> d' = d"
  by (auto simp: parse_cut_off_def tx_simps split: option.splits pval.splits list.splits)

lemma parse_cut_off_cases:
  "(\<exists>co. \<forall>f. bind_tx (parse_cut_off now v) f d = f co d) \<or>
   (\<exists>err. \<forall>f. bind_tx (parse_cut_off now v) f d = Inl err)"
proof (cases "parse_cut_off now v d")
  case (Inl err)
  then show ?thesis by (simp add: bind_tx_def)
next
  case (Inr r)
  then obtain co where "parse_cut_off now v d = Inr (co, d)" using parse_cut_off_same by (cases r) auto
  then show ?thesis by (auto simp: bind_tx_def)
qed

lemma netting_trigger_shape:
  "\<exists>k. handle_netting_trigger now event = bind_tx (from_kafka_payload event) k \<and>
     (\<forall>tr d. (\<exists>body. across evolves body \<and> k tr d = handle_once ''netting-engine'' (pget_id event ''event_id'') body d) \<or>
        (\<exists>err. k tr d = Inl err))"
  unfolding handle_netting_trigger_def Let_def
proof (rule exI, rule conjI, rule refl, intro allI, goal_cases)
  case (1 tr d)
  have body: "across evolves (bind_tx (run_netting_cycle ct co (Some tr)) (\<lambda>_. return_tx ()))" for ct co
    by (intro evolving)
  show ?case
  proof (cases "enum_of NettingCycleType_value NettingCycleType_members
      (case pget_str event ''cycle_type'' of None \<Rightarrow> NettingCycleType_value SCHEDULED | Some s \<Rightarrow> s)")
    case None
    then show ?thesis by (simp add: raise_tx_def)
  next
    case (Some ct)
    from parse_cut_off_cases [of now event d] show ?thesis
    proof (elim disjE exE)
      fix co
      assume "\<forall>f :: int \<Rightarrow> unit ccp. bind_tx (parse_cut_off now event) f d = f co d"
      then show ?thesis
        using body [of ct co] by (intro disjI1 exI conjI) (assumption, simp add: Some)
    next
      fix err
      assume "\<forall>f :: int \<Rightarrow> unit ccp. bind_tx (parse_cut_off now event) f d = Inl err"
      then show ?thesis by (simp add: Some)
    qed
  qed
qed

lemma handled_once_netting:
  assumes "pget_id event ''event_id'' = Some e"
  shows "handled_once (handle_netting_trigger now event)"
proof -
  from netting_trigger_shape [of now event] assms obtain k where
    m: "handle_netting_trigger now event = bind_tx (from_kafka_payload event) k" and
    k: "\<And>tr d. (\<exists>body. across evolves body \<and> k tr d = handle_once ''netting-engine'' (Some e) body d) \<or>
        (\<exists>err. k tr d = Inl err)" by auto
  show ?thesis unfolding m
  proof (rule handled_onceI)
    show "processed ''netting-engine'' e d'" if run: "bind_tx (from_kafka_payload event) k d = Inr ((), d')" for d d'
    proof -
      from run obtain tr c where "k tr c = Inr ((), d')" by (auto simp: tx_simps)
      with k [of tr c] show ?thesis using handle_once_marks by auto
    qed
    show "only_marked d (state_after (bind_tx (from_kafka_payload event) k) d)"
      if "processed ''netting-engine'' e d" "db_deferred d = []" for d
      using that by (rule seen_trace) (use k in blast)
  qed
qed

lemma settlement_seen:
  assumes "pget_id event ''event_id'' = Some e" "processed ''settlement-engine'' e d" "db_deferred d = []"
    "consume_settlement reg sign event (d, s) = (d', s')"
  shows "only_marked d d' \<and> s' = s"
proof -
  let ?d = "d\<lparr>db_next_uuid := Suc (db_next_uuid d)\<rparr>"
  obtain tr where tr: "from_kafka_payload event d = Inr (tr, ?d)"
    by (simp add: from_kafka_payload_def fresh_uuid_def run_simps)
  have "commit ?d = Inr ((), ?d)" using assms(3) by (intro commit_idle) simp
  moreover have "process_if_new ''settlement-engine'' e ?d = Inr (False, ?d)"
    using assms(2) by (simp add: process_if_new_eq)
  ultimately have "close_session (snd (handle_settlement reg sign event i tr (connect ?d s))) = (?d, s)" for i
    by (simp add: handle_settlement_def assms(1) bind_act_def sql_def connect_def commit_act_def close_session_def)
  with assms(4) have "d' = ?d \<and> s' = s"
    by (auto simp: consume_settlement_def tr split: option.splits)
  then show ?thesis by (simp add: only_marked_def forget_marks_def)
qed



end
