(* ===== verification/Responses.thy ===== *)
theory Responses
  imports Gateway
begin

section \<open>What the gateway answers\<close>

text \<open>
  The response schemas of \<open>api_gateway/schemas.py\<close> and the endpoints that fill them from the rows the
  queries of \<open>Gateway\<close> return. A schema selects columns; a row whose value does not fit the type of a field
  is refused by pydantic, which the client sees as a server error.
\<close>

subsection \<open>The schemas\<close>

record trade_response =
  tp_id :: uuid
  tp_external_trade_id :: string
  tp_instrument_id :: uuid
  tp_buyer_member_id :: uuid
  tp_seller_member_id :: uuid
  tp_quantity :: rat
  tp_price :: rat
  tp_status :: string
  tp_submitted_at :: int

record member_response =
  mb_id :: uuid
  mb_lei :: string
  mb_name :: string
  mb_status :: string
  mb_credit_limit :: rat

record position_response =
  po_instrument_id :: uuid
  po_long_quantity :: rat
  po_short_quantity :: rat
  po_net_quantity :: rat
  po_avg_price :: rat

record account_balance_response =
  ab_account_id :: uuid
  ab_account_type :: string
  ab_currency :: string
  ab_pool :: string
  ab_balance :: rat

record health_response =
  hr_status :: string
  hr_service :: string

record dead_letter_event_response =
  dr_id :: uuid
  dr_service_name :: string
  dr_topic :: string
  dr_event_key :: "string option"
  dr_error_message :: pval
  dr_created_at :: int
  dr_retry_count :: nat

definition trade_response_of :: "trade_row \<Rightarrow> trade_response" where
  "trade_response_of r = \<lparr>tp_id = t_id r, tp_external_trade_id = t_external_trade_id r,
     tp_instrument_id = t_instrument_id r, tp_buyer_member_id = t_buyer_member_id r,
     tp_seller_member_id = t_seller_member_id r, tp_quantity = t_quantity r, tp_price = t_price r,
     tp_status = t_status r, tp_submitted_at = t_submitted_at r\<rparr>"

definition member_response_of :: "member_row \<Rightarrow> member_response" where
  "member_response_of m = \<lparr>mb_id = m_id m, mb_lei = m_lei m, mb_name = m_name m, mb_status = m_status m,
     mb_credit_limit = m_credit_limit m\<rparr>"

text \<open>\<open>avg_price\<close> is required and may not be \<open>NULL\<close>.\<close>

definition position_response_of :: "member_position \<Rightarrow> exn + position_response" where
  "position_response_of p =
     (case mp_avg_price p of
        None \<Rightarrow> Inl (ValidationError [PStr ''avg_price''])
      | Some x \<Rightarrow> Inr \<lparr>po_instrument_id = mp_instrument_id p, po_long_quantity = mp_long_quantity p,
          po_short_quantity = mp_short_quantity p, po_net_quantity = mp_net_quantity p, po_avg_price = x\<rparr>)"

definition account_balance_response_of :: "account_row \<times> rat \<Rightarrow> account_balance_response" where
  "account_balance_response_of = (\<lambda>(a, b). \<lparr>ab_account_id = a_id a, ab_account_type = a_account_type a,
     ab_currency = a_currency a, ab_pool = a_pool a, ab_balance = b\<rparr>)"

definition dead_letter_event_response_of :: "dead_letter_row \<Rightarrow> dead_letter_event_response" where
  "dead_letter_event_response_of r = \<lparr>dr_id = dl_id r, dr_service_name = dl_service_name r, dr_topic = dl_topic r,
     dr_event_key = dl_event_key r, dr_error_message = dl_error_message r, dr_created_at = dl_created_at r,
     dr_retry_count = dl_retry_count r\<rparr>"

subsection \<open>The endpoints\<close>

definition post_trades :: "(string \<times> string) list \<Rightarrow> payload \<Rightarrow> trade_submit_request \<Rightarrow> trade_response ccp" where
  "post_trades api_keys headers rq =
     bind_tx (submit_trade api_keys headers rq) (\<lambda>row. return_tx (trade_response_of row))"

definition get_trades :: "(string \<times> string) list \<Rightarrow> payload \<Rightarrow> uuid \<Rightarrow> trade_response ccp" where
  "get_trades api_keys headers tid =
     bind_tx (get_trade api_keys headers tid) (\<lambda>row. return_tx (trade_response_of row))"

definition get_members :: "(string \<times> string) list \<Rightarrow> payload \<Rightarrow> member_response list ccp" where
  "get_members api_keys headers =
     bind_tx (list_members api_keys headers) (\<lambda>rows. return_tx (map member_response_of rows))"

definition get_positions ::
    "(rat \<Rightarrow> rat \<Rightarrow> rat) \<Rightarrow> (string \<times> string) list \<Rightarrow> payload \<Rightarrow> uuid \<Rightarrow> position_response list ccp" where
  "get_positions pgdiv api_keys headers m =
     bind_tx (get_member_positions pgdiv api_keys headers m) (for_tx (\<lambda>p. lift_tx (position_response_of p)))"

definition get_accounts :: "(string \<times> string) list \<Rightarrow> payload \<Rightarrow> uuid \<Rightarrow> account_balance_response list ccp" where
  "get_accounts api_keys headers m =
     bind_tx (get_member_accounts api_keys headers m) (\<lambda>rows. return_tx (map account_balance_response_of rows))"

definition get_dlq :: "(string \<times> string) list \<Rightarrow> payload \<Rightarrow> int \<Rightarrow> dead_letter_event_response list ccp" where
  "get_dlq api_keys headers limit =
     bind_tx (list_dead_letter_events api_keys headers limit) (\<lambda>rows.
     return_tx (map dead_letter_event_response_of rows))"

definition health_check :: health_response where
  "health_check = \<lparr>hr_status = ''ok'', hr_service = ''api-gateway''\<rparr>"

subsection \<open>Properties\<close>

text \<open>What a response says apart from the status.\<close>

lemma response_terms:
  "trade_terms r = trade_terms q \<Longrightarrow> (trade_response_of r)\<lparr>tp_status := s\<rparr> = (trade_response_of q)\<lparr>tp_status := s\<rparr>"
  by (cases r, cases q) (simp add: trade_terms_def trade_response_of_def)

lemma submitted_row_fetched:
  assumes "ids_wf d"
  shows "fetchone (\<lambda>t. t_id t = t_id (submitted_row rq d)) (db_trades (submitted_db rq tr key d)) = Some (submitted_row rq d)"
proof -
  have "fetchone (\<lambda>t. t_id t = Suc (db_next_uuid d)) (db_trades d) = None"
    using assms by (force simp: fetchone_None ids_wf_def Let_def fresh_ids_def)
  then show ?thesis by (simp add: submitted_db_def submitted_row_def fetchone_append)
qed

text \<open>C29. An accepted trade can be read back: with the id of the answer to \<open>POST /trades\<close> every caller with
  \<open>trade.read\<close> gets, in every later state, the same trade; only its status may have moved on. The
  answer carries the submitted terms, the amounts rounded to the columns' eight decimals.\<close>

theorem submitted_trade_is_readable:
  assumes "idempotency_key h = return_tx key" "key_free key d" "ids_wf d" "ledger_committed d"
    and "acceptable rq d" "may keys h ''trade.submit''" "post_trades keys h rq d = Inr (answer, d1)"
    and "evolves d1 d2" "may keys2 h2 ''trade.read''"
  shows "tp_status answer = ''submitted'' \<and> tp_external_trade_id answer = rq_external_trade_id rq \<and>
    tp_instrument_id answer = rq_instrument_id rq \<and> tp_buyer_member_id answer = rq_buyer_member_id rq \<and>
    tp_seller_member_id answer = rq_seller_member_id rq \<and> tp_quantity answer = num_round (rq_quantity rq) \<and>
    tp_price answer = num_round (rq_price rq) \<and>
    (\<exists>status. get_trades keys2 h2 (tp_id answer) d2 = Inr (answer\<lparr>tp_status := status\<rparr>, d2))"
proof -
  have first: "answer = trade_response_of (submitted_row rq d)" "d1 = submitted_db rq (request_trace h d) key d"
    using submit_trade_accepts [OF assms(6,1,5,2)] assms(4,7)
    by (simp_all add: post_trades_def bind_tx_def return_tx_def ledger_committed_def)
  have "prefix (map trade_terms (db_trades d1)) (map trade_terms (db_trades d2))"
    using assms(8) by (simp add: evolves_def grows_def)
  from fetch_trade_terms [OF this] submitted_row_fetched [OF assms(3)] obtain r where
    r: "fetchone (\<lambda>t. t_id t = t_id (submitted_row rq d)) (db_trades d2) = Some r"
    "trade_terms r = trade_terms (submitted_row rq d)" unfolding first(2) by blast
  obtain role where "require_permission keys2 ''trade.read'' h2 = return_tx role"
    using require_permission_may(1) [OF assms(9)] by blast
  with r(1) have "get_trades keys2 h2 (tp_id answer) d2 = Inr (trade_response_of r, d2)"
    by (simp add: get_trades_def get_trade_def first(1) trade_response_of_def run_simps)
  moreover have "trade_response_of r = answer\<lparr>tp_status := tp_status (trade_response_of r)\<rparr>"
    using response_terms [OF r(2), of "tp_status (trade_response_of r)"] first(1) by simp
  ultimately show ?thesis
    by (intro conjI exI [of _ "tp_status (trade_response_of r)"])
      (simp_all add: first(1) trade_response_of_def submitted_row_def)
qed

theorem submitted_trade_is_readable_witness:
  "\<exists>answer d1 status. post_trades example_keys (example_headers ''alpha'' None) example_request example_db = Inr (answer, d1) \<and>
     get_trades example_keys (example_headers ''alpha'' None) (tp_id answer) d1 = Inr (answer\<lparr>tp_status := status\<rparr>, d1)"
proof -
  let ?h = "example_headers ''alpha'' None"
  have key: "idempotency_key ?h = return_tx None"
    by (simp add: idempotency_key_def example_headers_def pget_def)
  have free: "key_free None example_db" "ids_wf example_db"
    by (simp_all add: key_free_def example_defs ids_wf_def fresh_ids_def)
  obtain answer d1 where post: "post_trades example_keys ?h example_request example_db = Inr (answer, d1)"
    using submit_trade_accepts [OF example_submit(1) key example_submit(3) free(1)] example_committed
    by (simp add: post_trades_def bind_tx_def return_tx_def ledger_committed_def)
  have "get_current_role example_keys ?h = Inr OPERATOR"
    by (simp add: get_current_role_def example_headers_def example_keys_def pget_str_def pget_def
        resolve_role_def enum_of_def Role_members_def Let_def)
  then have "may example_keys ?h ''trade.read''" by (simp add: may_def has_permission_def)
  from submitted_trade_is_readable [OF key free example_committed example_submit(3,1) post ev.refl this] post
  show ?thesis by blast
qed

text \<open>The listing of positions answers whenever every open leg of the member has a quantity.\<close>

lemma positions_answered:
  assumes "may keys h ''member.read''" "\<forall>p \<in> set (member_positions pgdiv d). mp_avg_price p \<noteq> None"
  shows "\<exists>ps. get_positions pgdiv keys h m d = Inr (ps, d)"
proof -
  obtain role where "require_permission keys ''member.read'' h = return_tx role"
    using require_permission_may(1) [OF assms(1)] by blast
  moreover have "\<exists>ys. for_tx (\<lambda>p. lift_tx (position_response_of p)) ps d = Inr (ys, d)"
    if "\<forall>p \<in> set ps. mp_avg_price p \<noteq> None" for ps
    using that by (induction ps) (auto simp: position_response_of_def run_simps)
  ultimately show ?thesis using assms(2)
    by (simp add: get_positions_def get_member_positions_def run_simps)
qed

end
