(* ===== verification/Privileges.thy ===== *)
theory Privileges
  imports Domain
begin

section \<open>Who may do what to which table\<close>

text \<open>
  The tables with their columns, the grants and the triggers of \<open>migrations/versions\<close>, and the
  grants of \<open>scripts/init-db.sh\<close>, which runs the migrations as \<open>admin_user\<close> and then grants the
  services their rights. A statement is abstracted to its kind, its table and the columns it
  names; the services run theirs as \<open>ledger_user\<close>. The owner of a table may do everything with
  it, \<open>REFRESH\<close> and \<open>TRUNCATE\<close> need the owner (no \<open>TRUNCATE\<close> is granted). Row-level triggers fire for
  every role, and only for \<open>UPDATE\<close> and \<open>DELETE\<close> of at least one row.
\<close>

subsection \<open>The tables\<close>

definition tables_002 :: "(string \<times> string list) list" where
  "tables_002 = [(''members'', [''id'', ''lei'', ''name'', ''status'', ''credit_limit'', ''created_at'', ''updated_at''])]"

definition tables_003 :: "(string \<times> string list) list" where
  "tables_003 = [(''instruments'', [''id'', ''symbol'', ''asset_class'', ''settlement_type'',
     ''margin_rate_im'', ''margin_rate_vm'', ''chain_id'', ''contract_address'', ''is_active'', ''created_at''])]"

definition tables_004 :: "(string \<times> string list) list" where
  "tables_004 =
     [(''accounts'', [''id'', ''member_id'', ''account_type'', ''currency'', ''pool'', ''created_at'']),
      (''journals'', [''id'', ''journal_type'', ''reference_type'', ''reference_id'', ''status'', ''created_at'']),
      (''journal_entries'', [''id'', ''journal_id'', ''account_id'', ''debit'', ''credit'', ''created_at''])]"

definition tables_005 :: "(string \<times> string list) list" where
  "tables_005 =
     [(''trades'', [''id'', ''external_trade_id'', ''instrument_id'', ''buyer_member_id'', ''seller_member_id'',
        ''quantity'', ''price'', ''status'', ''submitted_at'', ''updated_at'']),
      (''novated_trades'', [''id'', ''original_trade_id'', ''member_id'', ''instrument_id'', ''side'',
        ''quantity'', ''price'', ''status'', ''novated_at'', ''updated_at''])]"

definition tables_006 :: "(string \<times> string list) list" where
  "tables_006 =
     [(''margin_requirements'', [''id'', ''member_id'', ''instrument_id'', ''margin_type'', ''required_amount'',
        ''posted_amount'', ''shortfall'', ''calculated_at'']),
      (''margin_calls'', [''id'', ''member_id'', ''margin_requirement_id'', ''call_amount'', ''deadline'',
        ''status'', ''created_at'', ''updated_at''])]"

definition tables_007 :: "(string \<times> string list) list" where
  "tables_007 =
     [(''netting_cycles'', [''id'', ''cycle_type'', ''status'', ''cut_off_time'', ''created_at'', ''completed_at'']),
      (''net_obligations'', [''id'', ''netting_cycle_id'', ''member_id'', ''instrument_id'', ''net_quantity'',
        ''net_amount'', ''settlement_amount'', ''created_at''])]"

definition tables_008 :: "(string \<times> string list) list" where
  "tables_008 = [(''settlement_instructions'', [''id'', ''settlement_type'', ''netting_cycle_id'',
     ''from_member_id'', ''to_member_id'', ''instrument_id'', ''quantity'', ''amount'', ''chain_id'', ''tx_hash'',
     ''status'', ''block_number'', ''confirmations'', ''created_at'', ''updated_at''])]"

definition tables_009 :: "(string \<times> string list) list" where
  "tables_009 = [(''outbox_events'', [''id'', ''aggregate_type'', ''aggregate_id'', ''event_type'', ''topic'',
     ''payload'', ''created_at'', ''published_at''])]"

definition tables_010 :: "(string \<times> string list) list" where
  "tables_010 = [(''state_transitions'', [''id'', ''entity_type'', ''entity_id'', ''from_status'', ''to_status'',
     ''reason'', ''transitioned_by'', ''transitioned_at''])]"

definition tables_011 :: "(string \<times> string list) list" where
  "tables_011 = [(''price_feeds'', [''id'', ''instrument_id'', ''price'', ''source'', ''received_at''])]"

definition tables_012 :: "(string \<times> string list) list" where
  "tables_012 =
     [(''default_events'', [''id'', ''member_id'', ''trigger_reason'', ''total_exposure'', ''status'',
        ''created_at'', ''resolved_at'']),
      (''waterfall_steps'', [''id'', ''default_event_id'', ''step_order'', ''step_type'', ''available_amount'',
        ''applied_amount'', ''remaining_loss'', ''journal_id'', ''created_at''])]"

definition tables_017 :: "(string \<times> string list) list" where
  "tables_017 = [(''processed_events'', [''service_name'', ''event_id'', ''processed_at''])]"

definition tables_019 :: "(string \<times> string list) list" where
  "tables_019 = [(''dead_letter_events'', [''id'', ''service_name'', ''topic'', ''event_key'', ''payload'',
     ''error_message'', ''error_traceback'', ''original_timestamp'', ''created_at'', ''retried_at'', ''retry_count''])]"

definition add_columns :: "string \<Rightarrow> string list \<Rightarrow> (string \<times> string list) list \<Rightarrow> (string \<times> string list) list" where
  "add_columns t cols = map (\<lambda>(u, cs). (u, if u = t then cs @ cols else cs))"

definition upgrade_018 :: "(string \<times> string list) list \<Rightarrow> (string \<times> string list) list" where
  "upgrade_018 ts = add_columns ''outbox_events'' [''trace_id'']
     (add_columns ''state_transitions'' [''actor''] (add_columns ''state_transitions'' [''trace_id''] ts))"

definition upgrade_021 :: "(string \<times> string list) list \<Rightarrow> (string \<times> string list) list" where
  "upgrade_021 = add_columns ''processed_events'' [''reference_id'']"

definition migrated_tables :: "(string \<times> string list) list" where
  "migrated_tables = upgrade_021 (upgrade_018 (concat [tables_002, tables_003, tables_004, tables_005,
     tables_006, tables_007, tables_008, tables_009, tables_010, tables_011, tables_012, tables_017]) @ tables_019)"

text \<open>The views of migrations 005, 010, 011 and 015 are granted like tables.\<close>

definition view_names :: "string list" where
  "view_names = [''member_positions'', ''current_entity_status'', ''latest_prices'', ''account_balances'']"

definition all_tables :: "string list" where
  "all_tables = map fst migrated_tables @ view_names"

subsection \<open>The indexes of migration 016\<close>

text \<open>An index is its name, its table and its columns (the direction of a column is left out).\<close>

type_synonym index = "string \<times> string \<times> string list"

definition INDEXES :: "index list" where
  "INDEXES =
     [(''idx_members_status'', ''members'', [''status'']),
      (''idx_accounts_member_id'', ''accounts'', [''member_id'']),
      (''idx_journal_entries_journal_id'', ''journal_entries'', [''journal_id'']),
      (''idx_journal_entries_account_id'', ''journal_entries'', [''account_id'']),
      (''idx_trades_instrument_id'', ''trades'', [''instrument_id'']),
      (''idx_trades_buyer_member_id'', ''trades'', [''buyer_member_id'']),
      (''idx_trades_seller_member_id'', ''trades'', [''seller_member_id'']),
      (''idx_trades_status'', ''trades'', [''status'']),
      (''idx_novated_trades_original_trade_id'', ''novated_trades'', [''original_trade_id'']),
      (''idx_novated_trades_member_id'', ''novated_trades'', [''member_id'']),
      (''idx_novated_trades_instrument_id'', ''novated_trades'', [''instrument_id'']),
      (''idx_novated_trades_status'', ''novated_trades'', [''status'']),
      (''idx_margin_calls_member_id'', ''margin_calls'', [''member_id'']),
      (''idx_margin_calls_status'', ''margin_calls'', [''status'']),
      (''idx_netting_cycles_status'', ''netting_cycles'', [''status'']),
      (''idx_net_obligations_netting_cycle_id'', ''net_obligations'', [''netting_cycle_id'']),
      (''idx_settlement_instructions_status'', ''settlement_instructions'', [''status'']),
      (''idx_settlement_instructions_from_member_id'', ''settlement_instructions'', [''from_member_id'']),
      (''idx_settlement_instructions_to_member_id'', ''settlement_instructions'', [''to_member_id'']),
      (''idx_default_events_member_id'', ''default_events'', [''member_id'']),
      (''idx_default_events_status'', ''default_events'', [''status'']),
      (''idx_waterfall_steps_default_event_id'', ''waterfall_steps'', [''default_event_id''])]"

definition COMPOSITE_INDEXES :: "index list" where
  "COMPOSITE_INDEXES =
     [(''idx_margin_requirements_member_instrument'', ''margin_requirements'', [''member_id'', ''instrument_id'']),
      (''idx_state_transitions_entity'', ''state_transitions'', [''entity_type'', ''entity_id'']),
      (''idx_price_feeds_instrument_received'', ''price_feeds'', [''instrument_id'', ''received_at''])]"

definition create_index :: "(string \<times> string list) list \<Rightarrow> index \<Rightarrow> index list \<Rightarrow> exn + index list" where
  "create_index tables = (\<lambda>(name, t, cols) catalog.
     if name \<in> fst ` set catalog then Inl (ExternalError ''DuplicateTable'')
     else case map_of tables t of
         None \<Rightarrow> Inl (ExternalError ''UndefinedTable'')
       | Some existing \<Rightarrow> (case filter (\<lambda>c. c \<notin> set existing) cols of
             c # _ \<Rightarrow> Inl (UndefinedColumn c) | [] \<Rightarrow> Inr (catalog @ [(name, t, cols)])))"

definition drop_index :: "string \<Rightarrow> index list \<Rightarrow> index list" where
  "drop_index name catalog = filter (\<lambda>i. fst i \<noteq> name) catalog"

fun create_indexes :: "(string \<times> string list) list \<Rightarrow> index list \<Rightarrow> index list \<Rightarrow> exn + index list" where
  "create_indexes tables [] catalog = Inr catalog"
| "create_indexes tables (i # is') catalog =
     (case create_index tables i catalog of Inl e \<Rightarrow> Inl e | Inr catalog' \<Rightarrow> create_indexes tables is' catalog')"

definition upgrade_016 :: "(string \<times> string list) list \<Rightarrow> index list \<Rightarrow> exn + index list" where
  "upgrade_016 tables catalog =
     (case create_indexes tables INDEXES catalog of Inl e \<Rightarrow> Inl e
      | Inr catalog' \<Rightarrow> create_indexes tables COMPOSITE_INDEXES catalog')"

definition downgrade_016 :: "index list \<Rightarrow> index list" where
  "downgrade_016 catalog =
     fold (\<lambda>(name, _). drop_index name) (rev INDEXES) (fold (\<lambda>(name, _). drop_index name) (rev COMPOSITE_INDEXES) catalog)"

subsection \<open>The grants\<close>

datatype privilege = SelectOn | InsertOn | UpdateOn | UpdateColumns "string list" | AllPrivileges

record grant =
  gr_role :: string
  gr_privileges :: "privilege list"
  gr_tables :: "string list"

definition granted :: "privilege list \<Rightarrow> string list \<Rightarrow> string \<Rightarrow> grant" where
  "granted ps ts role = \<lparr>gr_role = role, gr_privileges = ps, gr_tables = ts\<rparr>"

text \<open>
  Migration 001 runs before any table exists; its default privileges hold for every table and
  view that \<open>admin_user\<close> creates afterwards.
\<close>

definition grants_001 :: "grant list" where
  "grants_001 = [granted [SelectOn] all_tables ''readonly_user'', granted [AllPrivileges] all_tables ''admin_user'']"

definition select_to_both :: "string list \<Rightarrow> grant list" where
  "select_to_both ts = [granted [SelectOn] ts ''readonly_user'', granted [SelectOn] ts ''ledger_user'']"

definition grants_002 :: "grant list" where
  "grants_002 = select_to_both [''members'']"

definition grants_003 :: "grant list" where
  "grants_003 = select_to_both [''instruments'']"

definition grants_004 :: "grant list" where
  "grants_004 =
     [granted [SelectOn] [''accounts'', ''journals'', ''journal_entries''] ''readonly_user'',
      granted [SelectOn, InsertOn] [''accounts'', ''journals'', ''journal_entries''] ''ledger_user'']"

definition grants_005 :: "grant list" where
  "grants_005 = select_to_both [''trades'', ''novated_trades'', ''member_positions'']"

definition grants_006 :: "grant list" where
  "grants_006 =
     [granted [SelectOn] [''margin_requirements'', ''margin_calls''] ''readonly_user'',
      granted [SelectOn, InsertOn] [''margin_requirements'', ''margin_calls''] ''ledger_user'']"

definition grants_007 :: "grant list" where
  "grants_007 = select_to_both [''netting_cycles'', ''net_obligations'']"

definition grants_008 :: "grant list" where
  "grants_008 = select_to_both [''settlement_instructions'']"

definition grants_009 :: "grant list" where
  "grants_009 =
     [granted [SelectOn] [''outbox_events''] ''readonly_user'',
      granted [SelectOn, InsertOn] [''outbox_events''] ''ledger_user'',
      granted [UpdateColumns [''published_at'']] [''outbox_events''] ''ledger_user'']"

definition grants_010 :: "grant list" where
  "grants_010 =
     [granted [SelectOn] [''state_transitions'', ''current_entity_status''] ''readonly_user'',
      granted [SelectOn, InsertOn] [''state_transitions''] ''ledger_user'',
      granted [SelectOn] [''current_entity_status''] ''ledger_user'']"

definition grants_011 :: "grant list" where
  "grants_011 =
     [granted [SelectOn] [''price_feeds'', ''latest_prices''] ''readonly_user'',
      granted [SelectOn, InsertOn] [''price_feeds''] ''ledger_user'',
      granted [SelectOn] [''latest_prices''] ''ledger_user'']"

definition grants_012 :: "grant list" where
  "grants_012 =
     [granted [SelectOn] [''default_events'', ''waterfall_steps''] ''readonly_user'',
      granted [SelectOn, InsertOn] [''default_events'', ''waterfall_steps''] ''ledger_user'']"

definition grants_015 :: "grant list" where
  "grants_015 = select_to_both [''account_balances'']"

definition grants_017 :: "grant list" where
  "grants_017 =
     [granted [SelectOn, InsertOn] [''processed_events''] ''ledger_user'',
      granted [SelectOn] [''processed_events''] ''readonly_user'']"

definition grants_019 :: "grant list" where
  "grants_019 =
     [granted [SelectOn, InsertOn, UpdateOn] [''dead_letter_events''] ''ledger_user'',
      granted [SelectOn] [''dead_letter_events''] ''readonly_user'']"

definition grants_020 :: "grant list" where
  "grants_020 = [granted [UpdateOn] [''settlement_instructions''] ''ledger_user'']"

definition migration_grants :: "grant list" where
  "migration_grants = concat [grants_001, grants_002, grants_003, grants_004, grants_005, grants_006,
     grants_007, grants_008, grants_009, grants_010, grants_011, grants_012, grants_015, grants_017,
     grants_019, grants_020]"

definition init_db_grants :: "grant list" where
  "init_db_grants =
     [granted [SelectOn] all_tables ''readonly_user'',
      granted [SelectOn] all_tables ''ledger_user'',
      granted [InsertOn] [''journals'', ''journal_entries'', ''trades'', ''novated_trades'', ''accounts'',
        ''margin_requirements'', ''margin_calls'', ''netting_cycles'', ''net_obligations'',
        ''settlement_instructions'', ''state_transitions'', ''price_feeds'', ''default_events'',
        ''waterfall_steps'', ''outbox_events''] ''ledger_user'',
      granted [UpdateColumns [''published_at'']] [''outbox_events''] ''ledger_user'',
      granted [UpdateColumns [''status'', ''updated_at'']] [''trades''] ''ledger_user'',
      granted [UpdateColumns [''status'', ''updated_at'']] [''novated_trades''] ''ledger_user'',
      granted [UpdateColumns [''status'', ''updated_at'']] [''margin_calls''] ''ledger_user'',
      granted [UpdateColumns [''status'', ''completed_at'']] [''netting_cycles''] ''ledger_user'',
      granted [UpdateColumns [''status'', ''updated_at'', ''tx_hash'', ''block_number'', ''confirmations'']]
        [''settlement_instructions''] ''ledger_user'',
      granted [UpdateColumns [''status'', ''resolved_at'']] [''default_events''] ''ledger_user'',
      granted [UpdateColumns [''status'', ''updated_at'', ''credit_limit'']] [''members''] ''ledger_user'',
      granted [UpdateColumns [''required_amount'', ''posted_amount'', ''calculated_at'']]
        [''margin_requirements''] ''ledger_user'']"

definition deployed_grants :: "grant list" where
  "deployed_grants = migration_grants @ init_db_grants"

subsection \<open>Statements\<close>

datatype statement =
    InsertInto string "string list"
  | UpdateSet string "string list"
  | SelectForUpdate string
  | DeleteFrom string
  | TruncateTable string
  | RefreshView string

primrec statement_table :: "statement \<Rightarrow> string" where
  "statement_table (InsertInto t cols) = t"
| "statement_table (UpdateSet t cols) = t"
| "statement_table (SelectForUpdate t) = t"
| "statement_table (DeleteFrom t) = t"
| "statement_table (TruncateTable t) = t"
| "statement_table (RefreshView t) = t"

primrec statement_columns :: "statement \<Rightarrow> string list" where
  "statement_columns (InsertInto t cols) = cols"
| "statement_columns (UpdateSet t cols) = cols"
| "statement_columns (SelectForUpdate t) = []"
| "statement_columns (DeleteFrom t) = []"
| "statement_columns (TruncateTable t) = []"
| "statement_columns (RefreshView t) = []"

definition table_owner :: string where
  "table_owner = ''admin_user''"

definition held :: "grant list \<Rightarrow> string \<Rightarrow> string \<Rightarrow> privilege list" where
  "held gs role t = concat (map gr_privileges (filter (\<lambda>g. gr_role g = role \<and> t \<in> set (gr_tables g)) gs))"

definition updatable :: "privilege list \<Rightarrow> string list" where
  "updatable ps = concat (map (\<lambda>p. case p of UpdateColumns cols \<Rightarrow> cols | _ \<Rightarrow> []) ps)"

definition permitted :: "grant list \<Rightarrow> string \<Rightarrow> statement \<Rightarrow> bool" where
  "permitted gs role stmt \<longleftrightarrow> role = table_owner \<or>
     (let ps = held gs role (statement_table stmt) in
      case stmt of
        InsertInto t cols \<Rightarrow> InsertOn \<in> set ps
      | UpdateSet t cols \<Rightarrow> UpdateOn \<in> set ps \<or> set cols \<subseteq> set (updatable ps)
      | SelectForUpdate t \<Rightarrow> SelectOn \<in> set ps \<and> (UpdateOn \<in> set ps \<or> updatable ps \<noteq> [])
      | _ \<Rightarrow> False)"

text \<open>The triggers of migrations 013 and 021.\<close>

definition immutable_013 :: "string list" where
  "immutable_013 = [''journal_entries'', ''journals'']"

definition immutable_021 :: "string list" where
  "immutable_021 = [''state_transitions'']"

definition prevent_mutation :: "statement \<Rightarrow> bool" where
  "prevent_mutation stmt \<longleftrightarrow> statement_table stmt \<in> set (immutable_013 @ immutable_021) \<and>
     (case stmt of UpdateSet t cols \<Rightarrow> True | DeleteFrom t \<Rightarrow> True | _ \<Rightarrow> False)"

text \<open>What the server answers to a statement that touches \<open>rows\<close> rows.\<close>

definition run_statement :: "grant list \<Rightarrow> string \<Rightarrow> statement \<Rightarrow> nat \<Rightarrow> exn + unit" where
  "run_statement gs role stmt rows =
     (case filter (\<lambda>c. c \<notin> set (case map_of migrated_tables (statement_table stmt) of
             Some cols \<Rightarrow> cols | None \<Rightarrow> [])) (statement_columns stmt) of
        c # _ \<Rightarrow> Inl (UndefinedColumn c)
      | [] \<Rightarrow>
          if \<not> permitted gs role stmt then Inl (InsufficientPrivilege (statement_table stmt))
          else if prevent_mutation stmt \<and> 0 < rows
          then Inl (ExternalError ''Mutations not allowed on immutable table'')
          else Inr ())"

subsection \<open>The statements of the services\<close>

text \<open>
  Every statement that writes, with the columns it names (an upsert is an insert and an update):
  \<open>main.py\<close> of the gateway, lines 164 and 187; \<open>novation.py\<close> 120, 183, 224, 235, 281, 332; \<open>netting.py\<close> 215, 243,
  281, 310, 358, 377, 401; \<open>settler.py\<close> 71, 157, 166, 250, 306, 313, 328, 385, 406; \<open>waterfall.py\<close> 49, 57,
  113, 387, 396, 442, 468; \<open>calculator.py\<close> 123, 167, 181, 238, 247; \<open>operations.py\<close> 46, 53, 286; \<open>publisher.py\<close>
  36 and 101; \<open>feed.py\<close> 123; \<open>idempotency.py\<close> 31, \<open>outbox.py\<close> 45 and \<open>consumer.py\<close> 123 of \<open>ccp_shared\<close>.
\<close>

definition journal_statements :: "statement list" where
  "journal_statements =
     [InsertInto ''journals'' [''id'', ''journal_type'', ''reference_type'', ''reference_id'', ''status''],
      InsertInto ''journal_entries'' [''journal_id'', ''account_id'', ''debit'', ''credit'']]"

definition shared_statements :: "statement list" where
  "shared_statements =
     [InsertInto ''processed_events'' [''service_name'', ''event_id''],
      InsertInto ''outbox_events'' [''aggregate_type'', ''aggregate_id'', ''event_type'', ''topic'', ''payload'', ''trace_id''],
      InsertInto ''dead_letter_events'' [''service_name'', ''topic'', ''event_key'', ''payload'',
        ''error_message'', ''error_traceback'']]"

definition trade_statements :: "statement list" where
  "trade_statements =
     [InsertInto ''trades'' [''external_trade_id'', ''instrument_id'', ''buyer_member_id'', ''seller_member_id'',
        ''quantity'', ''price'', ''status''],
      InsertInto ''processed_events'' [''service_name'', ''event_id'', ''reference_id''],
      UpdateSet ''trades'' [''status'', ''updated_at''],
      InsertInto ''novated_trades'' [''original_trade_id'', ''member_id'', ''instrument_id'', ''side'', ''quantity'', ''price''],
      InsertInto ''state_transitions'' [''entity_type'', ''entity_id'', ''from_status'', ''to_status'',
        ''transitioned_by'', ''trace_id'', ''actor'']]"

definition netting_statements :: "statement list" where
  "netting_statements =
     [InsertInto ''netting_cycles'' [''id'', ''cycle_type'', ''status'', ''cut_off_time''],
      UpdateSet ''netting_cycles'' [''status''],
      InsertInto ''net_obligations'' [''id'', ''netting_cycle_id'', ''member_id'', ''instrument_id'', ''net_quantity'',
        ''net_amount'', ''settlement_amount''],
      InsertInto ''settlement_instructions'' [''id'', ''netting_cycle_id'', ''from_member_id'', ''to_member_id'',
        ''instrument_id'', ''quantity'', ''amount'', ''settlement_type'', ''status''],
      UpdateSet ''novated_trades'' [''status''],
      InsertInto ''state_transitions'' [''id'', ''entity_type'', ''entity_id'', ''from_status'', ''to_status'',
        ''transitioned_by'', ''trace_id'', ''actor'']]"

definition settlement_statements :: "statement list" where
  "settlement_statements =
     [UpdateSet ''settlement_instructions'' [''status'', ''updated_at''],
      UpdateSet ''settlement_instructions'' [''tx_hash'', ''updated_at''],
      UpdateSet ''settlement_instructions'' [''block_number'', ''confirmations'', ''updated_at''],
      InsertInto ''state_transitions'' [''entity_type'', ''entity_id'', ''from_status'', ''to_status'', ''reason'',
        ''transitioned_by'', ''trace_id'', ''actor'']]"

definition default_statements :: "statement list" where
  "default_statements =
     [InsertInto ''default_events'' [''id'', ''member_id'', ''trigger_reason'', ''total_exposure'', ''status''],
      UpdateSet ''members'' [''status'', ''updated_at''],
      UpdateSet ''default_events'' [''status'', ''resolved_at''],
      InsertInto ''waterfall_steps'' [''id'', ''default_event_id'', ''step_order'', ''step_type'', ''available_amount'',
        ''applied_amount'', ''remaining_loss'', ''journal_id''],
      InsertInto ''state_transitions'' [''entity_type'', ''entity_id'', ''to_status'', ''reason'',
        ''transitioned_by'', ''trace_id'', ''actor'']]"

definition margin_statements :: "statement list" where
  "margin_statements =
     [InsertInto ''margin_requirements'' [''member_id'', ''instrument_id'', ''margin_type'', ''required_amount''],
      UpdateSet ''margin_requirements'' [''required_amount'', ''calculated_at''],
      UpdateSet ''margin_requirements'' [''posted_amount''],
      InsertInto ''margin_calls'' [''id'', ''member_id'', ''margin_requirement_id'', ''call_amount'', ''deadline'', ''status'']]"

definition background_statements :: "statement list" where
  "background_statements =
     [SelectForUpdate ''outbox_events'', UpdateSet ''outbox_events'' [''published_at''],
      InsertInto ''price_feeds'' [''instrument_id'', ''price'', ''source'']]"

definition service_statements :: "statement list" where
  "service_statements = concat [journal_statements, shared_statements, trade_statements, netting_statements,
     settlement_statements, default_statements, margin_statements, background_statements]"

subsection \<open>Properties\<close>

lemma held_ledger:
  assumes "t \<in> set (immutable_013 @ immutable_021)"
  shows "set (held deployed_grants ''ledger_user'' t) \<subseteq> {SelectOn, InsertOn}"
proof -
  have "list_all (\<lambda>t. list_all (\<lambda>p. p = SelectOn \<or> p = InsertOn) (held deployed_grants ''ledger_user'' t))
      (immutable_013 @ immutable_021)" by code_simp
  with assms show ?thesis unfolding list_all_iff by auto
qed

lemma held_readonly: "set (held deployed_grants ''readonly_user'' t) \<subseteq> {SelectOn}"
proof -
  have "list_all (\<lambda>g. gr_role g = ''readonly_user'' \<longrightarrow> list_all (\<lambda>p. p = SelectOn) (gr_privileges g))
      deployed_grants" by code_simp
  then show ?thesis by (auto simp: held_def list_all_iff)
qed

lemma updatable_none: "set ps \<subseteq> {SelectOn, InsertOn} \<Longrightarrow> updatable ps = []"
  by (auto simp: updatable_def)



text \<open>The triggers do not fire for \<open>TRUNCATE\<close>, which the owner may run.\<close>

lemma owner_may_truncate: "run_statement gs table_owner (TruncateTable t) rows = Inr ()"
  by (simp add: run_statement_def permitted_def prevent_mutation_def)


text \<open>The upgrade of migration 016 goes through on the tables of the migrations before it, and its downgrade
  takes back exactly what it added.\<close>

definition indexable :: "(string \<times> string list) list \<Rightarrow> index \<Rightarrow> bool" where
  "indexable tables = (\<lambda>(name, t, cols). case map_of tables t of None \<Rightarrow> False
     | Some existing \<Rightarrow> list_all (\<lambda>c. c \<in> set existing) cols)"

lemma create_indexes_run:
  assumes "list_all (indexable tables) news" "distinct (map fst (catalog @ news))"
  shows "create_indexes tables news catalog = Inr (catalog @ news)"
  using assms
proof (induction news arbitrary: catalog)
  case (Cons i news)
  obtain name t cols where i: "i = (name, t, cols)" by (cases i)
  from Cons.prems have "create_index tables i catalog = Inr (catalog @ [i])"
    by (auto simp: i create_index_def indexable_def list_all_iff filter_empty_conv split: option.splits list.splits)
  then show ?case using Cons.IH [of "catalog @ [i]"] Cons.prems by simp
qed simp

lemma fold_drop_index:
  "fold (\<lambda>(name, _). drop_index name) ixs catalog = filter (\<lambda>i. fst i \<notin> fst ` set ixs) catalog"
  by (induction ixs arbitrary: catalog) (auto simp: drop_index_def filter_filter intro: filter_cong)

lemma migration_016_roundtrip:
  assumes "distinct (map fst catalog)" "fst ` set catalog \<inter> fst ` set (INDEXES @ COMPOSITE_INDEXES) = {}"
    and "tables = concat [tables_002, tables_003, tables_004, tables_005, tables_006, tables_007,
      tables_008, tables_009, tables_010, tables_011, tables_012]"
  shows "upgrade_016 tables catalog = Inr (catalog @ INDEXES @ COMPOSITE_INDEXES)"
    "downgrade_016 (catalog @ INDEXES @ COMPOSITE_INDEXES) = catalog"
proof -
  have names: "distinct (map fst (INDEXES @ COMPOSITE_INDEXES))" by code_simp
  have ok: "list_all (indexable tables) (INDEXES @ COMPOSITE_INDEXES)" unfolding assms(3) by code_simp
  have "create_indexes tables INDEXES catalog = Inr (catalog @ INDEXES)"
    using ok names assms(1,2) by (intro create_indexes_run) auto
  moreover have "create_indexes tables COMPOSITE_INDEXES (catalog @ INDEXES) = Inr ((catalog @ INDEXES) @ COMPOSITE_INDEXES)"
    using ok names assms(1,2) by (intro create_indexes_run) auto
  ultimately show "upgrade_016 tables catalog = Inr (catalog @ INDEXES @ COMPOSITE_INDEXES)"
    by (simp add: upgrade_016_def)
  have "filter (\<lambda>i. fst i \<notin> fst ` set (INDEXES @ COMPOSITE_INDEXES)) catalog = catalog"
    using assms(2) by (auto simp: filter_id_conv)
  moreover have "filter (\<lambda>i. fst i \<notin> fst ` set (INDEXES @ COMPOSITE_INDEXES)) (INDEXES @ COMPOSITE_INDEXES) = []"
    by (auto simp: filter_empty_conv)
  moreover have "downgrade_016 xs = filter (\<lambda>i. fst i \<notin> fst ` set (INDEXES @ COMPOSITE_INDEXES)) xs" for xs
    unfolding downgrade_016_def fold_drop_index filter_filter by (intro filter_cong) auto
  ultimately show "downgrade_016 (catalog @ INDEXES @ COMPOSITE_INDEXES) = catalog"
    by (metis append_Nil2 filter_append)
qed

end
